(* ===== verification/Prelude.thy ===== *)
theory Prelude
  imports Complex_Main "HOL-Library.List_Lexorder" "HOL-Library.Char_ord"
begin

text \<open>
  Vocabulary shared by every component of the spaced repetition development: the
  collections of facts the component proofs draw on, the numbers of the source language,
  and keyed tables.

  Numbers. A JavaScript \<open>number\<close> that passed \<open>z.number()\<close> is a finite double, hence
  a rational: wire fields are \<^typ>\<open>rat\<close>. A value that went through \<open>new Date(..)\<close>,
  \<open>BigInt(..)\<close> or \<open>Date.now()\<close> is a whole number of milliseconds: \<^typ>\<open>int\<close>.

  Tables. A Postgres table or a JavaScript \<open>Map\<close> is a list of rows with a key function,
  in insertion order (\<open>tbl_*\<close>); an IndexedDB object store, whose \<open>getAll\<close> answers in
  key order, is a list sorted by key (\<open>idb_*\<close>). Both keep the law of the locale
  \<open>keyed_store\<close> below.
\<close>

named_theorems tbl_facts "lookup, membership and well-formedness facts of keyed tables"
named_theorems inv_intros "operations that keep a component's invariant"

type_synonym id = string
type_synonym ms = int

section \<open>Numbers\<close>

definition jsTrunc :: "rat \<Rightarrow> int" where
  "jsTrunc r = (if 0 \<le> r then \<lfloor>r\<rfloor> else \<lceil>r\<rceil>)"

lemma jsTrunc_of_int [simp]: "jsTrunc (of_int n) = n"
  by (simp add: jsTrunc_def)

lemma jsTrunc_numeral [simp]:
  "jsTrunc 0 = 0" "jsTrunc 1 = 1" "jsTrunc (numeral n) = numeral n"
  "jsTrunc (- numeral n) = - numeral n"
  by (simp_all add: jsTrunc_def)

lemma jsTrunc_mono: "r \<le> s \<Longrightarrow> jsTrunc r \<le> jsTrunc s"
proof (cases "0 \<le> r \<or> s < 0")
  case True
  then show "r \<le> s \<Longrightarrow> jsTrunc r \<le> jsTrunc s"
    by (auto simp: jsTrunc_def floor_mono ceiling_mono)
next
  case False
  then have "\<lceil>r\<rceil> \<le> 0" "0 \<le> \<lfloor>s\<rfloor>" by (simp_all add: ceiling_le_iff)
  then have "\<lceil>r\<rceil> \<le> \<lfloor>s\<rfloor>" by (rule order_trans)
  with False show "r \<le> s \<Longrightarrow> jsTrunc r \<le> jsTrunc s" by (simp add: jsTrunc_def)
qed

lemma jsTrunc_less: "jsTrunc r < jsTrunc s \<Longrightarrow> r < s"
  using jsTrunc_mono [of s r] by linarith

definition isWhole :: "rat \<Rightarrow> bool" where
  "isWhole r \<longleftrightarrow> of_int \<lfloor>r\<rfloor> = r"

lemma isWhole_of_int [simp]: "isWhole (of_int n)"
  by (simp add: isWhole_def)

lemma isWhole_numeral [simp]: "isWhole 0" "isWhole 1" "isWhole (numeral n)" "isWhole (- numeral n)"
  by (simp_all add: isWhole_def)

lemma isWhole_trunc: "isWhole r \<Longrightarrow> of_int (jsTrunc r) = r"
  unfolding isWhole_def jsTrunc_def by (metis ceiling_of_int)

section \<open>Keyed tables in insertion order\<close>

definition tbl_get :: "('a \<Rightarrow> 'k) \<Rightarrow> 'k \<Rightarrow> 'a list \<Rightarrow> 'a option" where
  "tbl_get key k xs = find (\<lambda>x. key x = k) xs"

fun tbl_put :: "('a \<Rightarrow> 'k) \<Rightarrow> 'a \<Rightarrow> 'a list \<Rightarrow> 'a list" where
  "tbl_put key r [] = [r]"
| "tbl_put key r (x # xs) = (if key x = key r then r # xs else x # tbl_put key r xs)"

definition tbl_del :: "('a \<Rightarrow> 'k) \<Rightarrow> 'k \<Rightarrow> 'a list \<Rightarrow> 'a list" where
  "tbl_del key k xs = filter (\<lambda>x. key x \<noteq> k) xs"

abbreviation tbl_ok :: "('a \<Rightarrow> 'k) \<Rightarrow> 'a list \<Rightarrow> bool" where
  "tbl_ok key xs \<equiv> distinct (map key xs)"

lemma tbl_get_Nil [simp]: "tbl_get key k [] = None"
  by (simp add: tbl_get_def)

lemma tbl_get_Cons [simp]:
  "tbl_get key k (x # xs) = (if key x = k then Some x else tbl_get key k xs)"
  by (simp add: tbl_get_def)

lemma tbl_del_Nil [simp]: "tbl_del key k [] = []"
  by (simp add: tbl_del_def)

lemma tbl_del_Cons [simp]:
  "tbl_del key k (x # xs) = (if key x = k then tbl_del key k xs else x # tbl_del key k xs)"
  by (simp add: tbl_del_def)

lemma tbl_get_key: "tbl_get key k xs = Some r \<Longrightarrow> key r = k"
  by (induction xs) (auto split: if_splits)

lemma tbl_get_in: "tbl_get key k xs = Some r \<Longrightarrow> r \<in> set xs"
  by (induction xs) (auto split: if_splits)

lemma tbl_get_None [tbl_facts]: "tbl_get key k xs = None \<longleftrightarrow> k \<notin> key ` set xs"
  by (induction xs) auto

lemma tbl_get_iff: "tbl_ok key xs \<Longrightarrow> tbl_get key k xs = Some r \<longleftrightarrow> r \<in> set xs \<and> key r = k"
  by (induction xs) (auto split: if_splits)

lemma tbl_get_put [tbl_facts]:
  "tbl_get key k (tbl_put key r xs) = (if k = key r then Some r else tbl_get key k xs)"
  by (induction xs) auto

lemma tbl_get_del [tbl_facts]:
  "tbl_get key k (tbl_del key j xs) = (if k = j then None else tbl_get key k xs)"
  by (induction xs) auto

lemma keys_tbl_put [tbl_facts]: "key ` set (tbl_put key r xs) = insert (key r) (key ` set xs)"
  by (induction xs) auto

lemma tbl_ok_put [tbl_facts, inv_intros]: "tbl_ok key xs \<Longrightarrow> tbl_ok key (tbl_put key r xs)"
proof (induction xs)
  case (Cons x xs)
  have "key x \<noteq> key r \<Longrightarrow> key x \<notin> key ` set (tbl_put key r xs)"
    using Cons.prems by (simp add: keys_tbl_put)
  with Cons show ?case by auto
qed simp

lemma tbl_ok_filter [tbl_facts, inv_intros]: "tbl_ok key xs \<Longrightarrow> tbl_ok key (filter P xs)"
  by (induction xs) auto

lemma tbl_ok_del [tbl_facts, inv_intros]: "tbl_ok key xs \<Longrightarrow> tbl_ok key (tbl_del key k xs)"
  by (simp add: tbl_del_def tbl_ok_filter)

lemma set_tbl_put [tbl_facts]:
  "tbl_ok key xs \<Longrightarrow> x \<in> set (tbl_put key r xs) \<longleftrightarrow> x = r \<or> (x \<in> set xs \<and> key x \<noteq> key r)"
  by (induction xs) (auto, metis image_eqI)

lemma set_tbl_put_subset: "set (tbl_put key r xs) \<subseteq> insert r (set xs)"
  by (induction xs) auto

lemma set_tbl_del [tbl_facts]: "set (tbl_del key k xs) = {x \<in> set xs. key x \<noteq> k}"
  by (auto simp: tbl_del_def)

lemma tbl_get_filter:
  "tbl_ok key xs \<Longrightarrow> tbl_get key k (filter P xs) =
     (case tbl_get key k xs of None \<Rightarrow> None | Some r \<Rightarrow> if P r then Some r else None)"
proof (induction xs)
  case (Cons a xs)
  have "key a = k \<Longrightarrow> tbl_get key k xs = None"
    using Cons.prems by (simp add: tbl_get_None)
  with Cons show ?case by (auto split: option.splits)
qed simp

section \<open>Keyed tables in key order (IndexedDB object stores)\<close>

fun idb_put :: "('a \<Rightarrow> 'k::linorder) \<Rightarrow> 'a \<Rightarrow> 'a list \<Rightarrow> 'a list" where
  "idb_put key r [] = [r]"
| "idb_put key r (x # xs) =
     (if key r < key x then r # x # xs
      else if key r = key x then r # xs
      else x # idb_put key r xs)"

abbreviation idb_ok :: "('a \<Rightarrow> 'k::linorder) \<Rightarrow> 'a list \<Rightarrow> bool" where
  "idb_ok key xs \<equiv> sorted_wrt (\<lambda>x y. key x < key y) xs"

lemma idb_ok_tbl_ok: "idb_ok key xs \<Longrightarrow> tbl_ok key xs"
  by (induction xs) auto

lemma set_idb_put_subset: "set (idb_put key r xs) \<subseteq> insert r (set xs)"
  by (induction xs) auto

lemma idb_get_put [tbl_facts]:
  "idb_ok key xs \<Longrightarrow>
   tbl_get key k (idb_put key r xs) = (if k = key r then Some r else tbl_get key k xs)"
proof (induction xs)
  case (Cons x xs)
  have "key r < key x \<Longrightarrow> tbl_get key (key r) xs = None"
    using Cons.prems by (auto simp: tbl_get_None)
  with Cons show ?case by auto
qed simp

lemma idb_ok_put [tbl_facts, inv_intros]: "idb_ok key xs \<Longrightarrow> idb_ok key (idb_put key r xs)"
proof (induction xs)
  case (Cons x xs)
  then show ?case using set_idb_put_subset [of key r xs] by auto
qed simp

lemma idb_ok_filter [tbl_facts, inv_intros]: "idb_ok key xs \<Longrightarrow> idb_ok key (filter P xs)"
  by (rule sorted_wrt_filter)

lemma idb_ok_del [tbl_facts, inv_intros]: "idb_ok key xs \<Longrightarrow> idb_ok key (tbl_del key k xs)"
  by (simp add: tbl_del_def sorted_wrt_filter)

lemma set_idb_put [tbl_facts]:
  "idb_ok key xs \<Longrightarrow> x \<in> set (idb_put key r xs) \<longleftrightarrow> x = r \<or> (x \<in> set xs \<and> key x \<noteq> key r)"
  by (induction xs) auto

section \<open>The contract of a keyed store\<close>

text \<open>
  What every holder of records promises to the code that uses it. The clients are the
  optimistic writes of the services (put, then restore the previous value when the durable
  write fails) and the folds that write many records.
\<close>

definition restoreOne :: "('a \<Rightarrow> 's \<Rightarrow> 's) \<Rightarrow> ('k \<Rightarrow> 's \<Rightarrow> 's) \<Rightarrow> 'k \<times> 'a option \<Rightarrow> 's \<Rightarrow> 's" where
  "restoreOne put del p s = (case snd p of None \<Rightarrow> del (fst p) s | Some v \<Rightarrow> put v s)"

locale keyed_store =
  fixes key :: "'a \<Rightarrow> 'k"
    and get :: "'k \<Rightarrow> 's \<Rightarrow> 'a option"
    and put :: "'a \<Rightarrow> 's \<Rightarrow> 's"
    and del :: "'k \<Rightarrow> 's \<Rightarrow> 's"
    and inv :: "'s \<Rightarrow> bool"
  assumes get_put: "inv s \<Longrightarrow> get k (put r s) = (if k = key r then Some r else get k s)"
    and get_del: "inv s \<Longrightarrow> get k (del j s) = (if k = j then None else get k s)"
    and get_key: "inv s \<Longrightarrow> get k s = Some r \<Longrightarrow> key r = k"
    and inv_put: "inv s \<Longrightarrow> inv (put r s)"
    and inv_del: "inv s \<Longrightarrow> inv (del j s)"
begin

lemma rollback_put:
  assumes "inv s"
  shows "get k (case get (key r) s of None \<Rightarrow> del (key r) (put r s) | Some p \<Rightarrow> put p (put r s))
    = get k s"
  using assms by (auto simp: get_put get_del inv_put dest: get_key split: option.splits)

lemma rollback_del:
  assumes "inv s"
  shows "get k (case get j s of None \<Rightarrow> del j (del j s) | Some p \<Rightarrow> put p (del j s)) = get k s"
  using assms by (auto simp: get_put get_del inv_del dest: get_key split: option.splits)

lemma inv_fold_put: "inv s \<Longrightarrow> inv (fold put rs s)"
  by (induction rs arbitrary: s) (auto simp: inv_put)

lemma get_fold_put_other:
  "inv s \<Longrightarrow> k \<notin> key ` set rs \<Longrightarrow> get k (fold put rs s) = get k s"
  by (induction rs arbitrary: s) (auto simp: get_put inv_put)

lemma inv_restore: "inv s \<Longrightarrow> inv (restoreOne put del p s)"
  by (simp add: restoreOne_def inv_put inv_del split: option.split)

lemma inv_restore_all: "inv s \<Longrightarrow> inv (fold (restoreOne put del) ps s)"
  by (induction ps arbitrary: s) (simp_all add: inv_restore)

text \<open>Restoring earlier values, in any order, brings each restored key back to its value.\<close>

lemma get_restore_all:
  assumes "inv s0"
  shows "inv s \<Longrightarrow> (\<And>p. p \<in> set ps \<Longrightarrow> snd p = get (fst p) s0) \<Longrightarrow>
    get k (fold (restoreOne put del) ps s) = (if k \<in> fst ` set ps then get k s0 else get k s)"
proof (induction ps arbitrary: s)
  case (Cons p ps)
  have p: "snd p = get (fst p) s0" by (rule Cons.prems(2)) simp
  then have one: "get k (restoreOne put del p s) = (if k = fst p then get k s0 else get k s)" for k
    using Cons.prems(1) get_key [OF assms, of "fst p"]
    by (cases "get (fst p) s0") (auto simp: restoreOne_def get_put get_del)
  have "get k (fold (restoreOne put del) ps (restoreOne put del p s))
      = (if k \<in> fst ` set ps then get k s0 else get k (restoreOne put del p s))"
    by (rule Cons.IH) (use Cons.prems in \<open>simp_all add: inv_restore\<close>)
  then show ?case by (auto simp: one)
qed simp

lemma rollback_all:
  assumes "inv s" "ps = map (\<lambda>r. (key r, get (key r) s)) rs"
  shows "get k (fold (restoreOne put del) ps (fold put rs s)) = get k s"
proof -
  have "get k (fold (restoreOne put del) ps (fold put rs s))
      = (if k \<in> fst ` set ps then get k s else get k (fold put rs s))"
    by (rule get_restore_all [OF assms(1)]) (auto simp: assms inv_fold_put)
  then show ?thesis
    using get_fold_put_other [OF assms(1), of k rs] by (auto simp: assms(2) image_image)
qed

lemma get_fold_put:
  "inv s \<Longrightarrow> distinct (map key rs) \<Longrightarrow> r \<in> set rs \<Longrightarrow> get (key r) (fold put rs s) = Some r"
proof (induction rs arbitrary: s)
  case (Cons a rs)
  show ?case
  proof (cases "r = a")
    case True
    with Cons.prems show ?thesis
      by (auto simp: get_fold_put_other inv_put get_put)
  next
    case False
    with Cons show ?thesis by (simp add: inv_put)
  qed
qed simp

lemma inv_fold_del: "inv s \<Longrightarrow> inv (fold del ks s)"
  by (induction ks arbitrary: s) (auto simp: inv_del)

lemma get_fold_del:
  "inv s \<Longrightarrow> get k (fold del ks s) = (if k \<in> set ks then None else get k s)"
  by (induction ks arbitrary: s) (auto simp: get_del inv_del)

end

interpretation tbl: keyed_store key "tbl_get key" "tbl_put key" "tbl_del key" "tbl_ok key"
  for key :: "'a \<Rightarrow> 'k"
  by unfold_locales (auto simp: tbl_facts dest: tbl_get_key)

interpretation idb: keyed_store key "tbl_get key" "idb_put key" "tbl_del key" "idb_ok key"
  for key :: "'a \<Rightarrow> 'k::linorder"
  by unfold_locales (auto simp: tbl_facts dest: tbl_get_key)

end
