(* ===== verification/JsValue.thy ===== *)
theory JsValue
  imports Prelude
begin

text \<open>
  Values of the source language where the code handles them untyped (\<open>unknown\<close>): parsed
  JSON plus \<open>ArrayBuffer\<close>. A missing property reads as \<open>JUndef\<close>. An \<open>ArrayBuffer\<close> carries
  an identity (two buffers with equal bytes are different objects) and its bytes.

  \<open>host\<close> collects what the code calls in its runtime and in third-party packages and that is
  not under src/: the JSON text codec (the \<open>JSON\<close> object and the \<open>jsonb\<close> columns of
  Postgres), \<open>String.localeCompare\<close> (ICU collation), SHA-256, zod's \<open>uuid()\<close> check, and the
  collation-free facts the theorems need of them are named hypotheses.
\<close>

datatype jsv =
    JUndef
  | JNull
  | JBool bool
  | JNum rat
  | JStr string
  | JArr "jsv list"
  | JObj "(string \<times> jsv) list"
  | JBuf nat string

record host =
  isUuid :: "string \<Rightarrow> bool"
  localeCompare :: "string \<Rightarrow> string \<Rightarrow> int"
  jsonParse :: "string \<Rightarrow> jsv option"
  jsonStringify :: "jsv \<Rightarrow> string"
  sha256Hex :: "string \<Rightarrow> string"

text \<open>
  \<open>typeof v === 'object' && v !== null && !Array.isArray(v)\<close>. An \<open>ArrayBuffer\<close> passes the test and
  has none of the properties the code asks for.
\<close>

fun isObject :: "jsv \<Rightarrow> bool" where
  "isObject (JObj _) = True"
| "isObject (JBuf _ _) = True"
| "isObject _ = False"

fun getProp :: "string \<Rightarrow> jsv \<Rightarrow> jsv" where
  "getProp k (JObj fs) = (case tbl_get fst k fs of None \<Rightarrow> JUndef | Some f \<Rightarrow> snd f)"
| "getProp k _ = JUndef"

fun hasKey :: "string \<Rightarrow> jsv \<Rightarrow> bool" where
  "hasKey k (JObj fs) \<longleftrightarrow> k \<in> set (map fst fs)"
| "hasKey k _ \<longleftrightarrow> False"

text \<open>\<open>{ ...o, [k]: v }\<close>: an existing key keeps its place, a new one is appended.\<close>

fun withProp :: "string \<Rightarrow> jsv \<Rightarrow> jsv \<Rightarrow> jsv" where
  "withProp k v (JObj fs) = JObj (tbl_put fst (k, v) fs)"
| "withProp k v (JBuf _ _) = JObj [(k, v)]"
| "withProp k v x = x"

lemma getProp_withProp [simp]:
  "isObject x \<Longrightarrow> getProp j (withProp k v x) = (if j = k then v else getProp j x)"
  by (cases x) (auto simp: tbl_facts)

lemma isObject_withProp [simp]: "isObject (withProp k v x) = isObject x"
  by (cases x) auto

lemma hasKey_withProp [simp]:
  "isObject x \<Longrightarrow> hasKey j (withProp k v x) \<longleftrightarrow> j = k \<or> hasKey j x"
  by (cases x) (auto simp: keys_tbl_put [of fst, simplified])

lemma getProp_missing: "\<not> hasKey k x \<Longrightarrow> getProp k x = JUndef"
  by (cases x) (simp_all add: tbl_get_None [THEN iffD2])

lemma getProp_hasKey: "getProp k x \<noteq> JUndef \<Longrightarrow> hasKey k x"
  using getProp_missing by blast

section \<open>Strings\<close>

definition isDigit :: "char \<Rightarrow> bool" where
  "isDigit c \<longleftrightarrow> CHR ''0'' \<le> c \<and> c \<le> CHR ''9''"

definition isHexLower :: "char \<Rightarrow> bool" where
  "isHexLower c \<longleftrightarrow> isDigit c \<or> (CHR ''a'' \<le> c \<and> c \<le> CHR ''f'')"

definition digitVal :: "char \<Rightarrow> int" where
  "digitVal c = int (of_char c) - 48"

text \<open>\<open>BigInt\<close> of a string of digits, and \<open>toString\<close> of a non-negative \<open>BigInt\<close>.\<close>

definition digitsVal :: "string \<Rightarrow> int" where
  "digitsVal s = foldl (\<lambda>n c. 10 * n + digitVal c) 0 s"

definition digitChar :: "nat \<Rightarrow> char" where
  "digitChar d = char_of (48 + d)"

fun natToString :: "nat \<Rightarrow> string" where
  "natToString n =
     (if n < 10 then [digitChar n] else natToString (n div 10) @ [digitChar (n mod 10)])"

declare natToString.simps [simp del]

lemma of_char_digitChar: "d < 10 \<Longrightarrow> (of_char (digitChar d) :: nat) = 48 + d"
  by (simp add: digitChar_def)

lemma isDigit_iff: "isDigit c \<longleftrightarrow> 48 \<le> (of_char c :: nat) \<and> (of_char c :: nat) \<le> 57"
  by (simp add: isDigit_def less_eq_char_def)

lemma digitChar_facts [simp]:
  "d < 10 \<Longrightarrow> isDigit (digitChar d)" "d < 10 \<Longrightarrow> digitVal (digitChar d) = int d"
  by (simp_all add: isDigit_iff of_char_digitChar digitVal_def)

lemma natToString_digits: "list_all isDigit (natToString n) \<and> natToString n \<noteq> []"
proof (induction n rule: natToString.induct)
  case (1 n)
  then show ?case by (subst (1 2) natToString.simps) auto
qed

lemma digitsVal_snoc [simp]: "digitsVal (s @ [c]) = 10 * digitsVal s + digitVal c"
  by (simp add: digitsVal_def)

lemma digitsVal_natToString: "digitsVal (natToString n) = int n"
proof (induction n rule: natToString.induct)
  case (1 n)
  show ?case
  proof (cases "n < 10")
    case True
    then show ?thesis by (subst natToString.simps) (simp add: digitsVal_def)
  next
    case False
    with 1 have "digitsVal (natToString (n div 10)) = int (n div 10)" by simp
    with False show ?thesis by (subst natToString.simps) (simp add: zdiv_int zmod_int)
  qed
qed


section \<open>Base64 (\<open>btoa\<close>, \<open>atob\<close> and \<open>Buffer\<close>)\<close>

definition base64Char :: "nat \<Rightarrow> char" where
  "base64Char n = ''ABCDEFGHIJKLMNOPQRSTUVWXYZabcdefghijklmnopqrstuvwxyz0123456789+/'' ! (n mod 64)"

fun base64 :: "nat list \<Rightarrow> string" where
  "base64 (a # b # c # bs) =
     (let n = 65536 * a + 256 * b + c in
      [base64Char (n div 262144), base64Char (n div 4096), base64Char (n div 64), base64Char n] @ base64 bs)"
| "base64 [a, b] =
     (let n = 65536 * a + 256 * b in
      [base64Char (n div 262144), base64Char (n div 4096), base64Char (n div 64), CHR ''=''])"
| "base64 [a] =
     (let n = 65536 * a in [base64Char (n div 262144), base64Char (n div 4096), CHR ''='', CHR ''=''])"
| "base64 [] = []"

text \<open>\<open>atob\<close> without the white space it would skip: a length that is a multiple of four may end
  in one or two paddings, a remainder of one is an error, leftover bits are dropped.\<close>

definition base64Val :: "char \<Rightarrow> nat option" where
  "base64Val c =
     (let n = (of_char c :: nat)
      in if 65 \<le> n \<and> n \<le> 90 then Some (n - 65)
         else if 97 \<le> n \<and> n \<le> 122 then Some (n - 71)
         else if 48 \<le> n \<and> n \<le> 57 then Some (n + 4)
         else if n = 43 then Some 62
         else if n = 47 then Some 63
         else None)"

fun sixBits :: "string \<Rightarrow> nat list option" where
  "sixBits [] = Some []"
| "sixBits (c # cs) =
     (case (base64Val c, sixBits cs) of (Some v, Some vs) \<Rightarrow> Some (v # vs) | _ \<Rightarrow> None)"

fun bytesOf :: "nat list \<Rightarrow> nat list" where
  "bytesOf (a # b # c # d # vs) =
     (let n = 262144 * a + 4096 * b + 64 * c + d
      in [n div 65536, n div 256 mod 256, n mod 256] @ bytesOf vs)"
| "bytesOf [a, b, c] = (let n = 262144 * a + 4096 * b + 64 * c in [n div 65536, n div 256 mod 256])"
| "bytesOf [a, b] = (let n = 262144 * a + 4096 * b in [n div 65536])"
| "bytesOf _ = []"

definition unpadded :: "string \<Rightarrow> string" where
  "unpadded s =
     (if length s mod 4 \<noteq> 0 then s
      else if drop (length s - 2) s = ''=='' then take (length s - 2) s
      else if drop (length s - 1) s = ''='' then take (length s - 1) s
      else s)"

definition atob :: "string \<Rightarrow> nat list option" where
  "atob s =
     (let u = unpadded s
      in if length u mod 4 = 1 then None else map_option bytesOf (sixBits u))"

end
