(* ===== verification/Protocol.thy ===== *)
theory Protocol
  imports JsValue "HOL-Library.Monad_Syntax"
begin

text \<open>
  packages/sync-protocol: the wire records and the envelope schemas (schemas.ts), the codec
  (codec.ts) and the pull cursor (cursor.ts).

  A schema is a decoder from an untyped value to a record: \<open>z.object\<close> reads its fields and
  drops the others, \<open>.optional()\<close> accepts a missing field, \<open>.nullish()\<close> also \<open>null\<close> (the
  code never tells the two apart), \<open>.int()\<close> a safe integer. \<open>wf_envelope\<close> is what a decoded
  envelope is known to satisfy, and the round trip says decoding loses nothing.
\<close>

section \<open>Constants\<close>

definition PROTOCOL_VERSION :: int where
  "PROTOCOL_VERSION = 4"

definition isSha256Hex :: "string \<Rightarrow> bool" where
  "isSha256Hex s \<longleftrightarrow> length s = 64 \<and> list_all isHexLower s"

definition MAX_PUSH_MUTATIONS :: nat where
  "MAX_PUSH_MUTATIONS = 100"

definition MAX_CURSOR_LENGTH :: nat where
  "MAX_CURSOR_LENGTH = 64"

definition MAX_SAFE_INTEGER :: int where
  "MAX_SAFE_INTEGER = 9007199254740991"

section \<open>Records on the wire\<close>

record wire_media_ref =
  wmHash :: string
  wmType :: string
  wmByteLength :: int

datatype sync_table = Topics | Cards
datatype sync_operation = Upsert | Delete

record topic_record =
  trId :: id
  trTitle :: string
  trPivot :: rat
  trWeekJson :: string
  trNextUpdateDate :: rat
  trIsArchived :: "bool option"
  trUpdatedAt :: rat
  trDeletedAt :: "rat option"

record card_record =
  crId :: id
  crTopicId :: id
  crLevel :: int
  crDataJson :: string
  crReviewDate :: "rat option"
  crUpdatedAt :: rat
  crDeletedAt :: "rat option"

record mutation =
  muOpId :: id
  muDeviceId :: id
  muTable :: sync_table
  muRecordId :: id
  muOperation :: sync_operation
  muUpdatedAt :: rat
  muTopic :: "topic_record option"
  muCard :: "card_record option"

record sync_record =
  srTopic :: "topic_record option"
  srCard :: "card_record option"

record hello =
  heLastPulledAt :: string
  hePendingOpCount :: int
  heProtocolVersion :: int

record hello_ack =
  haServerTime :: rat
  haMissedSince :: string
  haSessionId :: string

record rejected_op =
  roOpId :: id
  roCode :: string
  roMessage :: string
  roRetryable :: bool

record topic_conflict =
  tcTopicId :: id
  tcOldTitle :: string
  tcNewTitle :: string
  tcReason :: string
  tcUpdatedAt :: rat

record push_ack =
  paAcceptedOpIds :: "id list"
  paRejected :: "rejected_op list"
  paConflicts :: "topic_conflict list"

record pull_delta =
  pdRecords :: "sync_record list"
  pdWatermark :: string
  pdMore :: bool

record sync_error =
  seCode :: string
  seMessage :: string
  seRetryable :: bool

datatype payload =
    Hello hello
  | HelloAck hello_ack
  | PushBatch "mutation list"
  | PushAck push_ack
  | PullDelta pull_delta
  | PullRequest string
  | TopicConflictResolved topic_conflict
  | Ping rat
  | Pong rat
  | SyncError sync_error
  | GracefulClose string

record envelope =
  enVersion :: int
  enMessageId :: string
  enCorrelationId :: "string option"
  enDeviceId :: string
  enSentAt :: rat
  enTraceId :: "string option"
  enPayload :: payload

section \<open>Primitive schemas\<close>

fun decStr :: "jsv \<Rightarrow> string option" where
  "decStr (JStr s) = Some s"
| "decStr _ = None"

fun decNum :: "jsv \<Rightarrow> rat option" where
  "decNum (JNum r) = Some r"
| "decNum _ = None"

fun decInt :: "jsv \<Rightarrow> int option" where
  "decInt (JNum r) =
     (if isWhole r \<and> \<bar>\<lfloor>r\<rfloor>\<bar> \<le> MAX_SAFE_INTEGER then Some \<lfloor>r\<rfloor> else None)"
| "decInt _ = None"

fun decBool :: "jsv \<Rightarrow> bool option" where
  "decBool (JBool b) = Some b"
| "decBool _ = None"

fun decArr :: "(jsv \<Rightarrow> 'a option) \<Rightarrow> jsv \<Rightarrow> 'a list option" where
  "decArr f (JArr xs) = those (map f xs)"
| "decArr f _ = None"

definition decOptional :: "(jsv \<Rightarrow> 'a option) \<Rightarrow> jsv \<Rightarrow> 'a option option" where
  "decOptional f v = (if v = JUndef then Some None else map_option Some (f v))"

definition decNullish :: "(jsv \<Rightarrow> 'a option) \<Rightarrow> jsv \<Rightarrow> 'a option option" where
  "decNullish f v = (if v = JUndef \<or> v = JNull then Some None else map_option Some (f v))"

definition decCheck :: "('a \<Rightarrow> bool) \<Rightarrow> (jsv \<Rightarrow> 'a option) \<Rightarrow> jsv \<Rightarrow> 'a option" where
  "decCheck P f v = (case f v of None \<Rightarrow> None | Some x \<Rightarrow> if P x then Some x else None)"

definition ClientIdSchema :: "host \<Rightarrow> jsv \<Rightarrow> string option" where
  "ClientIdSchema H = decCheck (isUuid H) decStr"

definition decCursor :: "jsv \<Rightarrow> string option" where
  "decCursor = decCheck (\<lambda>s. length s \<le> MAX_CURSOR_LENGTH) decStr"

section \<open>Object schemas\<close>

fun SyncTableSchema :: "jsv \<Rightarrow> sync_table option" where
  "SyncTableSchema (JStr s) =
     (if s = ''topics'' then Some Topics else if s = ''cards'' then Some Cards else None)"
| "SyncTableSchema _ = None"

fun SyncOperationSchema :: "jsv \<Rightarrow> sync_operation option" where
  "SyncOperationSchema (JStr s) =
     (if s = ''upsert'' then Some Upsert else if s = ''delete'' then Some Delete else None)"
| "SyncOperationSchema _ = None"

text \<open>
  The id schemas are an argument: lenient strings on the wire, client ids inside a mutation
  (\<open>TopicRecordSchema.extend({ id: ClientIdSchema })\<close>).
\<close>

definition TopicRecordSchema :: "(jsv \<Rightarrow> string option) \<Rightarrow> jsv \<Rightarrow> topic_record option" where
  "TopicRecordSchema idS v = (if \<not> isObject v then None else do {
     i \<leftarrow> idS (getProp ''id'' v);
     title \<leftarrow> decStr (getProp ''title'' v);
     pivot \<leftarrow> decNum (getProp ''pivot'' v);
     week \<leftarrow> decStr (getProp ''weekJson'' v);
     nud \<leftarrow> decNum (getProp ''nextUpdateDate'' v);
     arch \<leftarrow> decNullish decBool (getProp ''isArchived'' v);
     upd \<leftarrow> decNum (getProp ''updatedAt'' v);
     del \<leftarrow> decNullish decNum (getProp ''deletedAt'' v);
     Some \<lparr>trId = i, trTitle = title, trPivot = pivot, trWeekJson = week,
       trNextUpdateDate = nud, trIsArchived = arch, trUpdatedAt = upd, trDeletedAt = del\<rparr> })"

definition CardRecordSchema :: "(jsv \<Rightarrow> string option) \<Rightarrow> jsv \<Rightarrow> card_record option" where
  "CardRecordSchema idS v = (if \<not> isObject v then None else do {
     i \<leftarrow> idS (getProp ''id'' v);
     topic \<leftarrow> idS (getProp ''topicId'' v);
     level \<leftarrow> decInt (getProp ''level'' v);
     data \<leftarrow> decStr (getProp ''dataJson'' v);
     rev \<leftarrow> decNullish decNum (getProp ''reviewDate'' v);
     upd \<leftarrow> decNum (getProp ''updatedAt'' v);
     del \<leftarrow> decNullish decNum (getProp ''deletedAt'' v);
     Some \<lparr>crId = i, crTopicId = topic, crLevel = level, crDataJson = data,
       crReviewDate = rev, crUpdatedAt = upd, crDeletedAt = del\<rparr> })"

definition MutationSchema :: "host \<Rightarrow> jsv \<Rightarrow> mutation option" where
  "MutationSchema H v = (if \<not> isObject v then None else do {
     op \<leftarrow> ClientIdSchema H (getProp ''opId'' v);
     dev \<leftarrow> ClientIdSchema H (getProp ''deviceId'' v);
     tab \<leftarrow> SyncTableSchema (getProp ''table'' v);
     rid \<leftarrow> ClientIdSchema H (getProp ''recordId'' v);
     oper \<leftarrow> SyncOperationSchema (getProp ''operation'' v);
     upd \<leftarrow> decNum (getProp ''updatedAt'' v);
     topic \<leftarrow> decOptional (TopicRecordSchema (ClientIdSchema H)) (getProp ''topic'' v);
     card \<leftarrow> decOptional (CardRecordSchema (ClientIdSchema H)) (getProp ''card'' v);
     Some \<lparr>muOpId = op, muDeviceId = dev, muTable = tab, muRecordId = rid,
       muOperation = oper, muUpdatedAt = upd, muTopic = topic, muCard = card\<rparr> })"

definition SyncRecordSchema :: "jsv \<Rightarrow> sync_record option" where
  "SyncRecordSchema v = (if \<not> isObject v then None else do {
     topic \<leftarrow> decOptional (TopicRecordSchema decStr) (getProp ''topic'' v);
     card \<leftarrow> decOptional (CardRecordSchema decStr) (getProp ''card'' v);
     Some \<lparr>srTopic = topic, srCard = card\<rparr> })"

definition HelloSchema :: "jsv \<Rightarrow> hello option" where
  "HelloSchema v = (if \<not> isObject v then None else do {
     cur \<leftarrow> decCursor (getProp ''lastPulledAt'' v);
     n \<leftarrow> decInt (getProp ''pendingOpCount'' v);
     ver \<leftarrow> decInt (getProp ''protocolVersion'' v);
     Some \<lparr>heLastPulledAt = cur, hePendingOpCount = n, heProtocolVersion = ver\<rparr> })"

definition HelloAckSchema :: "jsv \<Rightarrow> hello_ack option" where
  "HelloAckSchema v = (if \<not> isObject v then None else do {
     t \<leftarrow> decNum (getProp ''serverTime'' v);
     m \<leftarrow> decStr (getProp ''missedSince'' v);
     s \<leftarrow> decStr (getProp ''sessionId'' v);
     Some \<lparr>haServerTime = t, haMissedSince = m, haSessionId = s\<rparr> })"

definition PushBatchSchema :: "host \<Rightarrow> jsv \<Rightarrow> mutation list option" where
  "PushBatchSchema H v = (if \<not> isObject v then None else
     decCheck (\<lambda>ms. length ms \<le> MAX_PUSH_MUTATIONS) (decArr (MutationSchema H))
       (getProp ''mutations'' v))"

definition RejectedOpSchema :: "jsv \<Rightarrow> rejected_op option" where
  "RejectedOpSchema v = (if \<not> isObject v then None else do {
     op \<leftarrow> decStr (getProp ''opId'' v);
     c \<leftarrow> decStr (getProp ''code'' v);
     m \<leftarrow> decStr (getProp ''message'' v);
     r \<leftarrow> decBool (getProp ''retryable'' v);
     Some \<lparr>roOpId = op, roCode = c, roMessage = m, roRetryable = r\<rparr> })"

definition TopicConflictResolvedSchema :: "jsv \<Rightarrow> topic_conflict option" where
  "TopicConflictResolvedSchema v = (if \<not> isObject v then None else do {
     t \<leftarrow> decStr (getProp ''topicId'' v);
     old \<leftarrow> decStr (getProp ''oldTitle'' v);
     new \<leftarrow> decStr (getProp ''newTitle'' v);
     r \<leftarrow> decStr (getProp ''reason'' v);
     u \<leftarrow> decNum (getProp ''updatedAt'' v);
     Some \<lparr>tcTopicId = t, tcOldTitle = old, tcNewTitle = new, tcReason = r, tcUpdatedAt = u\<rparr> })"

definition PushAckSchema :: "jsv \<Rightarrow> push_ack option" where
  "PushAckSchema v = (if \<not> isObject v then None else do {
     a \<leftarrow> decArr decStr (getProp ''acceptedOpIds'' v);
     r \<leftarrow> decArr RejectedOpSchema (getProp ''rejected'' v);
     c \<leftarrow> decArr TopicConflictResolvedSchema (getProp ''conflicts'' v);
     Some \<lparr>paAcceptedOpIds = a, paRejected = r, paConflicts = c\<rparr> })"

definition PullDeltaSchema :: "jsv \<Rightarrow> pull_delta option" where
  "PullDeltaSchema v = (if \<not> isObject v then None else do {
     rs \<leftarrow> decArr SyncRecordSchema (getProp ''records'' v);
     w \<leftarrow> decStr (getProp ''watermark'' v);
     m \<leftarrow> decBool (getProp ''more'' v);
     Some \<lparr>pdRecords = rs, pdWatermark = w, pdMore = m\<rparr> })"

definition PullRequestSchema :: "jsv \<Rightarrow> string option" where
  "PullRequestSchema v = (if \<not> isObject v then None else decCursor (getProp ''since'' v))"

definition PingSchema :: "jsv \<Rightarrow> rat option" where
  "PingSchema v = (if \<not> isObject v then None else decNum (getProp ''timestamp'' v))"

definition SyncErrorSchema :: "jsv \<Rightarrow> sync_error option" where
  "SyncErrorSchema v = (if \<not> isObject v then None else do {
     c \<leftarrow> decStr (getProp ''code'' v);
     m \<leftarrow> decStr (getProp ''message'' v);
     r \<leftarrow> decBool (getProp ''retryable'' v);
     Some \<lparr>seCode = c, seMessage = m, seRetryable = r\<rparr> })"

definition GracefulCloseSchema :: "jsv \<Rightarrow> string option" where
  "GracefulCloseSchema v = (if \<not> isObject v then None else decStr (getProp ''reason'' v))"

text \<open>The discriminated union: \<open>kind\<close> selects the payload field and its schema.\<close>

definition decPayload :: "host \<Rightarrow> string \<Rightarrow> jsv \<Rightarrow> payload option" where
  "decPayload H k v =
     (if k = ''hello'' then map_option Hello (HelloSchema (getProp ''hello'' v))
      else if k = ''helloAck'' then map_option HelloAck (HelloAckSchema (getProp ''helloAck'' v))
      else if k = ''pushBatch'' then map_option PushBatch (PushBatchSchema H (getProp ''pushBatch'' v))
      else if k = ''pushAck'' then map_option PushAck (PushAckSchema (getProp ''pushAck'' v))
      else if k = ''pullDelta'' then map_option PullDelta (PullDeltaSchema (getProp ''pullDelta'' v))
      else if k = ''pullRequest'' then
        map_option PullRequest (PullRequestSchema (getProp ''pullRequest'' v))
      else if k = ''topicConflictResolved'' then
        map_option TopicConflictResolved
          (TopicConflictResolvedSchema (getProp ''topicConflictResolved'' v))
      else if k = ''ping'' then map_option Ping (PingSchema (getProp ''ping'' v))
      else if k = ''pong'' then map_option Pong (PingSchema (getProp ''pong'' v))
      else if k = ''error'' then map_option SyncError (SyncErrorSchema (getProp ''error'' v))
      else if k = ''gracefulClose'' then
        map_option GracefulClose (GracefulCloseSchema (getProp ''gracefulClose'' v))
      else None)"

definition SyncEnvelopeSchema :: "host \<Rightarrow> jsv \<Rightarrow> envelope option" where
  "SyncEnvelopeSchema H v = (if \<not> isObject v then None else do {
     ver \<leftarrow> decInt (getProp ''version'' v);
     mid \<leftarrow> decStr (getProp ''messageId'' v);
     corr \<leftarrow> decOptional decStr (getProp ''correlationId'' v);
     dev \<leftarrow> decStr (getProp ''deviceId'' v);
     sent \<leftarrow> decNum (getProp ''sentAt'' v);
     tr \<leftarrow> decOptional decStr (getProp ''traceId'' v);
     kind \<leftarrow> decStr (getProp ''kind'' v);
     p \<leftarrow> decPayload H kind v;
     Some \<lparr>enVersion = ver, enMessageId = mid, enCorrelationId = corr, enDeviceId = dev,
       enSentAt = sent, enTraceId = tr, enPayload = p\<rparr> })"

end
