(* ===== verification/Codec.thy ===== *)
theory Codec
  imports Protocol
begin

text \<open>
  codec.ts (the envelope as JSON text) and cursor.ts (the pull cursor), with their laws: a
  well-formed envelope survives encode/decode, a decoded envelope is well-formed, the cursor
  text round-trips and \<open>isCursorAhead\<close> is the strict order of the sequences it names.
\<close>

section \<open>Envelopes as untyped values\<close>

definition optField :: "string \<Rightarrow> ('a \<Rightarrow> jsv) \<Rightarrow> 'a option \<Rightarrow> (string \<times> jsv) list" where
  "optField k f x = (case x of None \<Rightarrow> [] | Some y \<Rightarrow> [(k, f y)])"

definition nullable :: "('a \<Rightarrow> jsv) \<Rightarrow> 'a option \<Rightarrow> jsv" where
  "nullable f x = (case x of None \<Rightarrow> JNull | Some y \<Rightarrow> f y)"

definition jint :: "int \<Rightarrow> jsv" where
  "jint n = JNum (of_int n)"

fun encTable :: "sync_table \<Rightarrow> jsv" where
  "encTable Topics = JStr ''topics''"
| "encTable Cards = JStr ''cards''"

fun encOperation :: "sync_operation \<Rightarrow> jsv" where
  "encOperation Upsert = JStr ''upsert''"
| "encOperation Delete = JStr ''delete''"

definition encTopic :: "topic_record \<Rightarrow> jsv" where
  "encTopic t = JObj [(''id'', JStr (trId t)), (''title'', JStr (trTitle t)),
     (''pivot'', JNum (trPivot t)), (''weekJson'', JStr (trWeekJson t)),
     (''nextUpdateDate'', JNum (trNextUpdateDate t)),
     (''isArchived'', nullable JBool (trIsArchived t)),
     (''updatedAt'', JNum (trUpdatedAt t)), (''deletedAt'', nullable JNum (trDeletedAt t))]"

definition encCard :: "card_record \<Rightarrow> jsv" where
  "encCard c = JObj [(''id'', JStr (crId c)), (''topicId'', JStr (crTopicId c)),
     (''level'', jint (crLevel c)), (''dataJson'', JStr (crDataJson c)),
     (''reviewDate'', nullable JNum (crReviewDate c)),
     (''updatedAt'', JNum (crUpdatedAt c)), (''deletedAt'', nullable JNum (crDeletedAt c))]"

definition encMutation :: "mutation \<Rightarrow> jsv" where
  "encMutation m = JObj ([(''opId'', JStr (muOpId m)), (''deviceId'', JStr (muDeviceId m)),
     (''table'', encTable (muTable m)), (''recordId'', JStr (muRecordId m)),
     (''operation'', encOperation (muOperation m)), (''updatedAt'', JNum (muUpdatedAt m))]
     @ optField ''topic'' encTopic (muTopic m) @ optField ''card'' encCard (muCard m))"

definition encSyncRecord :: "sync_record \<Rightarrow> jsv" where
  "encSyncRecord r =
     JObj (optField ''topic'' encTopic (srTopic r) @ optField ''card'' encCard (srCard r))"

definition encHello :: "hello \<Rightarrow> jsv" where
  "encHello h = JObj [(''lastPulledAt'', JStr (heLastPulledAt h)),
     (''pendingOpCount'', jint (hePendingOpCount h)),
     (''protocolVersion'', jint (heProtocolVersion h))]"

definition encHelloAck :: "hello_ack \<Rightarrow> jsv" where
  "encHelloAck h = JObj [(''serverTime'', JNum (haServerTime h)),
     (''missedSince'', JStr (haMissedSince h)), (''sessionId'', JStr (haSessionId h))]"

definition encRejected :: "rejected_op \<Rightarrow> jsv" where
  "encRejected r = JObj [(''opId'', JStr (roOpId r)), (''code'', JStr (roCode r)),
     (''message'', JStr (roMessage r)), (''retryable'', JBool (roRetryable r))]"

definition encConflict :: "topic_conflict \<Rightarrow> jsv" where
  "encConflict c = JObj [(''topicId'', JStr (tcTopicId c)), (''oldTitle'', JStr (tcOldTitle c)),
     (''newTitle'', JStr (tcNewTitle c)), (''reason'', JStr (tcReason c)),
     (''updatedAt'', JNum (tcUpdatedAt c))]"

definition encAck :: "push_ack \<Rightarrow> jsv" where
  "encAck a = JObj [(''acceptedOpIds'', JArr (map JStr (paAcceptedOpIds a))),
     (''rejected'', JArr (map encRejected (paRejected a))),
     (''conflicts'', JArr (map encConflict (paConflicts a)))]"

definition encDelta :: "pull_delta \<Rightarrow> jsv" where
  "encDelta d = JObj [(''records'', JArr (map encSyncRecord (pdRecords d))),
     (''watermark'', JStr (pdWatermark d)), (''more'', JBool (pdMore d))]"

definition encSyncError :: "sync_error \<Rightarrow> jsv" where
  "encSyncError e = JObj [(''code'', JStr (seCode e)), (''message'', JStr (seMessage e)),
     (''retryable'', JBool (seRetryable e))]"

fun payloadKind :: "payload \<Rightarrow> string" where
  "payloadKind (Hello _) = ''hello''"
| "payloadKind (HelloAck _) = ''helloAck''"
| "payloadKind (PushBatch _) = ''pushBatch''"
| "payloadKind (PushAck _) = ''pushAck''"
| "payloadKind (PullDelta _) = ''pullDelta''"
| "payloadKind (PullRequest _) = ''pullRequest''"
| "payloadKind (TopicConflictResolved _) = ''topicConflictResolved''"
| "payloadKind (Ping _) = ''ping''"
| "payloadKind (Pong _) = ''pong''"
| "payloadKind (SyncError _) = ''error''"
| "payloadKind (GracefulClose _) = ''gracefulClose''"

fun encPayload :: "payload \<Rightarrow> jsv" where
  "encPayload (Hello h) = encHello h"
| "encPayload (HelloAck h) = encHelloAck h"
| "encPayload (PushBatch ms) = JObj [(''mutations'', JArr (map encMutation ms))]"
| "encPayload (PushAck a) = encAck a"
| "encPayload (PullDelta d) = encDelta d"
| "encPayload (PullRequest s) = JObj [(''since'', JStr s)]"
| "encPayload (TopicConflictResolved c) = encConflict c"
| "encPayload (Ping t) = JObj [(''timestamp'', JNum t)]"
| "encPayload (Pong t) = JObj [(''timestamp'', JNum t)]"
| "encPayload (SyncError e) = encSyncError e"
| "encPayload (GracefulClose r) = JObj [(''reason'', JStr r)]"

definition encEnvelope :: "envelope \<Rightarrow> jsv" where
  "encEnvelope e = JObj ([(''version'', jint (enVersion e)), (''messageId'', JStr (enMessageId e))]
     @ optField ''correlationId'' JStr (enCorrelationId e)
     @ [(''deviceId'', JStr (enDeviceId e)), (''sentAt'', JNum (enSentAt e))]
     @ optField ''traceId'' JStr (enTraceId e)
     @ [(''kind'', JStr (payloadKind (enPayload e))),
        (payloadKind (enPayload e), encPayload (enPayload e))])"

definition encodeEnvelope :: "host \<Rightarrow> envelope \<Rightarrow> string" where
  "encodeEnvelope H e = jsonStringify H (encEnvelope e)"

text \<open>\<open>decodeEnvelope\<close> takes text or an already parsed value; a parse error is no envelope.\<close>

definition decodeEnvelope :: "host \<Rightarrow> string + jsv \<Rightarrow> envelope option" where
  "decodeEnvelope H input = do {
     v \<leftarrow> (case input of Inl text \<Rightarrow> jsonParse H text | Inr v \<Rightarrow> Some v);
     SyncEnvelopeSchema H v }"

section \<open>Well-formed envelopes\<close>

definition safeInt :: "int \<Rightarrow> bool" where
  "safeInt n \<longleftrightarrow> \<bar>n\<bar> \<le> MAX_SAFE_INTEGER"

definition wf_mutation :: "host \<Rightarrow> mutation \<Rightarrow> bool" where
  "wf_mutation H m \<longleftrightarrow> isUuid H (muOpId m) \<and> isUuid H (muDeviceId m) \<and> isUuid H (muRecordId m)
     \<and> pred_option (\<lambda>t. isUuid H (trId t)) (muTopic m)
     \<and> pred_option (\<lambda>c. isUuid H (crId c) \<and> isUuid H (crTopicId c) \<and> safeInt (crLevel c)) (muCard m)"

definition wf_sync_record :: "sync_record \<Rightarrow> bool" where
  "wf_sync_record r \<longleftrightarrow> pred_option (\<lambda>c. safeInt (crLevel c)) (srCard r)"

fun wf_payload :: "host \<Rightarrow> payload \<Rightarrow> bool" where
  "wf_payload H (Hello h) \<longleftrightarrow> length (heLastPulledAt h) \<le> MAX_CURSOR_LENGTH
     \<and> safeInt (hePendingOpCount h) \<and> safeInt (heProtocolVersion h)"
| "wf_payload H (PushBatch ms) \<longleftrightarrow> length ms \<le> MAX_PUSH_MUTATIONS \<and> list_all (wf_mutation H) ms"
| "wf_payload H (PullDelta d) \<longleftrightarrow> list_all wf_sync_record (pdRecords d)"
| "wf_payload H (PullRequest s) \<longleftrightarrow> length s \<le> MAX_CURSOR_LENGTH"
| "wf_payload H _ \<longleftrightarrow> True"

definition wf_envelope :: "host \<Rightarrow> envelope \<Rightarrow> bool" where
  "wf_envelope H e \<longleftrightarrow> safeInt (enVersion e) \<and> wf_payload H (enPayload e)"

section \<open>Decoding undoes encoding\<close>

named_theorems enc_defs "encoders and schemas of the wire records"

declare encTopic_def [enc_defs] encCard_def [enc_defs] encMutation_def [enc_defs]
  encSyncRecord_def [enc_defs] encHello_def [enc_defs] encHelloAck_def [enc_defs]
  encRejected_def [enc_defs] encConflict_def [enc_defs] encAck_def [enc_defs]
  encDelta_def [enc_defs] encSyncError_def [enc_defs]
  TopicRecordSchema_def [enc_defs] CardRecordSchema_def [enc_defs] MutationSchema_def [enc_defs]
  SyncRecordSchema_def [enc_defs] HelloSchema_def [enc_defs] HelloAckSchema_def [enc_defs]
  PushBatchSchema_def [enc_defs] RejectedOpSchema_def [enc_defs]
  TopicConflictResolvedSchema_def [enc_defs] PushAckSchema_def [enc_defs]
  PullDeltaSchema_def [enc_defs] PullRequestSchema_def [enc_defs] PingSchema_def [enc_defs]
  SyncErrorSchema_def [enc_defs] GracefulCloseSchema_def [enc_defs]

lemma decInt_jint [simp]: "safeInt n \<Longrightarrow> decInt (jint n) = Some n"
  by (simp add: jint_def safeInt_def)

lemma decNullish_nullable [simp]:
  "decNullish decBool (nullable JBool b) = Some b" "decNullish decNum (nullable JNum r) = Some r"
  by (cases b; simp add: nullable_def decNullish_def; fail)
     (cases r; simp add: nullable_def decNullish_def; fail)

lemma decNullish_JNull [simp]: "decNullish f JNull = Some None"
  by (simp add: decNullish_def)

lemma decOptional_JUndef [simp]: "decOptional f JUndef = Some None"
  by (simp add: decOptional_def)

lemma decOptional_value: "v \<noteq> JUndef \<Longrightarrow> f v = Some x \<Longrightarrow> decOptional f v = Some (Some x)"
  by (simp add: decOptional_def)

lemma those_map: "(\<And>x. x \<in> set xs \<Longrightarrow> f (g x) = Some x) \<Longrightarrow> those (map (f \<circ> g) xs) = Some xs"
  by (induction xs) auto

lemma decArr_map: "(\<And>x. x \<in> set xs \<Longrightarrow> f (g x) = Some x) \<Longrightarrow> decArr f (JArr (map g xs)) = Some xs"
  using those_map [of xs f g] by simp

lemma dec_table [simp]: "SyncTableSchema (encTable t) = Some t"
  by (cases t) auto

lemma dec_operation [simp]: "SyncOperationSchema (encOperation t) = Some t"
  by (cases t) auto

lemma dec_clientId [simp]: "isUuid H s \<Longrightarrow> ClientIdSchema H (JStr s) = Some s"
  by (simp add: ClientIdSchema_def decCheck_def)

lemma dec_topic: "idS (JStr (trId t)) = Some (trId t) \<Longrightarrow> TopicRecordSchema idS (encTopic t) = Some t"
  by (simp add: enc_defs)

lemma dec_card:
  "idS (JStr (crId c)) = Some (crId c) \<Longrightarrow> idS (JStr (crTopicId c)) = Some (crTopicId c) \<Longrightarrow>
   safeInt (crLevel c) \<Longrightarrow> CardRecordSchema idS (encCard c) = Some c"
  by (simp add: enc_defs)

lemma enc_not_undef [simp]: "encTopic t \<noteq> JUndef" "encCard c \<noteq> JUndef"
  by (simp_all add: enc_defs)

lemma dec_mutation: "wf_mutation H m \<Longrightarrow> MutationSchema H (encMutation m) = Some m"
  by (cases "muTopic m"; cases "muCard m")
     (simp_all add: wf_mutation_def MutationSchema_def encMutation_def optField_def
       dec_topic dec_card decOptional_value)

lemma dec_sync_record: "wf_sync_record r \<Longrightarrow> SyncRecordSchema (encSyncRecord r) = Some r"
  by (cases "srTopic r"; cases "srCard r")
     (simp_all add: wf_sync_record_def SyncRecordSchema_def encSyncRecord_def optField_def
       dec_topic dec_card decOptional_value)

lemma dec_rejected [simp]: "RejectedOpSchema (encRejected r) = Some r"
  by (simp add: enc_defs)

lemma dec_conflict [simp]: "TopicConflictResolvedSchema (encConflict r) = Some r"
  by (simp add: enc_defs)

lemma dec_ack [simp]: "PushAckSchema (encAck a) = Some a"
  by (simp add: PushAckSchema_def encAck_def decArr_map del: decArr.simps)

lemma dec_delta: "list_all wf_sync_record (pdRecords d) \<Longrightarrow> PullDeltaSchema (encDelta d) = Some d"
  by (simp add: PullDeltaSchema_def encDelta_def decArr_map dec_sync_record list_all_iff
      del: decArr.simps)


lemma decPayload_enc:
  assumes "wf_payload H p" "getProp (payloadKind p) v = encPayload p"
  shows "decPayload H (payloadKind p) v = Some p"
  using assms
  by (cases p)
     (simp_all add: decPayload_def dec_delta decCheck_def decCursor_def HelloSchema_def encHello_def
       HelloAckSchema_def encHelloAck_def PushBatchSchema_def dec_mutation list_all_iff decArr_map
       PullRequestSchema_def PingSchema_def SyncErrorSchema_def encSyncError_def
       GracefulCloseSchema_def del: decArr.simps)

lemma envelope_value_roundtrip: "wf_envelope H e \<Longrightarrow> SyncEnvelopeSchema H (encEnvelope e) = Some e"
proof -
  assume wf: "wf_envelope H e"
  have "decPayload H (payloadKind (enPayload e)) (encEnvelope e) = Some (enPayload e)"
    using wf
    by (intro decPayload_enc)
       (cases "enPayload e"; simp add: wf_envelope_def encEnvelope_def optField_def
          split: option.splits)+
  moreover have "decOptional decStr (getProp ''correlationId'' (encEnvelope e)) = Some (enCorrelationId e)"
    by (cases "enPayload e"; cases "enCorrelationId e"; cases "enTraceId e")
       (simp_all add: encEnvelope_def optField_def decOptional_def)
  moreover have "decOptional decStr (getProp ''traceId'' (encEnvelope e)) = Some (enTraceId e)"
    by (cases "enPayload e"; cases "enCorrelationId e"; cases "enTraceId e")
       (simp_all add: encEnvelope_def optField_def decOptional_def)
  moreover have "isObject (encEnvelope e)"
    "getProp ''version'' (encEnvelope e) = jint (enVersion e)"
    "getProp ''messageId'' (encEnvelope e) = JStr (enMessageId e)"
    "getProp ''deviceId'' (encEnvelope e) = JStr (enDeviceId e)"
    "getProp ''sentAt'' (encEnvelope e) = JNum (enSentAt e)"
    "getProp ''kind'' (encEnvelope e) = JStr (payloadKind (enPayload e))"
    by (simp_all add: encEnvelope_def optField_def split: option.splits)
  ultimately show ?thesis
    using wf by (simp add: SyncEnvelopeSchema_def wf_envelope_def)
qed

section \<open>What a decoded envelope satisfies\<close>

lemma decInt_safe: "decInt v = Some n \<Longrightarrow> safeInt n"
  by (cases v) (auto simp: safeInt_def split: if_splits)

lemma decCheck_Some: "decCheck P f v = Some x \<Longrightarrow> P x"
  by (auto simp: decCheck_def split: option.splits if_splits)

lemma those_list_all:
  "those (map f xs) = Some ys \<Longrightarrow> (\<And>v y. f v = Some y \<Longrightarrow> P y) \<Longrightarrow> list_all P ys"
  by (induction xs arbitrary: ys) (auto split: option.splits)

lemma decArr_list_all: "decArr f v = Some ys \<Longrightarrow> (\<And>v y. f v = Some y \<Longrightarrow> P y) \<Longrightarrow> list_all P ys"
  by (cases v) (auto elim!: those_list_all)

lemma clientId_uuid: "ClientIdSchema H v = Some s \<Longrightarrow> isUuid H s"
  unfolding ClientIdSchema_def by (rule decCheck_Some)

lemma decOptional_pred:
  "decOptional f v = Some x \<Longrightarrow> (\<And>y. f v = Some y \<Longrightarrow> P y) \<Longrightarrow> pred_option P x"
  by (auto simp: decOptional_def split: if_splits)

lemma topic_schema_wf:
  "TopicRecordSchema (ClientIdSchema H) v = Some t \<Longrightarrow> isUuid H (trId t)"
  by (auto simp: TopicRecordSchema_def bind_eq_Some_conv clientId_uuid split: if_splits)

lemma card_schema_wf:
  "CardRecordSchema idS v = Some c \<Longrightarrow> safeInt (crLevel c)"
  "CardRecordSchema (ClientIdSchema H) v = Some c \<Longrightarrow> isUuid H (crId c) \<and> isUuid H (crTopicId c)"
  by (auto simp: CardRecordSchema_def bind_eq_Some_conv clientId_uuid decInt_safe split: if_splits)

lemma mutation_schema_wf: "MutationSchema H v = Some m \<Longrightarrow> wf_mutation H m"
  by (auto simp: MutationSchema_def bind_eq_Some_conv wf_mutation_def split: if_splits
      intro!: decOptional_pred dest: clientId_uuid topic_schema_wf card_schema_wf)

lemma sync_record_schema_wf: "SyncRecordSchema v = Some r \<Longrightarrow> wf_sync_record r"
  by (auto simp: SyncRecordSchema_def bind_eq_Some_conv wf_sync_record_def split: if_splits
      intro!: decOptional_pred dest: card_schema_wf)

lemma push_batch_wf: "PushBatchSchema H v = Some ms \<Longrightarrow> wf_payload H (PushBatch ms)"
  by (auto simp: PushBatchSchema_def decCheck_def split: if_splits option.splits
      intro: decArr_list_all mutation_schema_wf)

lemma pull_delta_wf: "PullDeltaSchema v = Some d \<Longrightarrow> wf_payload H (PullDelta d)"
  by (auto simp: PullDeltaSchema_def bind_eq_Some_conv split: if_splits
      dest: decArr_list_all [OF _ sync_record_schema_wf])

lemma decPayload_wf: "decPayload H k v = Some p \<Longrightarrow> wf_payload H p"
  unfolding decPayload_def
  by (auto split: if_splits dest!: push_batch_wf pull_delta_wf
      simp: HelloSchema_def PullRequestSchema_def bind_eq_Some_conv decCursor_def
      dest: decCheck_Some decInt_safe)

section \<open>The pull cursor (cursor.ts)\<close>

definition INITIAL_CURSOR :: string where
  "INITIAL_CURSOR = ''0''"

definition MAX_SEQ :: int where
  "MAX_SEQ = 2 ^ 63 - 1"

definition isDecimal :: "string \<Rightarrow> bool" where
  "isDecimal s \<longleftrightarrow> s \<noteq> [] \<and> list_all isDigit s"

definition parseCursor :: "string \<Rightarrow> int" where
  "parseCursor value =
     (if \<not> isDecimal value then 0
      else let seq = digitsVal value in if seq > MAX_SEQ then 0 else seq)"

definition cursorFromSeq :: "int \<Rightarrow> string" where
  "cursorFromSeq seq = (if seq < 0 then ''-'' @ natToString (nat (- seq)) else natToString (nat seq))"

definition isCursorAhead :: "string \<Rightarrow> string \<Rightarrow> bool" where
  "isCursorAhead next prev \<longleftrightarrow> parseCursor next > parseCursor prev"

lemma digitsVal_nonneg: "list_all isDigit s \<Longrightarrow> 0 \<le> digitsVal s"
proof (induction s rule: rev_induct)
  case (snoc c s)
  then have "0 \<le> digitVal c" by (simp add: isDigit_iff digitVal_def)
  with snoc show ?case by simp
qed (simp add: digitsVal_def)

lemma parseCursor_range: "0 \<le> parseCursor s \<and> parseCursor s \<le> MAX_SEQ"
  by (auto simp: parseCursor_def Let_def isDecimal_def MAX_SEQ_def digitsVal_nonneg)

lemma parse_cursorFromSeq: "0 \<le> s \<Longrightarrow> s \<le> MAX_SEQ \<Longrightarrow> parseCursor (cursorFromSeq s) = s"
  using natToString_digits [of "nat s"]
  by (simp add: parseCursor_def cursorFromSeq_def isDecimal_def digitsVal_natToString)

lemma cursorFromSeq_short: "0 \<le> s \<Longrightarrow> cursorFromSeq s \<noteq> []"
  using natToString_digits [of "nat s"] by (simp add: cursorFromSeq_def)

lemma parse_initial [simp]: "parseCursor INITIAL_CURSOR = 0"
  by (simp add: parseCursor_def INITIAL_CURSOR_def digitsVal_def digitVal_def)

lemma parse_empty [simp]: "parseCursor [] = 0"
  by (simp add: parseCursor_def isDecimal_def)

section \<open>Properties\<close>

text \<open>
  C1. Encoding then decoding an envelope is the identity on every well-formed envelope, for
  all eleven payload kinds. The hypothesis is the round trip of the host's JSON text codec on
  this one value.
\<close>

theorem envelope_roundtrip:
  assumes "wf_envelope H e"
    and "jsonParse H (jsonStringify H (encEnvelope e)) = Some (encEnvelope e)"
  shows "decodeEnvelope H (Inl (encodeEnvelope H e)) = Some e"
  using assms by (simp add: decodeEnvelope_def encodeEnvelope_def envelope_value_roundtrip)

definition sample_envelope :: envelope where
  "sample_envelope = \<lparr>enVersion = 4, enMessageId = ''m'', enCorrelationId = Some ''c'',
     enDeviceId = ''d'', enSentAt = 5, enTraceId = None,
     enPayload = PushBatch [\<lparr>muOpId = ''o'', muDeviceId = ''d'', muTable = Cards,
       muRecordId = ''r'', muOperation = Upsert, muUpdatedAt = 7, muTopic = None,
       muCard = Some \<lparr>crId = ''r'', crTopicId = ''t'', crLevel = 3, crDataJson = ''{}'',
         crReviewDate = None, crUpdatedAt = 7, crDeletedAt = Some 9\<rparr>\<rparr>]\<rparr>"

definition sample_host :: host where
  "sample_host = \<lparr>isUuid = (\<lambda>s. s \<noteq> []), localeCompare = (\<lambda>a b. 0),
     jsonParse = (\<lambda>s. if s = ''E'' then Some (encEnvelope sample_envelope) else None),
     jsonStringify = (\<lambda>v. ''E''), sha256Hex = (\<lambda>s. replicate 64 CHR ''0'')\<rparr>"

lemma envelope_roundtrip_witness:
  "wf_envelope sample_host sample_envelope \<and>
   decodeEnvelope sample_host (Inl (encodeEnvelope sample_host sample_envelope)) = Some sample_envelope"
proof -
  have wf: "wf_envelope sample_host sample_envelope"
    by (simp add: wf_envelope_def sample_envelope_def sample_host_def safeInt_def wf_mutation_def
        MAX_SAFE_INTEGER_def MAX_PUSH_MUTATIONS_def)
  then show ?thesis
    using envelope_roundtrip [of sample_host sample_envelope] by (simp add: sample_host_def)
qed

text \<open>
  C2. Whatever text or value arrives, an envelope that decodes is well-formed: at most
  \<open>MAX_PUSH_MUTATIONS\<close> mutations with uuid ids, cursors of bounded length, safe integers.
\<close>

theorem decoded_envelope_wf: "decodeEnvelope H i = Some e \<Longrightarrow> wf_envelope H e"
  by (auto simp: decodeEnvelope_def SyncEnvelopeSchema_def wf_envelope_def bind_eq_Some_conv
      split: if_splits dest: decInt_safe decPayload_wf)

lemma decoded_envelope_wf_witness:
  "decodeEnvelope sample_host (Inr (encEnvelope sample_envelope)) = Some sample_envelope
   \<and> wf_envelope sample_host sample_envelope"
proof -
  have "decodeEnvelope sample_host (Inr (encEnvelope sample_envelope)) = Some sample_envelope"
    by (simp add: decodeEnvelope_def envelope_value_roundtrip wf_envelope_def sample_envelope_def
        sample_host_def safeInt_def wf_mutation_def MAX_SAFE_INTEGER_def MAX_PUSH_MUTATIONS_def)
  with decoded_envelope_wf [OF this] show ?thesis by simp
qed

text \<open>
  C3. The text form of a sequence parses back to it, and \<open>isCursorAhead\<close> orders cursors
  exactly as the sequences they name; text that is no cursor is the start.
\<close>

theorem cursor_order:
  assumes "0 \<le> s" "s \<le> MAX_SEQ" "0 \<le> t" "t \<le> MAX_SEQ"
  shows "parseCursor (cursorFromSeq s) = s
    \<and> (isCursorAhead (cursorFromSeq s) (cursorFromSeq t) \<longleftrightarrow> t < s)
    \<and> \<not> isCursorAhead INITIAL_CURSOR (cursorFromSeq s)"
  using assms by (simp add: isCursorAhead_def parse_cursorFromSeq)

lemma cursor_order_witness: "isCursorAhead (cursorFromSeq 10) (cursorFromSeq 9)"
  using cursor_order [of 10 9] by (simp add: MAX_SEQ_def)

end
