(* ===== verification/WireMedia.thy ===== *)
theory WireMedia
  imports Codec
begin

text \<open>
  packages/sync-protocol/src/wire-media.ts: card data on its way to and from the wire. A side
  holds blocks, or (legacy) one media content; \<open>mapCardMedia\<close> rewrites every media content and
  leaves the rest. A content callback takes the state at the start of the side and the state
  so far: the callbacks of one side run under one \<open>Promise.all\<close>, so each looks things up before
  any of them has finished, and they finish in block order. A rejected promise is \<open>Inl\<close>.
\<close>

section \<open>Shapes\<close>

fun strOf :: "jsv \<Rightarrow> string option" where
  "strOf (JStr s) = Some s"
| "strOf _ = None"

text \<open>\<open>isWireMediaRef\<close>, with the reference it recognises.\<close>

definition asWireMediaRef :: "jsv \<Rightarrow> wire_media_ref option" where
  "asWireMediaRef v =
     (if \<not> isObject v then None
      else (case (getProp ''hash'' v, getProp ''type'' v, getProp ''byteLength'' v) of
        (JStr h, JStr ty, JNum n) \<Rightarrow>
          (if isSha256Hex h \<and> isWhole n \<and> 0 < n
           then Some \<lparr>wmHash = h, wmType = ty, wmByteLength = \<lfloor>n\<rfloor>\<rparr> else None)
      | _ \<Rightarrow> None))"

definition isWireMediaRef :: "jsv \<Rightarrow> bool" where
  "isWireMediaRef v \<longleftrightarrow> asWireMediaRef v \<noteq> None"

text \<open>\<open>isLocalMediaBuffer\<close>, with the buffer (identity and bytes) and the type.\<close>

definition asLocalMedia :: "jsv \<Rightarrow> (nat \<times> string \<times> string) option" where
  "asLocalMedia v =
     (if \<not> isObject v then None
      else (case (getProp ''buffer'' v, getProp ''type'' v) of
        (JBuf i bytes, JStr ty) \<Rightarrow> Some (i, bytes, ty)
      | _ \<Rightarrow> None))"

definition isLocalMediaBuffer :: "jsv \<Rightarrow> bool" where
  "isLocalMediaBuffer v \<longleftrightarrow> asLocalMedia v \<noteq> None"

definition isRemoteSrc :: "jsv \<Rightarrow> bool" where
  "isRemoteSrc v \<longleftrightarrow> isObject v \<and> strOf (getProp ''src'' v) \<noteq> None \<and> \<not> hasKey ''buffer'' v"

definition refValue :: "wire_media_ref \<Rightarrow> jsv" where
  "refValue r = JObj [(''hash'', JStr (wmHash r)), (''type'', JStr (wmType r)),
     (''byteLength'', JNum (of_int (wmByteLength r)))]"

definition mediaValue :: "nat \<Rightarrow> string \<Rightarrow> string \<Rightarrow> jsv" where
  "mediaValue i bytes ty = JObj [(''buffer'', JBuf i bytes), (''type'', JStr ty)]"

section \<open>The traversal\<close>

type_synonym 's content_map = "'s \<Rightarrow> 's \<Rightarrow> jsv \<Rightarrow> string + jsv \<times> 's"

definition isMediaBlock :: "jsv \<Rightarrow> bool" where
  "isMediaBlock b \<longleftrightarrow> isObject b
     \<and> (getProp ''type'' b = JStr ''image'' \<or> getProp ''type'' b = JStr ''audio'')"

fun mapBlocks :: "'s content_map \<Rightarrow> 's \<Rightarrow> jsv list \<Rightarrow> 's \<Rightarrow> string + jsv list \<times> 's" where
  "mapBlocks mapMedia entry [] st = Inr ([], st)"
| "mapBlocks mapMedia entry (b # bs) st =
     (if \<not> isMediaBlock b then
        (case mapBlocks mapMedia entry bs st of
           Inl e \<Rightarrow> Inl e
         | Inr (bs', st') \<Rightarrow> Inr (b # bs', st'))
      else
        (case mapMedia entry st (getProp ''content'' b) of
           Inl e \<Rightarrow> Inl e
         | Inr (c, st1) \<Rightarrow>
             (case mapBlocks mapMedia entry bs st1 of
                Inl e \<Rightarrow> Inl e
              | Inr (bs', st') \<Rightarrow> Inr (withProp ''content'' c b # bs', st'))))"

definition isMediaContent :: "jsv \<Rightarrow> bool" where
  "isMediaContent c \<longleftrightarrow> isObject c \<and> (hasKey ''buffer'' c \<or> hasKey ''hash'' c \<or> hasKey ''src'' c)"

definition mapSide :: "'s content_map \<Rightarrow> jsv \<Rightarrow> 's \<Rightarrow> string + jsv \<times> 's" where
  "mapSide mapMedia side st =
     (if \<not> isObject side then Inr (side, st)
      else (case getProp ''blocks'' side of
        JArr bs \<Rightarrow>
          (case mapBlocks mapMedia st bs st of
             Inl e \<Rightarrow> Inl e
           | Inr (bs', st') \<Rightarrow> Inr (withProp ''blocks'' (JArr bs') side, st'))
      | _ \<Rightarrow>
          (if isMediaContent (getProp ''content'' side) then
             (case mapMedia st st (getProp ''content'' side) of
                Inl e \<Rightarrow> Inl e
              | Inr (c, st') \<Rightarrow> Inr (withProp ''content'' c side, st'))
           else Inr (side, st))))"

definition mapCardMedia :: "'s content_map \<Rightarrow> jsv \<Rightarrow> 's \<Rightarrow> string + jsv \<times> 's" where
  "mapCardMedia mapMedia data st =
     (if \<not> isObject data then Inr (data, st)
      else (case mapSide mapMedia (getProp ''front'' data) st of
        Inl e \<Rightarrow> Inl e
      | Inr (front, st1) \<Rightarrow>
          (case mapSide mapMedia (getProp ''back'' data) st1 of
             Inl e \<Rightarrow> Inl e
           | Inr (back, st2) \<Rightarrow>
               Inr (withProp ''back'' back (withProp ''front'' front data), st2))))"

section \<open>To the wire, from the wire, and the references on it\<close>

type_synonym buffer_cache = "(nat \<times> wire_media_ref) list"
type_synonym media_by_hash = "(string \<times> jsv) list"

definition prepareMedia :: "host \<Rightarrow> (buffer_cache \<times> media_by_hash) content_map" where
  "prepareMedia H entry st content =
     (if isRemoteSrc content \<or> isWireMediaRef content then Inr (content, st)
      else (case asLocalMedia content of
        None \<Rightarrow> Inr (content, st)
      | Some (i, bytes, ty) \<Rightarrow>
          (case tbl_get fst i (fst entry) of
             Some (_, cached) \<Rightarrow> Inr (refValue (cached\<lparr>wmType := ty\<rparr>), st)
           | None \<Rightarrow>
               (let ref = \<lparr>wmHash = sha256Hex H bytes, wmType = ty, wmByteLength = int (length bytes)\<rparr>
                in Inr (refValue ref,
                     (tbl_put fst (i, ref) (fst st), tbl_put fst (wmHash ref, content) (snd st)))))))"

definition prepareWireCardData :: "host \<Rightarrow> jsv \<Rightarrow> string + jsv \<times> media_by_hash" where
  "prepareWireCardData H data =
     (case mapCardMedia (prepareMedia H) data ([], []) of
        Inl e \<Rightarrow> Inl e
      | Inr (wire, _, media) \<Rightarrow> Inr (wire, media))"

definition toWireCardData :: "host \<Rightarrow> jsv \<Rightarrow> string + jsv" where
  "toWireCardData H data =
     (case prepareWireCardData H data of Inl e \<Rightarrow> Inl e | Inr (wire, _) \<Rightarrow> Inr wire)"

type_synonym bytes_by_hash = "(string \<times> nat \<times> string) list"

definition restoreMedia :: "bytes_by_hash \<Rightarrow> unit content_map" where
  "restoreMedia bytesByHash entry st content =
     (if isRemoteSrc content \<or> isLocalMediaBuffer content then Inr (content, st)
      else (case asWireMediaRef content of
        None \<Rightarrow> Inr (content, st)
      | Some ref \<Rightarrow>
          (case tbl_get fst (wmHash ref) bytesByHash of
             None \<Rightarrow> Inl (''Missing media bytes for hash '' @ wmHash ref)
           | Some (_, i, bytes) \<Rightarrow> Inr (mediaValue i bytes (wmType ref), st))))"

definition fromWireCardData :: "jsv \<Rightarrow> bytes_by_hash \<Rightarrow> string + jsv" where
  "fromWireCardData data bytesByHash =
     (case mapCardMedia (restoreMedia bytesByHash) data () of
        Inl e \<Rightarrow> Inl e
      | Inr (local, _) \<Rightarrow> Inr local)"

definition collectMedia :: "wire_media_ref list content_map" where
  "collectMedia entry st content =
     (case asWireMediaRef content of
        None \<Rightarrow> Inr (content, st)
      | Some ref \<Rightarrow> Inr (content, tbl_put wmHash ref st))"

definition collectWireMediaRefs :: "jsv \<Rightarrow> wire_media_ref list" where
  "collectWireMediaRefs data =
     (case mapCardMedia collectMedia data [] of Inl _ \<Rightarrow> [] | Inr (_, refs) \<Rightarrow> refs)"

section \<open>Restoring what was prepared\<close>

text \<open>
  A downloaded buffer is a new object: restored data equals the original up to the identity
  of the buffers, which \<open>forgetIds\<close> drops.
\<close>

fun forgetIds :: "jsv \<Rightarrow> jsv" where
  "forgetIds (JArr xs) = JArr (map forgetIds xs)"
| "forgetIds (JObj fs) = JObj (map (\<lambda>f. (fst f, forgetIds (snd f))) fs)"
| "forgetIds (JBuf _ b) = JBuf 0 b"
| "forgetIds v = v"

text \<open>
  Card data as the client stores it, \<open>heap\<close> giving the bytes of each buffer: media contents are
  non-empty local buffers, remote sources, or values that are no media.
\<close>

definition localContent :: "(nat \<Rightarrow> string) \<Rightarrow> jsv \<Rightarrow> bool" where
  "localContent heap c \<longleftrightarrow>
     (case asLocalMedia c of
        Some (i, b, ty) \<Rightarrow> isRemoteSrc c \<or> (c = mediaValue i b ty \<and> b = heap i \<and> b \<noteq> [])
      | None \<Rightarrow> isRemoteSrc c \<or> \<not> isWireMediaRef c)"

definition localBlock :: "(nat \<Rightarrow> string) \<Rightarrow> jsv \<Rightarrow> bool" where
  "localBlock heap b \<longleftrightarrow>
     (isMediaBlock b \<longrightarrow> hasKey ''content'' b \<and> localContent heap (getProp ''content'' b))"

definition localSide :: "(nat \<Rightarrow> string) \<Rightarrow> jsv \<Rightarrow> bool" where
  "localSide heap side \<longleftrightarrow> (case getProp ''blocks'' side of
      JArr bs \<Rightarrow> list_all (localBlock heap) bs
    | _ \<Rightarrow> isMediaContent (getProp ''content'' side) \<longrightarrow> localContent heap (getProp ''content'' side))"

definition localCard :: "(nat \<Rightarrow> string) \<Rightarrow> jsv \<Rightarrow> bool" where
  "localCard heap data \<longleftrightarrow> hasKey ''front'' data \<and> hasKey ''back'' data
     \<and> localSide heap (getProp ''front'' data) \<and> localSide heap (getProp ''back'' data)"

text \<open>The bytes a device can fetch: for each hash of \<open>K\<close> that names a buffer, its bytes.\<close>

definition fetched :: "host \<Rightarrow> (nat \<Rightarrow> string) \<Rightarrow> string set \<Rightarrow> bytes_by_hash \<Rightarrow> bool" where
  "fetched H heap K bytes \<longleftrightarrow> (\<forall>i. sha256Hex H (heap i) \<in> K \<longrightarrow>
     (\<exists>h j. tbl_get fst (sha256Hex H (heap i)) bytes = Some (h, j, heap i)))"

lemma fetched_mono: "fetched H heap K bytes \<Longrightarrow> K' \<subseteq> K \<Longrightarrow> fetched H heap K' bytes"
  by (auto simp: fetched_def)

definition cacheInv :: "host \<Rightarrow> (nat \<Rightarrow> string) \<Rightarrow> buffer_cache \<times> media_by_hash \<Rightarrow> bool" where
  "cacheInv H heap st \<longleftrightarrow> (\<forall>(i, ref) \<in> set (fst st).
     wmHash ref = sha256Hex H (heap i) \<and> wmByteLength ref = int (length (heap i))
     \<and> wmHash ref \<in> fst ` set (snd st))"

lemma tbl_put_same: "tbl_get fst k fs = Some (k, v) \<Longrightarrow> tbl_put fst (k, v) fs = fs"
  by (induction fs) (auto split: if_splits)

lemma tbl_get_hit: "k \<in> fst ` set fs \<Longrightarrow> \<exists>v. tbl_get fst k fs = Some (k, v)"
  by (induction fs) auto

lemma withProp_same: "hasKey k x \<Longrightarrow> getProp k x = v \<Longrightarrow> withProp k v x = x"
proof (cases x)
  case (JObj fs)
  assume "hasKey k x" "getProp k x = v"
  with JObj show ?thesis using tbl_get_hit [of k fs] by (auto simp: tbl_put_same)
qed auto

lemma withProp_twice: "hasKey k x \<Longrightarrow> withProp k w (withProp k v x) = withProp k w x"
proof -
  have "tbl_put fst (k, w) (tbl_put fst (k, v) fs) = tbl_put fst (k, w) fs" for fs :: "(string \<times> jsv) list"
    by (induction fs) auto
  then show "hasKey k x \<Longrightarrow> ?thesis" by (cases x) auto
qed

lemma forget_withProp: "isObject x \<Longrightarrow> hasKey k x \<Longrightarrow> forgetIds (withProp k v x) = withProp k (forgetIds v) (forgetIds x)"
proof -
  have "map (\<lambda>f. (fst f, forgetIds (snd f))) (tbl_put fst (k, v) fs)
      = tbl_put fst (k, forgetIds v) (map (\<lambda>f. (fst f, forgetIds (snd f))) fs)" for fs
    by (induction fs) auto
  then show "isObject x \<Longrightarrow> hasKey k x \<Longrightarrow> ?thesis" by (cases x) auto
qed

lemma forget_replaced:
  assumes "hasKey k x" "forgetIds w = forgetIds (getProp k x)"
  shows "forgetIds (withProp k w (withProp k v x)) = forgetIds x"
proof -
  have "isObject x" using assms(1) by (cases x) auto
  then have "forgetIds (withProp k w (withProp k v x)) = forgetIds (withProp k (getProp k x) x)"
    using assms by (simp add: withProp_twice forget_withProp)
  then show ?thesis using assms(1) by (simp add: withProp_same)
qed

abbreviation uploads :: "buffer_cache \<times> media_by_hash \<Rightarrow> string set" where
  "uploads st \<equiv> fst ` set (snd st)"

definition restoresTo :: "host \<Rightarrow> (nat \<Rightarrow> string) \<Rightarrow> string set \<Rightarrow> (bytes_by_hash \<Rightarrow> string + jsv \<times> unit) \<Rightarrow> jsv \<Rightarrow> bool" where
  "restoresTo H heap K run v \<longleftrightarrow> (\<forall>bytes. fetched H heap K bytes \<longrightarrow>
     (\<exists>v'. run bytes = Inr (v', ()) \<and> forgetIds v' = forgetIds v))"

lemma asWireMediaRef_refValue:
  "isSha256Hex (wmHash r) \<Longrightarrow> 0 < wmByteLength r \<Longrightarrow> asWireMediaRef (refValue r) = Some r"
  by (simp add: asWireMediaRef_def refValue_def)

lemma refValue_shapes: "\<not> isRemoteSrc (refValue r)" "\<not> isLocalMediaBuffer (refValue r)"
  by (simp_all add: isRemoteSrc_def isLocalMediaBuffer_def asLocalMedia_def refValue_def)

lemma refValue_media: "isMediaContent (refValue r)"
  by (simp add: isMediaContent_def refValue_def)

lemma mediaValue_shapes:
  "\<not> isRemoteSrc (mediaValue i b ty)" "\<not> isWireMediaRef (mediaValue i b ty)"
  "asLocalMedia (mediaValue i b ty) = Some (i, b, ty)"
  by (simp_all add: isRemoteSrc_def isWireMediaRef_def asWireMediaRef_def asLocalMedia_def mediaValue_def)

lemma restore_ref:
  assumes "\<And>b. isSha256Hex (sha256Hex H b)" "heap i \<noteq> []"
    and "wmHash r = sha256Hex H (heap i)" "wmByteLength r = int (length (heap i))" "wmType r = ty"
    and "wmHash r \<in> K"
  shows "restoresTo H heap K (\<lambda>bytes. restoreMedia bytes () () (refValue r)) (mediaValue j (heap i) ty)"
proof -
  have "asWireMediaRef (refValue r) = Some r" using assms(1-4) by (simp add: asWireMediaRef_refValue)
  then show ?thesis
    using assms(3,5,6) unfolding restoresTo_def fetched_def
    by (auto simp: restoreMedia_def refValue_shapes mediaValue_def split: option.splits)
qed

lemma cacheInv_put:
  assumes "cacheInv H heap st" "wmHash r = sha256Hex H (heap i)" "wmByteLength r = int (length (heap i))"
  shows "cacheInv H heap (tbl_put fst (i, r) (fst st), tbl_put fst (sha256Hex H (heap i), c) (snd st))"
proof -
  have "(j, q) \<in> set (tbl_put fst (i, r) (fst st)) \<Longrightarrow> (j, q) = (i, r) \<or> (j, q) \<in> set (fst st)" for j q
    using set_tbl_put_subset by fastforce
  with assms show ?thesis unfolding cacheInv_def by (fastforce simp: keys_tbl_put)
qed

lemma prepare_content:
  assumes hex: "\<And>b. isSha256Hex (sha256Hex H b)" and loc: "localContent heap c"
    and inv: "cacheInv H heap entry" "cacheInv H heap st" and sub: "uploads entry \<subseteq> uploads st"
  shows "\<exists>c' st'. prepareMedia H entry st c = Inr (c', st') \<and> cacheInv H heap st' \<and> uploads st \<subseteq> uploads st'
    \<and> (isMediaContent c \<longrightarrow> isMediaContent c')
    \<and> restoresTo H heap (uploads st') (\<lambda>bytes. restoreMedia bytes () () c') c"
proof (cases "isRemoteSrc c \<or> asLocalMedia c = None")
  case True
  then have p: "prepareMedia H entry st c = Inr (c, st)"
    by (auto simp: prepareMedia_def split: option.splits)
  have "isRemoteSrc c \<or> asWireMediaRef c = None"
    using True loc by (auto simp: localContent_def isWireMediaRef_def)
  then have "restoreMedia bytes () () c = Inr (c, ())" for bytes
    by (auto simp: restoreMedia_def)
  with p inv show ?thesis by (auto simp: restoresTo_def)
next
  case False
  then obtain i b ty where a: "asLocalMedia c = Some (i, b, ty)" "\<not> isRemoteSrc c" by auto
  with loc have c: "c = mediaValue i (heap i) ty" "b = heap i" "heap i \<noteq> []" by (auto simp: localContent_def)
  show ?thesis
  proof (cases "tbl_get fst i (fst entry)")
    case None
    then show ?thesis
      using a c inv(2) mediaValue_shapes
      by (auto simp: prepareMedia_def Let_def keys_tbl_put refValue_media intro!: cacheInv_put
          restore_ref [OF hex])
  next
    case (Some e)
    then obtain r where e: "e = (i, r)" "(i, r) \<in> set (fst entry)"
      using tbl_get_key [OF Some] tbl_get_in [OF Some] by (cases e) auto
    with inv(1) sub have "wmHash r = sha256Hex H (heap i)" "wmByteLength r = int (length (heap i))"
      "wmHash r \<in> uploads st" by (auto simp: cacheInv_def)
    then have "restoresTo H heap (uploads st)
        (\<lambda>bytes. restoreMedia bytes () () (refValue (r\<lparr>wmType := ty\<rparr>))) c"
      unfolding c(1) using c(3) by (intro restore_ref [OF hex]) auto
    with Some e a c inv(2) mediaValue_shapes show ?thesis
      by (auto simp: prepareMedia_def refValue_media)
  qed
qed

lemma restores_mono: "restoresTo H heap K run v \<Longrightarrow> K \<subseteq> K' \<Longrightarrow> restoresTo H heap K' run v"
  unfolding restoresTo_def using fetched_mono by blast

lemma prepare_blocks:
  assumes hex: "\<And>b. isSha256Hex (sha256Hex H b)" and entry: "cacheInv H heap entry"
  shows "list_all (localBlock heap) bs \<Longrightarrow> cacheInv H heap st \<Longrightarrow> uploads entry \<subseteq> uploads st \<Longrightarrow>
    \<exists>bs' st'. mapBlocks (prepareMedia H) entry bs st = Inr (bs', st') \<and> cacheInv H heap st'
      \<and> uploads st \<subseteq> uploads st' \<and> (\<forall>bytes. fetched H heap (uploads st') bytes \<longrightarrow>
          (\<exists>bs''. mapBlocks (restoreMedia bytes) () bs' () = Inr (bs'', ())
            \<and> map forgetIds bs'' = map forgetIds bs))"
proof (induction bs arbitrary: st)
  case (Cons b bs)
  show ?case
  proof (cases "isMediaBlock b")
    case False
    from Cons.IH [OF _ Cons.prems(2,3)] Cons.prems(1)
    obtain bs' st' where t: "mapBlocks (prepareMedia H) entry bs st = Inr (bs', st')"
      "cacheInv H heap st'" "uploads st \<subseteq> uploads st'"
      and r: "\<And>bytes. fetched H heap (uploads st') bytes \<Longrightarrow>
          \<exists>bs''. mapBlocks (restoreMedia bytes) () bs' () = Inr (bs'', ())
            \<and> map forgetIds bs'' = map forgetIds bs" by auto
    show ?thesis
      by (rule exI [of _ "b # bs'"], rule exI [of _ st']) (use False t r in fastforce)
  next
    case True
    with Cons.prems have k: "hasKey ''content'' b" "localContent heap (getProp ''content'' b)"
      by (auto simp: localBlock_def)
    from True have ob: "isObject b" by (simp add: isMediaBlock_def)
    obtain c' st1 where c: "prepareMedia H entry st (getProp ''content'' b) = Inr (c', st1)"
      "cacheInv H heap st1" "uploads st \<subseteq> uploads st1"
      "restoresTo H heap (uploads st1) (\<lambda>bytes. restoreMedia bytes () () c') (getProp ''content'' b)"
      using prepare_content [OF hex k(2) entry Cons.prems(2,3)] by blast
    from Cons.IH [OF _ c(2) order_trans [OF Cons.prems(3) c(3)]] Cons.prems(1)
    obtain bs' st' where t: "mapBlocks (prepareMedia H) entry bs st1 = Inr (bs', st')"
      "cacheInv H heap st'" "uploads st1 \<subseteq> uploads st'"
      and r: "\<And>bytes. fetched H heap (uploads st') bytes \<Longrightarrow>
          \<exists>bs''. mapBlocks (restoreMedia bytes) () bs' () = Inr (bs'', ())
            \<and> map forgetIds bs'' = map forgetIds bs"
      by auto
    have m: "isMediaBlock (withProp ''content'' c' b)"
      using True ob by (simp add: isMediaBlock_def)
    have R: "\<exists>bs''. mapBlocks (restoreMedia bytes) () (withProp ''content'' c' b # bs') () = Inr (bs'', ())
        \<and> map forgetIds bs'' = map forgetIds (b # bs)"
      if f: "fetched H heap (uploads st') bytes" for bytes
    proof -
      from f c(4) t(3) obtain w where w: "restoreMedia bytes () () c' = Inr (w, ())"
        "forgetIds w = forgetIds (getProp ''content'' b)"
        by (meson restoresTo_def fetched_mono)
      from r [OF f] obtain bs'' where "mapBlocks (restoreMedia bytes) () bs' () = Inr (bs'', ())"
        "map forgetIds bs'' = map forgetIds bs" by blast
      with w m ob k(1) show ?thesis by (simp add: forget_replaced)
    qed
    have "mapBlocks (prepareMedia H) entry (b # bs) st = Inr (withProp ''content'' c' b # bs', st')"
      using True c(1) t(1) by simp
    moreover have "uploads st \<subseteq> uploads st'" using c(3) t(3) by (rule order_trans)
    ultimately show ?thesis using t(2) R by blast
  qed
qed auto

lemma prepare_side:
  assumes hex: "\<And>b. isSha256Hex (sha256Hex H b)" and inv: "cacheInv H heap st" and loc: "localSide heap side"
  shows "\<exists>side' st'. mapSide (prepareMedia H) side st = Inr (side', st') \<and> cacheInv H heap st'
    \<and> uploads st \<subseteq> uploads st'
    \<and> restoresTo H heap (uploads st') (\<lambda>bytes. mapSide (restoreMedia bytes) side' ()) side"
proof (cases "isObject side")
  case False
  with inv show ?thesis by (simp add: mapSide_def restoresTo_def)
next
  case ob: True
  show ?thesis
  proof (cases "\<exists>bs. getProp ''blocks'' side = JArr bs")
    case True
    then obtain bs where bs: "getProp ''blocks'' side = JArr bs" ..
    then have k: "hasKey ''blocks'' side" by (simp add: getProp_hasKey)
    from bs loc have "list_all (localBlock heap) bs" by (simp add: localSide_def)
    from prepare_blocks [OF hex inv this inv order_refl]
    obtain bs' st' where "mapBlocks (prepareMedia H) st bs st = Inr (bs', st')"
      "cacheInv H heap st'" "uploads st \<subseteq> uploads st'"
      and r: "\<And>bytes. fetched H heap (uploads st') bytes \<Longrightarrow>
          \<exists>bs''. mapBlocks (restoreMedia bytes) () bs' () = Inr (bs'', ())
            \<and> map forgetIds bs'' = map forgetIds bs" by blast
    then show ?thesis using ob bs k
      by (fastforce simp: mapSide_def restoresTo_def forget_replaced)
  next
    case nb: False
    show ?thesis
    proof (cases "isMediaContent (getProp ''content'' side)")
      case False
      from False nb have "mapSide f side x = Inr (side, x)" for f :: "unit content_map" and x
        by (auto simp: mapSide_def split: jsv.splits)
      moreover from False nb have "mapSide (prepareMedia H) side st = Inr (side, st)"
        by (auto simp: mapSide_def split: jsv.splits)
      ultimately show ?thesis using inv by (simp add: restoresTo_def)
    next
      case True
      then have k: "hasKey ''content'' side"
        by (auto simp: isMediaContent_def intro!: getProp_hasKey)
      from True nb loc have "localContent heap (getProp ''content'' side)"
        by (auto simp: localSide_def split: jsv.splits)
      from prepare_content [OF hex this inv inv order_refl] True
      obtain c' st' where c: "prepareMedia H st st (getProp ''content'' side) = Inr (c', st')"
        "cacheInv H heap st'" "uploads st \<subseteq> uploads st'" "isMediaContent c'"
        "restoresTo H heap (uploads st') (\<lambda>bytes. restoreMedia bytes () () c') (getProp ''content'' side)"
        by blast
      have "mapSide (prepareMedia H) side st = Inr (withProp ''content'' c' side, st')"
        using ob nb True c(1) by (auto simp: mapSide_def split: jsv.splits)
      moreover have "restoresTo H heap (uploads st')
          (\<lambda>bytes. mapSide (restoreMedia bytes) (withProp ''content'' c' side) ()) side"
        unfolding restoresTo_def
      proof (intro allI impI)
        fix bytes assume "fetched H heap (uploads st') bytes"
        then obtain w where w: "restoreMedia bytes () () c' = Inr (w, ())"
          "forgetIds w = forgetIds (getProp ''content'' side)"
          using c(5) by (auto simp: restoresTo_def)
        have "mapSide (restoreMedia bytes) (withProp ''content'' c' side) ()
            = Inr (withProp ''content'' w (withProp ''content'' c' side), ())"
          using ob nb c(4) w(1) by (auto simp: mapSide_def split: jsv.splits)
        with w(2) k show "\<exists>v'. mapSide (restoreMedia bytes) (withProp ''content'' c' side) () = Inr (v', ())
            \<and> forgetIds v' = forgetIds side"
          by (simp add: forget_replaced)
      qed
      ultimately show ?thesis using c(2,3) by blast
    qed
  qed
qed

lemma tbl_put_comm:
  "key r \<in> key ` set xs \<Longrightarrow> key q \<in> key ` set xs \<Longrightarrow> key r \<noteq> key q \<Longrightarrow>
   tbl_put key r (tbl_put key q xs) = tbl_put key q (tbl_put key r xs)"
proof (induction xs)
  case (Cons x xs)
  have r: "key r \<notin> key ` set xs \<Longrightarrow> key x \<noteq> key r \<Longrightarrow> False" using Cons.prems by auto
  have q: "key q \<notin> key ` set xs \<Longrightarrow> key x \<noteq> key q \<Longrightarrow> False" using Cons.prems by auto
  show ?case using Cons r q by (cases "key x = key r"; cases "key x = key q") auto
qed simp

lemma withProp_swap:
  assumes "hasKey j x" "hasKey k x" "j \<noteq> k"
  shows "withProp j v (withProp k w x) = withProp k w (withProp j v x)"
proof -
  have "j \<in> fst ` set fs \<Longrightarrow> k \<in> fst ` set fs \<Longrightarrow>
      tbl_put fst (j, v) (tbl_put fst (k, w) fs) = tbl_put fst (k, w) (tbl_put fst (j, v) fs)"
    for fs :: "(string \<times> jsv) list"
    using assms(3) tbl_put_comm [of fst "(j, v)" fs "(k, w)"] by simp
  with assms show ?thesis by (cases x) auto
qed

lemma prepare_card:
  assumes hex: "\<And>b. isSha256Hex (sha256Hex H b)" and loc: "localCard heap data"
  shows "\<exists>wire st. mapCardMedia (prepareMedia H) data ([], []) = Inr (wire, st)
    \<and> restoresTo H heap (uploads st) (\<lambda>bytes. mapCardMedia (restoreMedia bytes) wire ()) data"
proof -
  let ?fside = "getProp ''front'' data" and ?bside = "getProp ''back'' data"
  from loc have k: "hasKey ''front'' data" "hasKey ''back'' data" "localSide heap ?fside" "localSide heap ?bside"
    by (auto simp: localCard_def)
  then have ob: "isObject data" by (cases data) auto
  have "cacheInv H heap ([], [])" by (simp add: cacheInv_def)
  from prepare_side [OF hex this k(3)] obtain fr st1
    where f: "mapSide (prepareMedia H) ?fside ([], []) = Inr (fr, st1)" "cacheInv H heap st1"
      "restoresTo H heap (uploads st1) (\<lambda>bytes. mapSide (restoreMedia bytes) fr ()) ?fside" by blast
  from prepare_side [OF hex f(2) k(4)] obtain bk st2
    where b: "mapSide (prepareMedia H) ?bside st1 = Inr (bk, st2)" "uploads st1 \<subseteq> uploads st2"
      "restoresTo H heap (uploads st2) (\<lambda>bytes. mapSide (restoreMedia bytes) bk ()) ?bside" by blast
  let ?wire = "withProp ''back'' bk (withProp ''front'' fr data)"
  have "restoresTo H heap (uploads st2) (\<lambda>bytes. mapCardMedia (restoreMedia bytes) ?wire ()) data"
    unfolding restoresTo_def
  proof (intro allI impI)
    fix bytes assume ft: "fetched H heap (uploads st2) bytes"
    from f(3) fetched_mono [OF ft b(2)] obtain u where u: "mapSide (restoreMedia bytes) fr () = Inr (u, ())"
      "forgetIds u = forgetIds ?fside" by (auto simp: restoresTo_def)
    from b(3) ft obtain v where v: "mapSide (restoreMedia bytes) bk () = Inr (v, ())"
      "forgetIds v = forgetIds ?bside" by (auto simp: restoresTo_def)
    have run: "mapCardMedia (restoreMedia bytes) ?wire ()
        = Inr (withProp ''back'' v (withProp ''front'' u ?wire), ())"
      using ob u(1) v(1) by (simp add: mapCardMedia_def)
    have "forgetIds (withProp ''back'' v (withProp ''front'' u ?wire)) = forgetIds data"
      using k ob u(2) v(2)
      by (simp add: withProp_swap [of "''front''" _ "''back''"] forget_replaced)
    with run show "\<exists>v'. mapCardMedia (restoreMedia bytes) ?wire () = Inr (v', ()) \<and> forgetIds v' = forgetIds data"
      by blast
  qed
  with f(1) b(1) ob show ?thesis by (auto simp: mapCardMedia_def)
qed

section \<open>Properties\<close>

text \<open>
  C12. A card that goes to the wire on one device and comes back on another is the same card:
  preparing never fails, every hash the wire form needs is among the uploads, and restoring
  with the uploaded bytes gives the original data up to the identity of its buffers.
\<close>

theorem wire_media_roundtrip:
  assumes "\<And>b. isSha256Hex (sha256Hex H b)" and "localCard heap data"
  shows "\<exists>wire media. prepareWireCardData H data = Inr (wire, media)
    \<and> (\<forall>bytes. fetched H heap (fst ` set media) bytes \<longrightarrow>
        (\<exists>data'. fromWireCardData wire bytes = Inr data' \<and> forgetIds data' = forgetIds data))"
proof -
  from prepare_card [OF assms] obtain wire cache media
    where w: "mapCardMedia (prepareMedia H) data ([], []) = Inr (wire, cache, media)"
      "restoresTo H heap (fst ` set media) (\<lambda>bytes. mapCardMedia (restoreMedia bytes) wire ()) data"
    by fastforce
  then show ?thesis
    by (fastforce simp: restoresTo_def prepareWireCardData_def fromWireCardData_def)
qed

definition sample_card :: jsv where
  "sample_card = JObj [(''front'', JObj [(''blocks'', JArr [
       JObj [(''type'', JStr ''image''), (''content'', mediaValue 3 ''xyz'' ''image/png'')],
       JObj [(''type'', JStr ''text''), (''content'', JStr ''hi'')]])]),
     (''back'', JObj [(''content'', mediaValue 3 ''xyz'' ''image/gif'')])]"

lemma wire_media_roundtrip_witness:
  "\<exists>wire media data'. prepareWireCardData sample_host sample_card = Inr (wire, media)
    \<and> fromWireCardData wire [(replicate 64 CHR ''0'', 8, ''xyz'')] = Inr data'
    \<and> forgetIds data' = forgetIds sample_card"
proof -
  have hex: "isSha256Hex (sha256Hex sample_host b)" for b
    by (simp add: isSha256Hex_def sample_host_def isHexLower_def isDigit_def list_all_iff)
  have card: "localCard (\<lambda>_. ''xyz'') sample_card"
    by (simp add: localCard_def sample_card_def localSide_def localBlock_def isMediaBlock_def
        localContent_def mediaValue_shapes)
  have "fetched sample_host (\<lambda>_. ''xyz'') (fst ` set media) [(replicate 64 CHR ''0'', 8, ''xyz'')]" for media :: media_by_hash
    by (simp add: fetched_def sample_host_def)
  with wire_media_roundtrip [OF hex card] show ?thesis by blast
qed

end
