(* ===== verification/MutationValidation.thy ===== *)
theory MutationValidation
  imports Protocol "HOL-Library.Multiset"
begin

text \<open>
  apps/server/src/sync/mutation-validation.ts and the clock clamp of seq.ts: what the server
  checks and adjusts before a mutation reaches the apply transaction. The checks are \<open>None\<close>
  for a well-formed mutation and \<open>Some\<close> message otherwise.
\<close>

section \<open>The clock clamp (seq.ts)\<close>

definition MAX_FUTURE_SKEW_MS :: int where
  "MAX_FUTURE_SKEW_MS = 5 * 60 * 1000"

definition clampFutureTime :: "rat \<Rightarrow> ms \<Rightarrow> rat" where
  "clampFutureTime t now = min t (of_int (now + MAX_FUTURE_SKEW_MS))"

definition clampTopic :: "topic_record \<Rightarrow> ms \<Rightarrow> topic_record" where
  "clampTopic t now = t\<lparr>trUpdatedAt := clampFutureTime (trUpdatedAt t) now,
     trDeletedAt := map_option (\<lambda>d. clampFutureTime d now) (trDeletedAt t)\<rparr>"

definition clampCard :: "card_record \<Rightarrow> ms \<Rightarrow> card_record" where
  "clampCard c now = c\<lparr>crUpdatedAt := clampFutureTime (crUpdatedAt c) now,
     crDeletedAt := map_option (\<lambda>d. clampFutureTime d now) (crDeletedAt c)\<rparr>"

definition clampMutationTimes :: "mutation \<Rightarrow> ms \<Rightarrow> mutation" where
  "clampMutationTimes m now = m\<lparr>muUpdatedAt := clampFutureTime (muUpdatedAt m) now,
     muTopic := map_option (\<lambda>t. clampTopic t now) (muTopic m),
     muCard := map_option (\<lambda>c. clampCard c now) (muCard m)\<rparr>"

section \<open>Checks\<close>

definition INT32_MAX :: int where
  "INT32_MAX = 2147483647"

definition INT32_MIN :: int where
  "INT32_MIN = -2147483648"

text \<open>\<open>Number.isFinite(new Date(ms).getTime())\<close>: the time value of a Date is bounded.\<close>

definition isValidDate :: "rat \<Rightarrow> bool" where
  "isValidDate t \<longleftrightarrow> \<bar>t\<bar> \<le> 8640000000000000"

definition isBigIntSafe :: "rat \<Rightarrow> bool" where
  "isBigIntSafe r \<longleftrightarrow> isWhole r \<and> \<bar>\<lfloor>r\<rfloor>\<bar> \<le> MAX_SAFE_INTEGER"

fun startsWith :: "string \<Rightarrow> string \<Rightarrow> bool" where
  "startsWith [] s = True"
| "startsWith (c # cs) [] = False"
| "startsWith (c # cs) (d # ds) = (c = d \<and> startsWith cs ds)"

fun includesText :: "string \<Rightarrow> string \<Rightarrow> bool" where
  "includesText pat [] = (pat = [])"
| "includesText pat (c # cs) = (startsWith pat (c # cs) \<or> includesText pat cs)"

definition hasNul :: "string \<Rightarrow> bool" where
  "hasNul text \<longleftrightarrow> includesText [CHR 0x00] text
     \<or> includesText (CHR 0x5C # ''u0000'') text"

definition isParseableJson :: "host \<Rightarrow> string \<Rightarrow> bool" where
  "isParseableJson H text \<longleftrightarrow> jsonParse H text \<noteq> None"

definition timeProblem :: "string \<Rightarrow> rat option \<Rightarrow> string option" where
  "timeProblem label t = (case t of
     None \<Rightarrow> None
   | Some r \<Rightarrow> if isValidDate r then None else Some (label @ '' is not a valid time''))"

text \<open>\<open>a ?? b\<close>.\<close>

definition orProblem :: "string option \<Rightarrow> string option \<Rightarrow> string option" where
  "orProblem a b = (case a of Some x \<Rightarrow> Some x | None \<Rightarrow> b)"

lemma orProblem_None [simp]: "orProblem a b = None \<longleftrightarrow> a = None \<and> b = None"
  by (simp add: orProblem_def split: option.splits)

lemma timeProblem_None [simp]: "timeProblem l t = None \<longleftrightarrow> pred_option isValidDate t"
  by (simp add: timeProblem_def split: option.splits)

definition topicProblem :: "host \<Rightarrow> topic_record \<Rightarrow> string option" where
  "topicProblem H t =
     (if hasNul (trTitle t) then Some ''Topic title contains a NUL character''
      else if \<not> isParseableJson H (trWeekJson t) \<or> hasNul (trWeekJson t) then
        Some ''Topic weekJson is not storable JSON''
      else if \<not> isBigIntSafe (trPivot t) \<or> \<not> isBigIntSafe (trNextUpdateDate t) then
        Some ''Topic pivot and nextUpdateDate must be whole numbers''
      else orProblem (timeProblem ''Topic updatedAt'' (Some (trUpdatedAt t)))
             (timeProblem ''Topic deletedAt'' (trDeletedAt t)))"

definition cardProblem :: "host \<Rightarrow> card_record \<Rightarrow> string option" where
  "cardProblem H c =
     (if \<not> isParseableJson H (crDataJson c) \<or> hasNul (crDataJson c) then
        Some ''Card dataJson is not storable JSON''
      else if crLevel c < INT32_MIN \<or> crLevel c > INT32_MAX then
        Some ''Card level must be a 32-bit integer''
      else if (case crReviewDate c of None \<Rightarrow> False | Some r \<Rightarrow> \<not> isBigIntSafe r) then
        Some ''Card reviewDate must be a whole number''
      else orProblem (timeProblem ''Card updatedAt'' (Some (crUpdatedAt c)))
             (timeProblem ''Card deletedAt'' (crDeletedAt c)))"

definition upsertProblem :: "host \<Rightarrow> mutation \<Rightarrow> string option" where
  "upsertProblem H m =
     (case muTable m of
        Topics \<Rightarrow>
          (case muTopic m of
             None \<Rightarrow> Some ''Topic upsert missing payload''
           | Some t \<Rightarrow>
               if trId t \<noteq> muRecordId m then Some ''Topic payload id does not match recordId''
               else topicProblem H t)
      | Cards \<Rightarrow>
          (case muCard m of
             None \<Rightarrow> Some ''Card upsert missing payload''
           | Some c \<Rightarrow>
               if crId c \<noteq> muRecordId m then Some ''Card payload id does not match recordId''
               else cardProblem H c))"

definition mutationProblem :: "host \<Rightarrow> mutation \<Rightarrow> string option" where
  "mutationProblem H m =
     orProblem (timeProblem ''updatedAt'' (Some (muUpdatedAt m)))
       (if muOperation m = Upsert then upsertProblem H m else None)"

fun partitionMalformed :: "host \<Rightarrow> mutation list \<Rightarrow> mutation list \<times> rejected_op list" where
  "partitionMalformed H [] = ([], [])"
| "partitionMalformed H (m # ms) =
     (let (valid, rejected) = partitionMalformed H ms in
      (case mutationProblem H m of
         None \<Rightarrow> (m # valid, rejected)
       | Some problem \<Rightarrow>
           (valid, \<lparr>roOpId = muOpId m, roCode = ''VALIDATION_ERROR'', roMessage = problem,
             roRetryable = False\<rparr> # rejected)))"

section \<open>Facts\<close>

lemma clampFutureTime_le: "clampFutureTime t now \<le> of_int (now + MAX_FUTURE_SKEW_MS)"
  by (simp add: clampFutureTime_def)

lemma jsTrunc_clamp: "jsTrunc (clampFutureTime t now) \<le> now + MAX_FUTURE_SKEW_MS"
  using jsTrunc_mono [OF clampFutureTime_le, of t now] by (simp only: jsTrunc_of_int)

lemma clamp_fields [simp]:
  "muOpId (clampMutationTimes m now) = muOpId m" "muDeviceId (clampMutationTimes m now) = muDeviceId m"
  "muTable (clampMutationTimes m now) = muTable m" "muRecordId (clampMutationTimes m now) = muRecordId m"
  "muOperation (clampMutationTimes m now) = muOperation m"
  by (simp_all add: clampMutationTimes_def)

lemma partition_valid: "fst (partitionMalformed H ms) = filter (\<lambda>m. mutationProblem H m = None) ms"
  by (induction ms) (auto simp: Let_def case_prod_beta split: option.splits)

lemma partition_ops:
  "mset (map muOpId (fst (partitionMalformed H ms))) + mset (map roOpId (snd (partitionMalformed H ms)))
   = mset (map muOpId ms)"
  by (induction ms) (auto simp: Let_def case_prod_beta split: option.splits)

lemma partition_final: "r \<in> set (snd (partitionMalformed H ms)) \<Longrightarrow>
   roCode r = ''VALIDATION_ERROR'' \<and> \<not> roRetryable r"
  by (induction ms) (auto simp: Let_def case_prod_beta split: option.splits)

lemma valid_topic:
  "topicProblem H t = None \<Longrightarrow> jsonParse H (trWeekJson t) \<noteq> None \<and> isWhole (trPivot t)
     \<and> isWhole (trNextUpdateDate t) \<and> isValidDate (trUpdatedAt t) \<and> pred_option isValidDate (trDeletedAt t)"
  by (auto simp: topicProblem_def isParseableJson_def isBigIntSafe_def split: if_splits)

lemma valid_card:
  "cardProblem H c = None \<Longrightarrow> jsonParse H (crDataJson c) \<noteq> None \<and> pred_option isWhole (crReviewDate c)
     \<and> isValidDate (crUpdatedAt c) \<and> pred_option isValidDate (crDeletedAt c)"
  by (auto simp: cardProblem_def isParseableJson_def isBigIntSafe_def split: if_splits option.splits)

lemma valid_topic_upsert:
  "mutationProblem H m = None \<Longrightarrow> muOperation m = Upsert \<Longrightarrow> muTable m = Topics \<Longrightarrow>
   \<exists>t. muTopic m = Some t \<and> trId t = muRecordId m \<and> topicProblem H t = None"
  by (auto simp: mutationProblem_def upsertProblem_def split: option.splits if_splits)

lemma valid_card_upsert:
  "mutationProblem H m = None \<Longrightarrow> muOperation m = Upsert \<Longrightarrow> muTable m = Cards \<Longrightarrow>
   \<exists>c. muCard m = Some c \<and> crId c = muRecordId m \<and> cardProblem H c = None"
  by (auto simp: mutationProblem_def upsertProblem_def split: option.splits if_splits)

lemma valid_time: "mutationProblem H m = None \<Longrightarrow> isValidDate (muUpdatedAt m)"
  by (auto simp: mutationProblem_def)

end
