(* ===== verification/ServerDb.thy ===== *)
theory ServerDb
  imports MutationValidation
begin

text \<open>
  The sync server's storage: the Postgres tables the sync code reads and writes, with the
  constraints of prisma/schema.prisma and the SQL migrations (primary keys, foreign keys with
  cascade, one live topic per title), the Redis marks, the errors (shared/lib/errors.ts,
  shared/lib/http.ts), the row mappers (mappers.ts), the sequence (seq.ts), idempotency
  (idempotency.service.ts) and conflicts, activity and purge (conflict.service.ts).

  A database call that raises is \<open>Inl\<close>; a transaction that raises leaves the database as it
  was, which the callers model by dropping the new state.
\<close>

section \<open>Errors\<close>

datatype apply_error =
    AppErr int string string
  | MediaErr string string bool
  | TopicNotSynced
  | OtherErr string

abbreviation BadRequest :: "string \<Rightarrow> string \<Rightarrow> apply_error" where
  "BadRequest message code \<equiv> AppErr 400 code message"

abbreviation Forbidden :: "string \<Rightarrow> string \<Rightarrow> apply_error" where
  "Forbidden message code \<equiv> AppErr 403 code message"

definition statusToErrorCode :: "int \<Rightarrow> string" where
  "statusToErrorCode s =
     (if s = 400 then ''BAD_REQUEST'' else if s = 401 then ''UNAUTHORIZED''
      else if s = 403 then ''FORBIDDEN'' else if s = 404 then ''NOT_FOUND''
      else if s = 413 then ''PAYLOAD_TOO_LARGE'' else if s = 415 then ''UNSUPPORTED_MEDIA_TYPE''
      else if s = 429 then ''RATE_LIMITED'' else if s = 502 then ''BAD_GATEWAY''
      else if s \<ge> 500 then ''INTERNAL_ERROR'' else ''ERROR'')"

section \<open>Tables\<close>

record user_row =
  urId :: id
  urSyncSeq :: int

record topic_row =
  dtId :: id
  dtUser :: id
  dtTitle :: string
  dtPivot :: int
  dtWeek :: jsv
  dtNextUpdate :: int
  dtArchived :: bool
  dtUpdatedAt :: ms
  dtDeletedAt :: "ms option"
  dtSeq :: int

record card_row =
  dcId :: id
  dcUser :: id
  dcTopic :: id
  dcLevel :: int
  dcData :: jsv
  dcReview :: "int option"
  dcUpdatedAt :: ms
  dcDeletedAt :: "ms option"
  dcSeq :: int

record device_row =
  sdId :: id
  sdUser :: id
  sdName :: "string option"
  sdLastPulled :: int
  sdLastSeen :: ms
  sdUserAgent :: "string option"
  sdRevokedAt :: "ms option"

record op_row =
  soUser :: id
  soOpId :: id
  soDevice :: id
  soAppliedAt :: ms

record db =
  dbUsers :: "user_row list"
  dbTopics :: "topic_row list"
  dbCards :: "card_row list"
  dbDevices :: "device_row list"
  dbOps :: "op_row list"

definition opKey :: "op_row \<Rightarrow> id \<times> id" where
  "opKey r = (soUser r, soOpId r)"

text \<open>The Redis marks: user, operation, expiry. A closed client reads and writes nothing.\<close>

record redis =
  rdOpen :: bool
  rdOps :: "((id \<times> id) \<times> ms) list"

record server =
  srvDb :: db
  srvRedis :: redis

section \<open>Row mappers (mappers.ts)\<close>

text \<open>\<open>BigInt(number)\<close> raises on a fraction; Prisma refuses an invalid Date.\<close>

definition toBigInt :: "rat \<Rightarrow> apply_error + int" where
  "toBigInt r = (if isWhole r then Inr \<lfloor>r\<rfloor> else Inl (OtherErr ''RangeError''))"

definition toDate :: "rat \<Rightarrow> apply_error + ms" where
  "toDate r = (if isValidDate r then Inr (jsTrunc r) else Inl (OtherErr ''Invalid Date''))"

text \<open>\<open>x ? f(x) : null\<close>: missing and zero are both null.\<close>

definition truthyMap :: "(rat \<Rightarrow> 'e + 'a) \<Rightarrow> rat option \<Rightarrow> 'e + 'a option" where
  "truthyMap f x = (case x of
     None \<Rightarrow> Inr None
   | Some r \<Rightarrow> if r = 0 then Inr None else (case f r of Inl e \<Rightarrow> Inl e | Inr v \<Rightarrow> Inr (Some v)))"

definition topicRecordToDb :: "host \<Rightarrow> topic_record \<Rightarrow> id \<Rightarrow> apply_error + topic_row" where
  "topicRecordToDb H t userId =
     (case toBigInt (trPivot t) of Inl e \<Rightarrow> Inl e | Inr pivot \<Rightarrow>
     (case jsonParse H (trWeekJson t) of None \<Rightarrow> Inl (OtherErr ''SyntaxError'') | Some week \<Rightarrow>
     (case toBigInt (trNextUpdateDate t) of Inl e \<Rightarrow> Inl e | Inr nud \<Rightarrow>
     (case toDate (trUpdatedAt t) of Inl e \<Rightarrow> Inl e | Inr upd \<Rightarrow>
     (case truthyMap toDate (trDeletedAt t) of Inl e \<Rightarrow> Inl e | Inr del \<Rightarrow>
        Inr \<lparr>dtId = trId t, dtUser = userId, dtTitle = trTitle t, dtPivot = pivot, dtWeek = week,
          dtNextUpdate = nud, dtArchived = (case trIsArchived t of None \<Rightarrow> False | Some b \<Rightarrow> b),
          dtUpdatedAt = upd, dtDeletedAt = del, dtSeq = 0\<rparr>)))))"

definition cardRecordToDb :: "host \<Rightarrow> card_record \<Rightarrow> id \<Rightarrow> apply_error + card_row" where
  "cardRecordToDb H c userId =
     (case jsonParse H (crDataJson c) of None \<Rightarrow> Inl (OtherErr ''SyntaxError'') | Some data \<Rightarrow>
     (case truthyMap toBigInt (crReviewDate c) of Inl e \<Rightarrow> Inl e | Inr review \<Rightarrow>
     (case toDate (crUpdatedAt c) of Inl e \<Rightarrow> Inl e | Inr upd \<Rightarrow>
     (case truthyMap toDate (crDeletedAt c) of Inl e \<Rightarrow> Inl e | Inr del \<Rightarrow>
        Inr \<lparr>dcId = crId c, dcUser = userId, dcTopic = crTopicId c, dcLevel = crLevel c,
          dcData = data, dcReview = review, dcUpdatedAt = upd, dcDeletedAt = del, dcSeq = 0\<rparr>))))"

definition orElse :: "jsv \<Rightarrow> jsv \<Rightarrow> jsv" where
  "orElse v d = (if v = JUndef \<or> v = JNull then d else v)"

definition dbTopicToRecord :: "host \<Rightarrow> topic_row \<Rightarrow> topic_record" where
  "dbTopicToRecord H r = \<lparr>trId = dtId r, trTitle = dtTitle r, trPivot = of_int (dtPivot r),
     trWeekJson = jsonStringify H (orElse (dtWeek r) (JArr [])),
     trNextUpdateDate = of_int (dtNextUpdate r), trIsArchived = Some (dtArchived r),
     trUpdatedAt = of_int (dtUpdatedAt r), trDeletedAt = map_option of_int (dtDeletedAt r)\<rparr>"

definition dbCardToRecord :: "host \<Rightarrow> card_row \<Rightarrow> card_record" where
  "dbCardToRecord H r = \<lparr>crId = dcId r, crTopicId = dcTopic r, crLevel = dcLevel r,
     crDataJson = jsonStringify H (orElse (dcData r) (JObj [])),
     crReviewDate = map_option of_int (dcReview r), crUpdatedAt = of_int (dcUpdatedAt r),
     crDeletedAt = map_option of_int (dcDeletedAt r)\<rparr>"

definition shouldApplyIncoming ::
  "host \<Rightarrow> rat option \<Rightarrow> id option \<Rightarrow> id option \<Rightarrow> rat \<Rightarrow> id \<Rightarrow> id \<Rightarrow> bool" where
  "shouldApplyIncoming H existingUpdatedAt existingDeviceId existingRecordId
       incomingUpdatedAt incomingDeviceId incomingRecordId =
     (case existingUpdatedAt of
        None \<Rightarrow> True
      | Some e \<Rightarrow>
          if incomingUpdatedAt > e then True
          else if incomingUpdatedAt < e then False
          else
            let deviceCmp = localeCompare H incomingDeviceId
                  (case existingDeviceId of None \<Rightarrow> [] | Some d \<Rightarrow> d)
            in if deviceCmp \<noteq> 0 then deviceCmp > 0
               else localeCompare H incomingRecordId
                 (case existingRecordId of None \<Rightarrow> [] | Some r \<Rightarrow> r) > 0)"

section \<open>Writes and their constraints\<close>

text \<open>
  \<open>topics_user_title_unique\<close>: no two live topics of one user share a title. A write that would
  break it raises.
\<close>

definition titleTaken :: "topic_row list \<Rightarrow> topic_row \<Rightarrow> bool" where
  "titleTaken ts r \<longleftrightarrow> dtDeletedAt r = None \<and>
     (\<exists>t \<in> set ts. dtId t \<noteq> dtId r \<and> dtUser t = dtUser r \<and> dtTitle t = dtTitle r
        \<and> dtDeletedAt t = None)"

definition writeTopic :: "topic_row \<Rightarrow> db \<Rightarrow> apply_error + db" where
  "writeTopic r d =
     (if titleTaken (dbTopics d) r then Inl (OtherErr ''Unique constraint failed'')
      else Inr (d\<lparr>dbTopics := tbl_put dtId r (dbTopics d)\<rparr>))"

definition writeCard :: "card_row \<Rightarrow> db \<Rightarrow> db" where
  "writeCard r d = d\<lparr>dbCards := tbl_put dcId r (dbCards d)\<rparr>"

text \<open>Deleting topics deletes their cards (\<open>ON DELETE CASCADE\<close>).\<close>

definition deleteTopics :: "(topic_row \<Rightarrow> bool) \<Rightarrow> db \<Rightarrow> db" where
  "deleteTopics P d =
     (let gone = map dtId (filter P (dbTopics d)) in
      d\<lparr>dbTopics := filter (\<lambda>t. \<not> P t) (dbTopics d),
        dbCards := filter (\<lambda>c. dcTopic c \<notin> set gone) (dbCards d)\<rparr>)"

definition deleteCards :: "(card_row \<Rightarrow> bool) \<Rightarrow> db \<Rightarrow> db" where
  "deleteCards P d = d\<lparr>dbCards := filter (\<lambda>c. \<not> P c) (dbCards d)\<rparr>"

section \<open>The per-user sequence (seq.ts)\<close>

definition lockUserSeq :: "id \<Rightarrow> db \<Rightarrow> apply_error + unit" where
  "lockUserSeq userId d =
     (case tbl_get urId userId (dbUsers d) of
        None \<Rightarrow> Inl (OtherErr (''Cannot sync: no user '' @ userId))
      | Some _ \<Rightarrow> Inr ())"

definition nextSeq :: "id \<Rightarrow> db \<Rightarrow> apply_error + int \<times> db" where
  "nextSeq userId d =
     (case tbl_get urId userId (dbUsers d) of
        None \<Rightarrow> Inl (OtherErr (''Cannot sync: no user '' @ userId))
      | Some u \<Rightarrow>
          (let s = urSyncSeq u + 1
           in Inr (s, d\<lparr>dbUsers := tbl_put urId (u\<lparr>urSyncSeq := s\<rparr>) (dbUsers d)\<rparr>)))"

section \<open>Idempotency (idempotency.service.ts)\<close>

definition IDEMPOTENCY_TTL_SECONDS :: int where
  "IDEMPOTENCY_TTL_SECONDS = 7 * 24 * 60 * 60"

definition OPERATION_RETENTION_MS :: ms where
  "OPERATION_RETENTION_MS = 30 * 24 * 60 * 60 * 1000"

definition redisHit :: "redis \<Rightarrow> id \<Rightarrow> id \<Rightarrow> ms \<Rightarrow> bool" where
  "redisHit rd userId opId now \<longleftrightarrow> rdOpen rd
     \<and> (case tbl_get fst (userId, opId) (rdOps rd) of None \<Rightarrow> False | Some (_, expiry) \<Rightarrow> now < expiry)"

definition wasOpApplied :: "id \<Rightarrow> id \<Rightarrow> ms \<Rightarrow> server \<Rightarrow> bool" where
  "wasOpApplied userId opId now s \<longleftrightarrow>
     redisHit (srvRedis s) userId opId now
     \<or> tbl_get opKey (userId, opId) (dbOps (srvDb s)) \<noteq> None"

definition markOpApplied :: "id \<Rightarrow> id \<Rightarrow> id \<Rightarrow> ms \<Rightarrow> db \<Rightarrow> db" where
  "markOpApplied userId opId deviceId now d =
     (case tbl_get opKey (userId, opId) (dbOps d) of
        Some _ \<Rightarrow> d
      | None \<Rightarrow> d\<lparr>dbOps := tbl_put opKey
          \<lparr>soUser = userId, soOpId = opId, soDevice = deviceId, soAppliedAt = now\<rparr> (dbOps d)\<rparr>)"

definition cacheOpApplied :: "id \<Rightarrow> id \<Rightarrow> ms \<Rightarrow> server \<Rightarrow> server" where
  "cacheOpApplied userId opId now s =
     (let rd = srvRedis s in
      if rdOpen rd
      then s\<lparr>srvRedis := rd\<lparr>rdOps :=
             tbl_put fst ((userId, opId), now + IDEMPOTENCY_TTL_SECONDS * 1000) (rdOps rd)\<rparr>\<rparr>
      else s)"

definition pruneAppliedOps :: "id \<Rightarrow> ms \<Rightarrow> db \<Rightarrow> db" where
  "pruneAppliedOps userId now d =
     d\<lparr>dbOps := filter (\<lambda>o'. \<not> (soUser o' = userId \<and> soAppliedAt o' < now - OPERATION_RETENTION_MS)) (dbOps d)\<rparr>"

section \<open>Conflicts, active devices, purge (conflict.service.ts)\<close>

definition ACTIVE_WINDOW_MS :: ms where
  "ACTIVE_WINDOW_MS = 30 * 24 * 60 * 60 * 1000"

definition disambiguatedTitle :: "string \<Rightarrow> id \<Rightarrow> string" where
  "disambiguatedTitle title loserId = title @ '' ('' @ take 4 loserId @ '')''"

definition incomingWins :: "host \<Rightarrow> ms \<Rightarrow> id \<Rightarrow> topic_row \<Rightarrow> bool" where
  "incomingWins H incomingMs incomingId existing \<longleftrightarrow>
     incomingMs > dtUpdatedAt existing
     \<or> (incomingMs = dtUpdatedAt existing \<and> localeCompare H incomingId (dtId existing) > 0)"

definition resolveTopicTitleConflict ::
  "host \<Rightarrow> id \<Rightarrow> id \<Rightarrow> string \<Rightarrow> ms \<Rightarrow> ms \<Rightarrow> db \<Rightarrow> apply_error + topic_conflict option \<times> db" where
  "resolveTopicTitleConflict H userId incomingId incomingTitle incomingMs now d =
     (case find (\<lambda>t. dtUser t = userId \<and> dtTitle t = incomingTitle \<and> dtDeletedAt t = None
                    \<and> dtId t \<noteq> incomingId) (dbTopics d) of
        None \<Rightarrow> Inr (None, d)
      | Some existing \<Rightarrow>
          (let wins = incomingWins H incomingMs incomingId existing;
               loserId = (if wins then dtId existing else incomingId);
               loserTitle = (if wins then dtTitle existing else incomingTitle);
               newTitle = disambiguatedTitle loserTitle loserId;
               conflict = \<lparr>tcTopicId = loserId, tcOldTitle = loserTitle, tcNewTitle = newTitle,
                 tcReason = ''duplicate_title'', tcUpdatedAt = of_int now\<rparr>
           in case tbl_get dtId loserId (dbTopics d) of
                None \<Rightarrow> Inr (Some conflict, d)
              | Some loser \<Rightarrow>
                  (case nextSeq userId d of
                     Inl e \<Rightarrow> Inl e
                   | Inr (s, d1) \<Rightarrow>
                       (case writeTopic (loser\<lparr>dtTitle := newTitle, dtUpdatedAt := now, dtSeq := s\<rparr>) d1 of
                          Inl e \<Rightarrow> Inl e
                        | Inr d2 \<Rightarrow> Inr (Some conflict, d2)))))"

definition activeDevice :: "id \<Rightarrow> ms \<Rightarrow> device_row \<Rightarrow> bool" where
  "activeDevice userId now v \<longleftrightarrow> sdUser v = userId \<and> sdRevokedAt v = None
     \<and> sdLastSeen v > now - ACTIVE_WINDOW_MS"

definition staleDevice :: "id \<Rightarrow> ms \<Rightarrow> device_row \<Rightarrow> bool" where
  "staleDevice userId now v \<longleftrightarrow> sdUser v = userId \<and> sdRevokedAt v = None
     \<and> sdLastSeen v \<le> now - ACTIVE_WINDOW_MS"

definition countOtherActiveDevices :: "id \<Rightarrow> id \<Rightarrow> ms \<Rightarrow> db \<Rightarrow> nat" where
  "countOtherActiveDevices userId deviceId now d =
     length (filter (\<lambda>v. activeDevice userId now v \<and> sdId v \<noteq> deviceId) (dbDevices d))"

definition minPulled :: "device_row list \<Rightarrow> int option" where
  "minPulled vs = fold (\<lambda>v m. case m of
       None \<Rightarrow> Some (sdLastPulled v)
     | Some n \<Rightarrow> if sdLastPulled v < n then Some (sdLastPulled v) else Some n) vs None"

text \<open>
  Which tombstone may go: with no active device, one older than the window; otherwise one whose
  sequence every active device has confirmed.
\<close>

definition purgeable :: "int option \<Rightarrow> ms \<Rightarrow> ms option \<Rightarrow> int \<Rightarrow> bool" where
  "purgeable minP now deletedAt seq =
     (case deletedAt of
        None \<Rightarrow> False
      | Some del \<Rightarrow> (case minP of None \<Rightarrow> del \<le> now - ACTIVE_WINDOW_MS | Some m \<Rightarrow> seq \<le> m))"

definition purgeSyncedTombstones :: "id \<Rightarrow> ms \<Rightarrow> db \<Rightarrow> db" where
  "purgeSyncedTombstones userId now d =
     (let minP = minPulled (filter (activeDevice userId now) (dbDevices d));
          d1 = d\<lparr>dbDevices := filter (\<lambda>v. \<not> staleDevice userId now v) (dbDevices d)\<rparr>;
          d2 = deleteCards (\<lambda>c. dcUser c = userId \<and> purgeable minP now (dcDeletedAt c) (dcSeq c)) d1
      in deleteTopics (\<lambda>t. dtUser t = userId \<and> purgeable minP now (dtDeletedAt t) (dtSeq t)) d2)"

end
