(* ===== verification/MediaService.thy ===== *)
theory MediaService
  imports WireMedia ServerDb
begin

text \<open>
  apps/server/src/sync/media.service.ts: upload and download planning against the object store
  and the media checks of a push batch, with the object key and the checksum form of
  shared/lib/r2-storage.ts. The store itself (R2 behind the AWS client) is the record \<open>r2\<close>:
  what a HEAD request answers for a key (or the error it raises) and the signed urls.
\<close>

section \<open>Object store\<close>

record object_head =
  ohLength :: "int option"
  ohType :: "string option"
  ohChecksum :: "string option"

record r2 =
  r2Head :: "string \<Rightarrow> apply_error + object_head option"
  r2PutUrl :: "string \<Rightarrow> string \<Rightarrow> string \<Rightarrow> string"
  r2GetUrl :: "string \<Rightarrow> string"

definition mediaObjectKey :: "id \<Rightarrow> string \<Rightarrow> string" where
  "mediaObjectKey userId hash = userId @ ''/'' @ hash"

definition hexDigit :: "char \<Rightarrow> nat" where
  "hexDigit c = (if isDigit c then of_char c - 48 else of_char c - 87)"

fun hexBytes :: "string \<Rightarrow> nat list" where
  "hexBytes (a # b # s) = (16 * hexDigit a + hexDigit b) # hexBytes s"
| "hexBytes _ = []"

definition sha256HexToBase64 :: "string \<Rightarrow> string" where
  "sha256HexToBase64 hex = base64 (hexBytes hex)"

section \<open>Limits\<close>

definition MAX_MEDIA_ITEMS :: nat where
  "MAX_MEDIA_ITEMS = 100"

definition MAX_IMAGE_BYTES :: int where
  "MAX_IMAGE_BYTES = 5 * 1024 * 1024"

definition MAX_AUDIO_BYTES :: int where
  "MAX_AUDIO_BYTES = 10 * 1024 * 1024"

definition ALLOWED_MEDIA_TYPES :: "string list" where
  "ALLOWED_MEDIA_TYPES = [''image/png'', ''image/jpeg'', ''image/gif'', ''image/webp'',
     ''audio/mpeg'', ''audio/ogg'', ''audio/wav'', ''audio/mp4'']"

definition maxBytesForMediaType :: "string \<Rightarrow> int option" where
  "maxBytesForMediaType ty =
     (if ty \<notin> set ALLOWED_MEDIA_TYPES then None
      else Some (if startsWith ''image/'' ty then MAX_IMAGE_BYTES else MAX_AUDIO_BYTES))"

section \<open>Upload plan\<close>

record media_upload_item =
  uiHash :: string
  uiType :: string
  uiByteLength :: int
  uiChecksum :: string

datatype media_upload_result =
    UploadExists string
  | UploadPut string string string string

fun uploadHash :: "media_upload_result \<Rightarrow> string" where
  "uploadHash (UploadExists h) = h"
| "uploadHash (UploadPut h _ _ _) = h"

definition assertValidUploadItem :: "media_upload_item \<Rightarrow> apply_error option" where
  "assertValidUploadItem i =
     (if \<not> isSha256Hex (uiHash i) then
        Some (BadRequest ''hash must be lowercase SHA-256 hex'' ''MEDIA_INVALID'')
      else (case maxBytesForMediaType (uiType i) of
        None \<Rightarrow> Some (BadRequest (''Unsupported media type: '' @ uiType i) ''MEDIA_INVALID'')
      | Some maxBytes \<Rightarrow>
          if uiByteLength i \<le> 0 then
            Some (BadRequest ''byteLength must be a positive integer'' ''MEDIA_INVALID'')
          else if uiByteLength i > maxBytes then
            Some (BadRequest (''Media exceeds maximum size for '' @ uiType i) ''MEDIA_TOO_LARGE'')
          else if uiChecksum i \<noteq> sha256HexToBase64 (uiHash i) then
            Some (BadRequest ''checksum must be the base64 SHA-256 of hash'' ''MEDIA_INVALID'')
          else None))"

definition headMatchesRef :: "object_head \<Rightarrow> string \<Rightarrow> int \<Rightarrow> string \<Rightarrow> bool" where
  "headMatchesRef head ty byteLength checksum \<longleftrightarrow> ohLength head = Some byteLength
     \<and> ohType head = Some ty \<and> ohChecksum head = Some checksum"

fun dedupeUploads :: "media_upload_item list \<Rightarrow> media_upload_item list
    \<Rightarrow> apply_error + media_upload_item list" where
  "dedupeUploads [] byHash = Inr byHash"
| "dedupeUploads (i # is) byHash =
     (case assertValidUploadItem i of
        Some e \<Rightarrow> Inl e
      | None \<Rightarrow>
          (case tbl_get uiHash (uiHash i) byHash of
             Some ex \<Rightarrow>
               if uiType ex \<noteq> uiType i \<or> uiByteLength ex \<noteq> uiByteLength i
                  \<or> uiChecksum ex \<noteq> uiChecksum i
               then Inl (BadRequest (''Conflicting metadata for hash '' @ uiHash i) ''MEDIA_INVALID'')
               else dedupeUploads is (tbl_put uiHash i byHash)
           | None \<Rightarrow> dedupeUploads is (tbl_put uiHash i byHash)))"

fun planUploads :: "r2 \<Rightarrow> id \<Rightarrow> media_upload_item list \<Rightarrow> apply_error + media_upload_result list" where
  "planUploads S userId [] = Inr []"
| "planUploads S userId (i # is) =
     (let key = mediaObjectKey userId (uiHash i) in
      case r2Head S key of
        Inl e \<Rightarrow> Inl e
      | Inr head \<Rightarrow>
          (let r = (if head \<noteq> None \<and> headMatchesRef (the head) (uiType i) (uiByteLength i) (uiChecksum i)
                    then UploadExists (uiHash i)
                    else UploadPut (uiHash i) (r2PutUrl S key (uiType i) (uiHash i)) (uiType i)
                           (sha256HexToBase64 (uiHash i)))
           in case planUploads S userId is of
                Inl e \<Rightarrow> Inl e
              | Inr rs \<Rightarrow> Inr (r # rs)))"

definition planMediaUploads :: "r2 \<Rightarrow> id \<Rightarrow> media_upload_item list
    \<Rightarrow> apply_error + media_upload_result list" where
  "planMediaUploads S userId items =
     (if items = [] then Inr []
      else if length items > MAX_MEDIA_ITEMS then
        Inl (BadRequest ''At most 100 media items per request'' ''MEDIA_INVALID'')
      else (case dedupeUploads items [] of
        Inl e \<Rightarrow> Inl e
      | Inr byHash \<Rightarrow> planUploads S userId byHash))"

section \<open>Download plan\<close>

record media_download_result =
  mdHash :: string
  mdUrl :: string
  mdType :: string
  mdByteLength :: int

text \<open>\<open>[...new Set(xs)]\<close>: first occurrences, in order.\<close>

fun uniqueFrom :: "'a list \<Rightarrow> 'a list \<Rightarrow> 'a list" where
  "uniqueFrom seen [] = []"
| "uniqueFrom seen (x # xs) =
     (if x \<in> set seen then uniqueFrom seen xs else x # uniqueFrom (x # seen) xs)"

fun planDownloads :: "r2 \<Rightarrow> id \<Rightarrow> string list \<Rightarrow> apply_error + media_download_result list" where
  "planDownloads S userId [] = Inr []"
| "planDownloads S userId (h # hs) =
     (let key = mediaObjectKey userId h in
      case r2Head S key of
        Inl e \<Rightarrow> Inl e
      | Inr head \<Rightarrow>
          (case planDownloads S userId hs of
             Inl e \<Rightarrow> Inl e
           | Inr rs \<Rightarrow>
               (case head of
                  None \<Rightarrow> Inr rs
                | Some oh \<Rightarrow>
                    (case (ohLength oh, ohType oh) of
                       (Some n, Some ty) \<Rightarrow>
                         if ty = [] then Inr rs
                         else Inr (\<lparr>mdHash = h, mdUrl = r2GetUrl S key, mdType = ty, mdByteLength = n\<rparr> # rs)
                     | _ \<Rightarrow> Inr rs))))"

definition planMediaDownloads :: "r2 \<Rightarrow> id \<Rightarrow> string list \<Rightarrow> apply_error + media_download_result list" where
  "planMediaDownloads S userId hashes =
     (if hashes = [] then Inr []
      else let unique = uniqueFrom [] hashes in
        if length unique > MAX_MEDIA_ITEMS then
          Inl (BadRequest ''At most 100 media hashes per request'' ''MEDIA_INVALID'')
        else if \<not> list_all isSha256Hex unique then
          Inl (BadRequest ''hash must be lowercase SHA-256 hex'' ''MEDIA_INVALID'')
        else planDownloads S userId unique)"

section \<open>Media of a push batch\<close>

text \<open>\<open>walkMediaContents\<close>: the contents it visits, in order.\<close>

definition sideContents :: "jsv \<Rightarrow> jsv list" where
  "sideContents side =
     (if \<not> isObject side then []
      else (case getProp ''blocks'' side of
        JArr bs \<Rightarrow> map (getProp ''content'') (filter isMediaBlock bs)
      | _ \<Rightarrow> (if isMediaContent (getProp ''content'' side) then [getProp ''content'' side] else [])))"

definition walkMediaContents :: "jsv \<Rightarrow> jsv list" where
  "walkMediaContents v =
     (if \<not> isObject v then []
      else sideContents (getProp ''front'' v) @ sideContents (getProp ''back'' v))"

definition malformedMedia :: "jsv \<Rightarrow> bool" where
  "malformedMedia content \<longleftrightarrow> hasKey ''hash'' content \<and> \<not> isWireMediaRef content"

definition invalidJson :: apply_error where
  "invalidJson = MediaErr ''MEDIA_INVALID'' ''Card dataJson is not valid JSON'' False"

definition malformedRef :: apply_error where
  "malformedRef = MediaErr ''MEDIA_INVALID'' ''Malformed media reference'' False"

fun collectRefs :: "host \<Rightarrow> mutation list \<Rightarrow> wire_media_ref list
    \<Rightarrow> wire_media_ref list \<times> apply_error option" where
  "collectRefs H [] byHash = (byHash, None)"
| "collectRefs H (m # ms) byHash =
     (if muOperation m \<noteq> Upsert \<or> muTable m \<noteq> Cards then collectRefs H ms byHash
      else (case muCard m of
        None \<Rightarrow> collectRefs H ms byHash
      | Some c \<Rightarrow>
          (case jsonParse H (crDataJson c) of
             None \<Rightarrow> ([], Some invalidJson)
           | Some data \<Rightarrow>
               if list_ex malformedMedia (walkMediaContents data) then ([], Some malformedRef)
               else collectRefs H ms (fold (tbl_put wmHash) (collectWireMediaRefs data) byHash))))"

definition collectBatchMediaRefs :: "host \<Rightarrow> mutation list \<Rightarrow> wire_media_ref list \<times> apply_error option" where
  "collectBatchMediaRefs H ms = collectRefs H ms []"

definition validateWireRefShape :: "wire_media_ref \<Rightarrow> apply_error option" where
  "validateWireRefShape ref =
     (case maxBytesForMediaType (wmType ref) of
        None \<Rightarrow> Some (MediaErr ''MEDIA_INVALID'' (''Unsupported media type: '' @ wmType ref) False)
      | Some maxBytes \<Rightarrow>
          if wmByteLength ref > maxBytes then
            Some (MediaErr ''MEDIA_TOO_LARGE'' (''Media exceeds maximum size for '' @ wmType ref) False)
          else None)"

definition mediaErrorFromHead :: "object_head option \<Rightarrow> wire_media_ref \<Rightarrow> apply_error option" where
  "mediaErrorFromHead head ref =
     (case head of
        None \<Rightarrow> Some (MediaErr ''MEDIA_NOT_FOUND'' (''Media object not found: '' @ wmHash ref) True)
      | Some h \<Rightarrow>
          if \<not> headMatchesRef h (wmType ref) (wmByteLength ref) (sha256HexToBase64 (wmHash ref)) then
            Some (MediaErr ''MEDIA_INTEGRITY'' (''Media object metadata mismatch: '' @ wmHash ref) True)
          else None)"

type_synonym media_errors = "(string \<times> apply_error) list"

fun checkRefs :: "r2 \<Rightarrow> id \<Rightarrow> wire_media_ref list \<Rightarrow> media_errors \<Rightarrow> apply_error + media_errors" where
  "checkRefs S userId [] errs = Inr errs"
| "checkRefs S userId (ref # refs) errs =
     (case validateWireRefShape ref of
        Some e \<Rightarrow> checkRefs S userId refs (tbl_put fst (wmHash ref, e) errs)
      | None \<Rightarrow>
          (case r2Head S (mediaObjectKey userId (wmHash ref)) of
             Inl e \<Rightarrow> Inl e
           | Inr head \<Rightarrow>
               (case mediaErrorFromHead head ref of
                  Some e \<Rightarrow> checkRefs S userId refs (tbl_put fst (wmHash ref, e) errs)
                | None \<Rightarrow> checkRefs S userId refs errs)))"

definition checkReferencedMedia :: "r2 \<Rightarrow> id \<Rightarrow> wire_media_ref list \<Rightarrow> apply_error + media_errors" where
  "checkReferencedMedia S userId refs = checkRefs S userId refs []"

fun firstError :: "media_errors \<Rightarrow> wire_media_ref list \<Rightarrow> apply_error option" where
  "firstError errs [] = None"
| "firstError errs (ref # refs) =
     (case tbl_get fst (wmHash ref) errs of Some (_, e) \<Rightarrow> Some e | None \<Rightarrow> firstError errs refs)"

definition mediaErrorForCardData :: "host \<Rightarrow> string \<Rightarrow> media_errors \<Rightarrow> apply_error option" where
  "mediaErrorForCardData H dataJson errs =
     (case jsonParse H dataJson of
        None \<Rightarrow> Some invalidJson
      | Some data \<Rightarrow>
          if list_ex malformedMedia (walkMediaContents data) then Some malformedRef
          else firstError errs (collectWireMediaRefs data))"

section \<open>What the checks establish\<close>

definition refsOf :: "jsv list \<Rightarrow> wire_media_ref list" where
  "refsOf cs = List.map_filter asWireMediaRef cs"

lemma refsOf_simps [simp]:
  "refsOf [] = []"
  "refsOf (c # cs) = (case asWireMediaRef c of None \<Rightarrow> refsOf cs | Some r \<Rightarrow> r # refsOf cs)"
  "refsOf (xs @ ys) = refsOf xs @ refsOf ys"
  by (auto simp: refsOf_def map_filter_def split: option.splits)

lemma set_refsOf: "r \<in> set (refsOf cs) \<longleftrightarrow> (\<exists>c \<in> set cs. asWireMediaRef c = Some r)"
  by (induction cs) (auto split: option.splits)

lemma collect_content: "collectMedia entry st c = Inr (c, fold (tbl_put wmHash) (refsOf [c]) st)"
  by (auto simp: collectMedia_def split: option.splits)

lemma collect_blocks:
  "\<exists>bs'. mapBlocks collectMedia entry bs st
     = Inr (bs', fold (tbl_put wmHash) (refsOf (map (getProp ''content'') (filter isMediaBlock bs))) st)"
proof (induction bs arbitrary: st)
  case (Cons b bs)
  show ?case
    using Cons.IH [of st] Cons.IH [of "fold (tbl_put wmHash) (refsOf [getProp ''content'' b]) st"]
    by (auto simp: collect_content simp del: refsOf_simps(2) split: option.splits)
       (auto split: option.splits)
qed simp

lemma collect_side:
  "\<exists>v. mapSide collectMedia side st = Inr (v, fold (tbl_put wmHash) (refsOf (sideContents side)) st)"
proof -
  have "\<And>bs. \<exists>bs'. mapBlocks collectMedia st bs st
     = Inr (bs', fold (tbl_put wmHash) (refsOf (map (getProp ''content'') (filter isMediaBlock bs))) st)"
    by (rule collect_blocks)
  then show ?thesis
    by (auto simp: mapSide_def sideContents_def collect_content split: jsv.splits sum.splits)
       (metis Inr_inject Inl_not_Inr prod.inject)+
qed

lemma collect_refs:
  "collectWireMediaRefs data = fold (tbl_put wmHash) (refsOf (walkMediaContents data)) []"
proof (cases "isObject data")
  case True
  obtain f b where "mapSide collectMedia (getProp ''front'' data) []
      = Inr (f, fold (tbl_put wmHash) (refsOf (sideContents (getProp ''front'' data))) [])"
    and "mapSide collectMedia (getProp ''back'' data)
          (fold (tbl_put wmHash) (refsOf (sideContents (getProp ''front'' data))) [])
      = Inr (b, fold (tbl_put wmHash) (refsOf (sideContents (getProp ''back'' data)))
          (fold (tbl_put wmHash) (refsOf (sideContents (getProp ''front'' data))) []))"
    using collect_side by blast
  with True show ?thesis
    by (simp add: collectWireMediaRefs_def mapCardMedia_def walkMediaContents_def)
qed (simp add: collectWireMediaRefs_def mapCardMedia_def walkMediaContents_def)

lemma keys_fold_put: "key ` set (fold (tbl_put key) rs xs) = key ` set rs \<union> key ` set xs"
  by (induction rs arbitrary: xs) (auto simp: keys_tbl_put)

lemma collect_hashes:
  "wmHash ` set (collectWireMediaRefs data) = wmHash ` set (refsOf (walkMediaContents data))"
  by (simp add: collect_refs keys_fold_put)

definition refReady :: "r2 \<Rightarrow> id \<Rightarrow> wire_media_ref \<Rightarrow> bool" where
  "refReady S userId r \<longleftrightarrow> validateWireRefShape r = None
     \<and> (\<exists>h. r2Head S (mediaObjectKey userId (wmHash r)) = Inr (Some h)
          \<and> headMatchesRef h (wmType r) (wmByteLength r) (sha256HexToBase64 (wmHash r)))"

lemma collectRefs_keeps: "collectRefs H ms byHash = (refs, None) \<Longrightarrow> wmHash ` set byHash \<subseteq> wmHash ` set refs"
  by (induction H ms byHash rule: collectRefs.induct)
     (auto simp: keys_fold_put split: if_splits option.splits)

lemma collectRefs_ok:
  "collectRefs H ms byHash = (refs, None) \<Longrightarrow> m \<in> set ms \<Longrightarrow> muOperation m = Upsert \<Longrightarrow>
   muTable m = Cards \<Longrightarrow> muCard m = Some c \<Longrightarrow> jsonParse H (crDataJson c) = Some data \<Longrightarrow>
   wmHash ` set (refsOf (walkMediaContents data)) \<subseteq> wmHash ` set refs"
proof (induction H ms byHash rule: collectRefs.induct)
  case (2 H m' ms byHash)
  show ?case
  proof (cases "m' = m")
    case True
    with 2(5-9) have "collectRefs H ms (fold (tbl_put wmHash) (collectWireMediaRefs data) byHash) = (refs, None)"
      using 2(4) by (simp split: if_splits)
    from collectRefs_keeps [OF this] show ?thesis by (auto simp: keys_fold_put collect_hashes)
  next
    case False
    with 2 show ?thesis by (auto split: if_splits option.splits)
  qed
qed simp

lemma checkRefs_put:
  "(tbl_get fst h (tbl_put fst (k, e) errs) = None) \<longleftrightarrow> h \<noteq> k \<and> tbl_get fst h errs = None"
  by (simp add: tbl_get_put)

lemma checkRefs_ready:
  "checkRefs S userId refs errs = Inr errs' \<Longrightarrow> tbl_get fst h errs' = None \<Longrightarrow>
   tbl_get fst h errs = None \<and> (\<forall>r \<in> set refs. wmHash r = h \<longrightarrow> refReady S userId r)"
proof (induction refs arbitrary: errs)
  case (Cons r refs)
  have skip: "tbl_get fst h errs = None \<and> (\<forall>q \<in> set (r # refs). wmHash q = h \<longrightarrow> refReady S userId q)"
    if "checkRefs S userId refs (tbl_put fst (wmHash r, e) errs) = Inr errs'" for e
    using Cons.IH [OF that Cons.prems(2)] by (auto simp: checkRefs_put)
  show ?case
  proof (cases "validateWireRefShape r")
    case (Some e)
    with Cons.prems skip [of e] show ?thesis by simp
  next
    case None
    with Cons.prems obtain head where head: "r2Head S (mediaObjectKey userId (wmHash r)) = Inr head"
      by (auto split: sum.splits)
    show ?thesis
    proof (cases "mediaErrorFromHead head r")
      case (Some e)
      with None head Cons.prems skip [of e] show ?thesis by simp
    next
      case ok: None
      then have "refReady S userId r"
        using None head by (auto simp: refReady_def mediaErrorFromHead_def split: option.splits if_splits)
      with ok None head Cons show ?thesis by auto
    qed
  qed
qed simp

lemma refsOf_hash:
  "v \<in> set vs \<Longrightarrow> asWireMediaRef v = Some r \<Longrightarrow> wmHash r \<in> wmHash ` set (refsOf vs)"
  by (rule imageI) (auto simp: set_refsOf)

lemma firstError_None: "firstError errs refs = None \<Longrightarrow> r \<in> set refs \<Longrightarrow> tbl_get fst (wmHash r) errs = None"
  by (induction refs) (auto split: option.splits prod.splits)

lemma mediaErrorForCardData_None:
  assumes "mediaErrorForCardData H dj errs = None"
  shows "\<exists>data. jsonParse H dj = Some data
    \<and> (\<forall>v \<in> set (walkMediaContents data). hasKey ''hash'' v \<longrightarrow> isWireMediaRef v)
    \<and> (\<forall>v \<in> set (walkMediaContents data). \<forall>r. asWireMediaRef v = Some r \<longrightarrow> tbl_get fst (wmHash r) errs = None)"
proof -
  from assms obtain data where d: "jsonParse H dj = Some data"
    "\<not> list_ex malformedMedia (walkMediaContents data)" "firstError errs (collectWireMediaRefs data) = None"
    by (auto simp: mediaErrorForCardData_def split: option.splits if_splits)
  have "tbl_get fst (wmHash r) errs = None"
    if "v \<in> set (walkMediaContents data)" "asWireMediaRef v = Some r" for v r
  proof -
    from refsOf_hash [OF that] have "wmHash r \<in> wmHash ` set (collectWireMediaRefs data)"
      by (simp only: collect_hashes)
    then show ?thesis using firstError_None [OF d(3)] by auto
  qed
  with d show ?thesis by (auto simp: list_ex_iff malformedMedia_def)
qed

section \<open>Properties\<close>

text \<open>
  C11. When the media checks of a batch pass for a card upsert, every media content of the card
  that claims a hash is a well-formed reference, and the store holds the object of that hash
  under the user's prefix, with the length, type and checksum a reference of the batch states.
\<close>

theorem batch_media_ready:
  assumes "collectBatchMediaRefs H ms = (refs, None)" "checkReferencedMedia S userId refs = Inr errs"
    and "m \<in> set ms" "muOperation m = Upsert" "muTable m = Cards" "muCard m = Some c"
    and "mediaErrorForCardData H (crDataJson c) errs = None"
  shows "\<exists>data. jsonParse H (crDataJson c) = Some data
    \<and> (\<forall>v \<in> set (walkMediaContents data). hasKey ''hash'' v \<longrightarrow>
         (\<exists>h r head. getProp ''hash'' v = JStr h \<and> isSha256Hex h \<and> r \<in> set refs \<and> wmHash r = h
            \<and> r2Head S (mediaObjectKey userId h) = Inr (Some head)
            \<and> headMatchesRef head (wmType r) (wmByteLength r) (sha256HexToBase64 h)
            \<and> (\<exists>limit. maxBytesForMediaType (wmType r) = Some limit \<and> wmByteLength r \<le> limit)))"
proof -
  from mediaErrorForCardData_None [OF assms(7)] obtain data where d: "jsonParse H (crDataJson c) = Some data"
    and w: "\<And>v. v \<in> set (walkMediaContents data) \<Longrightarrow> hasKey ''hash'' v \<Longrightarrow> isWireMediaRef v"
    and e: "\<And>v r. v \<in> set (walkMediaContents data) \<Longrightarrow> asWireMediaRef v = Some r \<Longrightarrow> tbl_get fst (wmHash r) errs = None"
    by blast
  have "\<exists>h r head. getProp ''hash'' v = JStr h \<and> isSha256Hex h \<and> r \<in> set refs \<and> wmHash r = h
            \<and> r2Head S (mediaObjectKey userId h) = Inr (Some head)
            \<and> headMatchesRef head (wmType r) (wmByteLength r) (sha256HexToBase64 h)
            \<and> (\<exists>limit. maxBytesForMediaType (wmType r) = Some limit \<and> wmByteLength r \<le> limit)"
    if v: "v \<in> set (walkMediaContents data)" "hasKey ''hash'' v" for v
  proof -
    from w [OF v] obtain q where q: "asWireMediaRef v = Some q" by (auto simp: isWireMediaRef_def)
    then have h: "getProp ''hash'' v = JStr (wmHash q)" "isSha256Hex (wmHash q)"
      by (auto simp: asWireMediaRef_def split: if_splits jsv.splits)
    have "wmHash q \<in> wmHash ` set refs"
      using refsOf_hash [OF v(1) q] collectRefs_ok [OF assms(1) [unfolded collectBatchMediaRefs_def] assms(3-6) d]
      by blast
    then obtain r where r: "r \<in> set refs" "wmHash r = wmHash q" by (metis imageE)
    have "refReady S userId r"
      using checkRefs_ready [OF assms(2) [unfolded checkReferencedMedia_def] e [OF v(1) q]] r by simp
    then obtain limit head where "maxBytesForMediaType (wmType r) = Some limit" "wmByteLength r \<le> limit"
      and "r2Head S (mediaObjectKey userId (wmHash r)) = Inr (Some head)"
      and "headMatchesRef head (wmType r) (wmByteLength r) (sha256HexToBase64 (wmHash r))"
      by (auto simp: refReady_def validateWireRefShape_def not_less split: option.splits if_splits)
    with h r show ?thesis by metis
  qed
  with d show ?thesis by blast
qed

definition sample_media_card :: card_record where
  "sample_media_card = \<lparr>crId = ''c'', crTopicId = ''t'', crLevel = 0, crDataJson = ''E'',
     crReviewDate = None, crUpdatedAt = 7, crDeletedAt = None\<rparr>"

definition sample_ref :: wire_media_ref where
  "sample_ref = \<lparr>wmHash = replicate 64 CHR ''0'', wmType = ''image/png'', wmByteLength = 9\<rparr>"

definition media_host :: host where
  "media_host = sample_host\<lparr>jsonParse := (\<lambda>s. Some (JObj [(''front'', JObj [(''content'', refValue sample_ref)])]))\<rparr>"

definition sample_store :: r2 where
  "sample_store = \<lparr>r2Head = (\<lambda>k. Inr (if k = mediaObjectKey ''u'' (wmHash sample_ref)
       then Some \<lparr>ohLength = Some 9, ohType = Some ''image/png'',
              ohChecksum = Some (sha256HexToBase64 (wmHash sample_ref))\<rparr> else None)),
     r2PutUrl = (\<lambda>k t h. k), r2GetUrl = (\<lambda>k. k)\<rparr>"

definition sample_card_push :: mutation where
  "sample_card_push = \<lparr>muOpId = ''o'', muDeviceId = ''d'', muTable = Cards, muRecordId = ''c'',
     muOperation = Upsert, muUpdatedAt = 7, muTopic = None, muCard = Some sample_media_card\<rparr>"

lemma sample_refs: "collectBatchMediaRefs media_host [sample_card_push] = ([sample_ref], None)"
proof -
  have "isSha256Hex (wmHash sample_ref)"
    by (simp add: isSha256Hex_def sample_ref_def isHexLower_def isDigit_def list_all_iff)
  then have ref: "asWireMediaRef (refValue sample_ref) = Some sample_ref"
    by (intro asWireMediaRef_refValue) (simp_all add: sample_ref_def)
  then have "walkMediaContents (JObj [(''front'', JObj [(''content'', refValue sample_ref)])]) = [refValue sample_ref]"
    by (simp add: walkMediaContents_def sideContents_def refValue_media)
  with ref show ?thesis
    by (simp add: collectBatchMediaRefs_def sample_card_push_def sample_media_card_def media_host_def
        collect_refs malformedMedia_def isWireMediaRef_def)
qed

lemma sample_checked: "checkReferencedMedia sample_store ''u'' [sample_ref] = Inr []"
  by (simp add: checkReferencedMedia_def validateWireRefShape_def sample_ref_def maxBytesForMediaType_def
      ALLOWED_MEDIA_TYPES_def MAX_IMAGE_BYTES_def sample_store_def mediaErrorFromHead_def headMatchesRef_def)

lemma batch_media_ready_witness:
  "\<exists>data. jsonParse media_host ''E'' = Some data
    \<and> (\<forall>v \<in> set (walkMediaContents data). hasKey ''hash'' v \<longrightarrow>
         (\<exists>h. getProp ''hash'' v = JStr h \<and> r2Head sample_store (mediaObjectKey ''u'' h) \<noteq> Inr None))"
proof -
  have "isSha256Hex (wmHash sample_ref)"
    by (simp add: isSha256Hex_def sample_ref_def isHexLower_def isDigit_def list_all_iff)
  then have ref: "asWireMediaRef (refValue sample_ref) = Some sample_ref"
    by (intro asWireMediaRef_refValue) (simp_all add: sample_ref_def)
  have "mediaErrorForCardData media_host (crDataJson sample_media_card) [] = None"
    using ref by (simp add: mediaErrorForCardData_def media_host_def sample_media_card_def collect_refs
        walkMediaContents_def sideContents_def refValue_media malformedMedia_def isWireMediaRef_def)
  then have "mediaErrorForCardData media_host (crDataJson sample_media_card) [] = None" .
  from batch_media_ready [OF sample_refs sample_checked _ _ _ _ this, of sample_card_push]
  show ?thesis by (fastforce simp: sample_card_push_def sample_media_card_def)
qed

end
