(* ===== verification/ServerSync.thy ===== *)
theory ServerSync
  imports MediaService
begin

text \<open>
  apps/server/src/sync/sync.service.ts: devices, the apply transaction, a push batch with its
  fanout, and paged pulls. Every operation takes the clock reading \<open>now\<close> of its call; the
  messages it publishes are part of its result, their ids drawn from \<open>mid\<close>
  (\<open>createEnvelopeId\<close>).
\<close>

section \<open>Devices\<close>

definition PRO_DEVICE_LIMIT :: nat where
  "PRO_DEVICE_LIMIT = 3"

definition listSyncDevices :: "id \<Rightarrow> db \<Rightarrow> device_row list" where
  "listSyncDevices userId d =
     sort_key (\<lambda>v. - sdLastSeen v) (filter (\<lambda>v. sdUser v = userId \<and> sdRevokedAt v = None) (dbDevices d))"

definition revokeSyncDevice :: "id \<Rightarrow> id \<Rightarrow> id \<Rightarrow> ms \<Rightarrow> db \<Rightarrow> apply_error + bool \<times> db" where
  "revokeSyncDevice userId deviceId currentDeviceId now d =
     (if deviceId = currentDeviceId then
        Inl (BadRequest ''The current device cannot revoke itself'' ''CURRENT_DEVICE'')
      else
        let hit = (\<lambda>v. sdId v = deviceId \<and> sdUser v = userId \<and> sdRevokedAt v = None)
        in Inr (list_ex hit (dbDevices d),
             d\<lparr>dbDevices := map (\<lambda>v. if hit v then v\<lparr>sdRevokedAt := Some now\<rparr> else v) (dbDevices d)\<rparr>))"

text \<open>\<open>x ? .. : ..\<close> on an optional string.\<close>

definition truthyStr :: "string option \<Rightarrow> bool" where
  "truthyStr x = (case x of None \<Rightarrow> False | Some s \<Rightarrow> s \<noteq> [])"

definition reportDevice :: "id \<Rightarrow> id \<Rightarrow> string option \<Rightarrow> string option \<Rightarrow> ms \<Rightarrow> db \<Rightarrow> apply_error + db" where
  "reportDevice userId deviceId cursor userAgent now d =
     (case tbl_get sdId deviceId (dbDevices d) of
        Some v \<Rightarrow>
          if sdUser v \<noteq> userId then Inl (Forbidden ''Device belongs to another user'' ''FORBIDDEN'')
          else if sdRevokedAt v \<noteq> None then Inl (Forbidden ''Device has been revoked'' ''DEVICE_REVOKED'')
          else Inr (d\<lparr>dbDevices := tbl_put sdId (v\<lparr>
                 sdLastPulled := (if truthyStr cursor then parseCursor (the cursor) else sdLastPulled v),
                 sdLastSeen := now,
                 sdUserAgent := (if truthyStr userAgent then userAgent else sdUserAgent v)\<rparr>) (dbDevices d)\<rparr>)
      | None \<Rightarrow>
          (let kept = filter (\<lambda>v. \<not> staleDevice userId now v) (dbDevices d) in
           if length (filter (activeDevice userId now) kept) \<ge> PRO_DEVICE_LIMIT then
             Inl (Forbidden ''Pro supports up to 3 active devices'' ''DEVICE_LIMIT'')
           else Inr (d\<lparr>dbDevices := tbl_put sdId
                  \<lparr>sdId = deviceId, sdUser = userId, sdName = None,
                   sdLastPulled = parseCursor (case cursor of None \<Rightarrow> INITIAL_CURSOR | Some c \<Rightarrow> c),
                   sdLastSeen = now, sdUserAgent = userAgent, sdRevokedAt = None\<rparr> kept\<rparr>)))"

section \<open>The apply transaction\<close>

definition RECORD_NOT_OWNED :: string where
  "RECORD_NOT_OWNED = ''Record not owned by user''"

definition incomingAccepted :: "host \<Rightarrow> ms \<Rightarrow> id \<Rightarrow> rat \<Rightarrow> id \<Rightarrow> bool" where
  "incomingAccepted H existingUpdatedAt recordId incomingUpdatedAt deviceId =
     shouldApplyIncoming H (Some (of_int existingUpdatedAt)) None (Some recordId)
       incomingUpdatedAt deviceId recordId"

definition applyTopicUpsert ::
  "host \<Rightarrow> id \<Rightarrow> id \<Rightarrow> mutation \<Rightarrow> ms \<Rightarrow> db \<Rightarrow> apply_error + topic_conflict option \<times> db" where
  "applyTopicUpsert H userId deviceId m now d =
     (case muTopic m of
        None \<Rightarrow> Inl (BadRequest ''Topic upsert missing payload'' ''VALIDATION_ERROR'')
      | Some topic \<Rightarrow>
          (let existing = tbl_get dtId (trId topic) (dbTopics d) in
           if existing \<noteq> None \<and> dtUser (the existing) \<noteq> userId then
             Inl (BadRequest RECORD_NOT_OWNED ''FORBIDDEN'')
           else if existing \<noteq> None
             \<and> \<not> incomingAccepted H (dtUpdatedAt (the existing)) (trId topic) (trUpdatedAt topic) deviceId
           then Inr (None, d)
           else
             (case topicRecordToDb H topic userId of Inl e \<Rightarrow> Inl e | Inr row \<Rightarrow>
             (case resolveTopicTitleConflict H userId (trId topic) (trTitle topic) (dtUpdatedAt row) now d of
                Inl e \<Rightarrow> Inl e
              | Inr (conflict, d1) \<Rightarrow>
                  (let title = (case conflict of
                         None \<Rightarrow> dtTitle row
                       | Some c \<Rightarrow> if tcTopicId c = trId topic then tcNewTitle c else dtTitle row)
                   in case nextSeq userId d1 of Inl e \<Rightarrow> Inl e | Inr (s, d2) \<Rightarrow>
                     (case writeTopic
                        (case existing of
                           None \<Rightarrow> row\<lparr>dtTitle := title, dtSeq := s\<rparr>
                         | Some old \<Rightarrow> old\<lparr>dtTitle := title, dtSeq := s, dtPivot := dtPivot row,
                             dtWeek := dtWeek row, dtNextUpdate := dtNextUpdate row,
                             dtArchived := dtArchived row, dtUpdatedAt := dtUpdatedAt row,
                             dtDeletedAt := None\<rparr>) d2 of
                        Inl e \<Rightarrow> Inl e
                      | Inr d3 \<Rightarrow> Inr (conflict, d3)))))))"

definition applyCardUpsert :: "host \<Rightarrow> id \<Rightarrow> id \<Rightarrow> mutation \<Rightarrow> db \<Rightarrow> apply_error + db" where
  "applyCardUpsert H userId deviceId m d =
     (case muCard m of
        None \<Rightarrow> Inl (BadRequest ''Card upsert missing payload'' ''VALIDATION_ERROR'')
      | Some c \<Rightarrow>
          (case tbl_get dtId (crTopicId c) (dbTopics d) of
             None \<Rightarrow> Inl TopicNotSynced
           | Some topic \<Rightarrow>
               if dtUser topic \<noteq> userId then Inl (BadRequest ''Topic not owned by user'' ''FORBIDDEN'')
               else
                 (let existing = tbl_get dcId (crId c) (dbCards d) in
                  if existing \<noteq> None \<and> dcUser (the existing) \<noteq> userId then
                    Inl (BadRequest RECORD_NOT_OWNED ''FORBIDDEN'')
                  else if existing \<noteq> None
                    \<and> \<not> incomingAccepted H (dcUpdatedAt (the existing)) (crId c) (crUpdatedAt c) deviceId
                  then Inr d
                  else
                    (case cardRecordToDb H c userId of Inl e \<Rightarrow> Inl e | Inr row \<Rightarrow>
                    (case nextSeq userId d of Inl e \<Rightarrow> Inl e | Inr (s, d1) \<Rightarrow>
                       Inr (writeCard
                         (case existing of
                            None \<Rightarrow> row\<lparr>dcSeq := s\<rparr>
                          | Some old \<Rightarrow> old\<lparr>dcSeq := s, dcTopic := dcTopic row, dcLevel := dcLevel row,
                              dcData := dcData row, dcReview := dcReview row,
                              dcUpdatedAt := dcUpdatedAt row, dcDeletedAt := None\<rparr>) d1))))))"

definition applyDelete :: "id \<Rightarrow> mutation \<Rightarrow> bool \<Rightarrow> ms \<Rightarrow> db \<Rightarrow> apply_error + db" where
  "applyDelete userId m hardDelete now d =
     (let dat = (if muUpdatedAt m = 0 then now else jsTrunc (muUpdatedAt m)) in
      case muTable m of
        Topics \<Rightarrow>
          (case tbl_get dtId (muRecordId m) (dbTopics d) of
             None \<Rightarrow> Inr d
           | Some row \<Rightarrow>
               if dtUser row \<noteq> userId then Inl (BadRequest RECORD_NOT_OWNED ''FORBIDDEN'')
               else if dtUpdatedAt row > dat then Inr d
               else if hardDelete then Inr (deleteTopics (\<lambda>t. dtId t = muRecordId m) d)
               else
                 (case nextSeq userId d of Inl e \<Rightarrow> Inl e | Inr (s, d1) \<Rightarrow>
                    writeTopic (row\<lparr>dtDeletedAt := Some dat, dtUpdatedAt := dat, dtSeq := s\<rparr>) d1))
      | Cards \<Rightarrow>
          (case tbl_get dcId (muRecordId m) (dbCards d) of
             None \<Rightarrow> Inr d
           | Some row \<Rightarrow>
               if dcUser row \<noteq> userId then Inl (BadRequest RECORD_NOT_OWNED ''FORBIDDEN'')
               else if dcUpdatedAt row > dat then Inr d
               else if hardDelete then Inr (deleteCards (\<lambda>c. dcId c = muRecordId m) d)
               else
                 (case nextSeq userId d of Inl e \<Rightarrow> Inl e | Inr (s, d1) \<Rightarrow>
                    Inr (writeCard (row\<lparr>dcDeletedAt := Some dat, dcUpdatedAt := dat, dcSeq := s\<rparr>) d1))))"

definition assertCardMediaReady ::
  "host \<Rightarrow> mutation \<Rightarrow> apply_error option \<Rightarrow> media_errors \<Rightarrow> apply_error option" where
  "assertCardMediaReady H m batchMediaError errs =
     (if muOperation m \<noteq> Upsert \<or> muTable m \<noteq> Cards then None
      else (case batchMediaError of
        Some e \<Rightarrow> Some e
      | None \<Rightarrow>
          (case muCard m of
             None \<Rightarrow> None
           | Some c \<Rightarrow> mediaErrorForCardData H (crDataJson c) errs)))"

text \<open>One transaction: an \<open>Inl\<close> leaves the database as it was.\<close>

definition applyMutationWithMark ::
  "host \<Rightarrow> id \<Rightarrow> id \<Rightarrow> mutation \<Rightarrow> bool \<Rightarrow> ms \<Rightarrow> db \<Rightarrow> apply_error + topic_conflict option \<times> db" where
  "applyMutationWithMark H userId deviceId m hardDelete now d =
     (case lockUserSeq userId d of Inl e \<Rightarrow> Inl e | Inr _ \<Rightarrow>
     (case (case muOperation m of
              Delete \<Rightarrow>
                (case applyDelete userId m hardDelete now d of Inl e \<Rightarrow> Inl e | Inr d1 \<Rightarrow> Inr (None, d1))
            | Upsert \<Rightarrow>
                (case muTable m of
                   Topics \<Rightarrow> applyTopicUpsert H userId deviceId m now d
                 | Cards \<Rightarrow>
                     (case applyCardUpsert H userId deviceId m d of
                        Inl e \<Rightarrow> Inl e | Inr d1 \<Rightarrow> Inr (None, d1)))) of
        Inl e \<Rightarrow> Inl e
      | Inr (conflict, d1) \<Rightarrow> Inr (conflict, markOpApplied userId (muOpId m) deviceId now d1)))"

fun errorMessage :: "apply_error \<Rightarrow> string" where
  "errorMessage (AppErr _ _ msg) = msg"
| "errorMessage (MediaErr _ msg _) = msg"
| "errorMessage TopicNotSynced = ''Topic has not been synced yet''"
| "errorMessage (OtherErr msg) = msg"

fun rejectedOpFromError :: "id \<Rightarrow> apply_error \<Rightarrow> rejected_op" where
  "rejectedOpFromError opId (MediaErr code msg retryable) =
     \<lparr>roOpId = opId, roCode = code, roMessage = msg, roRetryable = retryable\<rparr>"
| "rejectedOpFromError opId TopicNotSynced =
     \<lparr>roOpId = opId, roCode = ''TOPIC_NOT_SYNCED'', roMessage = errorMessage TopicNotSynced,
      roRetryable = True\<rparr>"
| "rejectedOpFromError opId (AppErr status code msg) =
     (if status < 500
      then \<lparr>roOpId = opId, roCode = code, roMessage = msg, roRetryable = False\<rparr>
      else \<lparr>roOpId = opId, roCode = ''APPLY_FAILED'', roMessage = msg, roRetryable = True\<rparr>)"
| "rejectedOpFromError opId (OtherErr msg) =
     \<lparr>roOpId = opId, roCode = ''APPLY_FAILED'', roMessage = msg, roRetryable = True\<rparr>"

section \<open>A push batch\<close>

definition loadBatchMediaErrors ::
  "host \<Rightarrow> r2 \<Rightarrow> id \<Rightarrow> mutation list \<Rightarrow> apply_error + apply_error option \<times> media_errors" where
  "loadBatchMediaErrors H S userId ms =
     (case collectBatchMediaRefs H ms of
        (_, Some e) \<Rightarrow> Inr (Some e, [])
      | (refs, None) \<Rightarrow>
          (case checkReferencedMedia S userId refs of
             Inl e \<Rightarrow> Inl e
           | Inr errs \<Rightarrow> Inr (None, errs)))"

record applied =
  apAccepted :: "id list"
  apRejected :: "rejected_op list"
  apConflicts :: "topic_conflict list"

definition applyOne ::
  "host \<Rightarrow> id \<Rightarrow> id \<Rightarrow> bool \<Rightarrow> apply_error option \<Rightarrow> media_errors \<Rightarrow> ms \<Rightarrow> mutation
    \<Rightarrow> server \<Rightarrow> applied \<times> server" where
  "applyOne H userId deviceId hardDelete batchErr errs now m s =
     (if wasOpApplied userId (muOpId m) now s
      then (\<lparr>apAccepted = [muOpId m], apRejected = [], apConflicts = []\<rparr>, s)
      else
        (case assertCardMediaReady H m batchErr errs of
           Some e \<Rightarrow> (\<lparr>apAccepted = [], apRejected = [rejectedOpFromError (muOpId m) e], apConflicts = []\<rparr>, s)
         | None \<Rightarrow>
             (case applyMutationWithMark H userId deviceId m hardDelete now (srvDb s) of
                Inl e \<Rightarrow> (\<lparr>apAccepted = [], apRejected = [rejectedOpFromError (muOpId m) e], apConflicts = []\<rparr>, s)
              | Inr (conflict, d1) \<Rightarrow>
                  (\<lparr>apAccepted = [muOpId m], apRejected = [],
                    apConflicts = (case conflict of None \<Rightarrow> [] | Some c \<Rightarrow> [c])\<rparr>,
                   cacheOpApplied userId (muOpId m) now (s\<lparr>srvDb := d1\<rparr>)))))"

fun applyOrderedMutations ::
  "host \<Rightarrow> id \<Rightarrow> id \<Rightarrow> bool \<Rightarrow> apply_error option \<Rightarrow> media_errors \<Rightarrow> ms \<Rightarrow> mutation list
    \<Rightarrow> server \<Rightarrow> applied \<times> server" where
  "applyOrderedMutations H userId deviceId hardDelete batchErr errs now [] s =
     (\<lparr>apAccepted = [], apRejected = [], apConflicts = []\<rparr>, s)"
| "applyOrderedMutations H userId deviceId hardDelete batchErr errs now (m # ms) s =
     (let (one, s1) = applyOne H userId deviceId hardDelete batchErr errs now m s;
          (rest, s2) = applyOrderedMutations H userId deviceId hardDelete batchErr errs now ms s1
      in (\<lparr>apAccepted = apAccepted one @ apAccepted rest, apRejected = apRejected one @ apRejected rest,
            apConflicts = apConflicts one @ apConflicts rest\<rparr>, s2))"

definition fanoutRecordForMutation :: "mutation \<Rightarrow> sync_record option" where
  "fanoutRecordForMutation m =
     (case muOperation m of
        Upsert \<Rightarrow>
          (case muTopic m of
             Some t \<Rightarrow> Some \<lparr>srTopic = Some t, srCard = None\<rparr>
           | None \<Rightarrow>
               (case muCard m of
                  Some c \<Rightarrow> Some \<lparr>srTopic = None, srCard = Some c\<rparr>
                | None \<Rightarrow> None))
      | Delete \<Rightarrow>
          (case muTable m of
             Topics \<Rightarrow> Some \<lparr>srTopic = Some \<lparr>trId = muRecordId m, trTitle = [], trPivot = 0,
                 trWeekJson = ''[]'', trNextUpdateDate = 0, trIsArchived = Some False,
                 trUpdatedAt = muUpdatedAt m, trDeletedAt = Some (muUpdatedAt m)\<rparr>, srCard = None\<rparr>
           | Cards \<Rightarrow> Some \<lparr>srTopic = None, srCard = Some \<lparr>crId = muRecordId m, crTopicId = [],
                 crLevel = 0, crDataJson = ''{}'', crReviewDate = None,
                 crUpdatedAt = muUpdatedAt m, crDeletedAt = Some (muUpdatedAt m)\<rparr>\<rparr>))"

definition buildFanoutRecords ::
  "host \<Rightarrow> mutation list \<Rightarrow> id list \<Rightarrow> topic_conflict list \<Rightarrow> db \<Rightarrow> sync_record list" where
  "buildFanoutRecords H ordered acceptedOpIds conflicts d =
     List.map_filter fanoutRecordForMutation (filter (\<lambda>m. muOpId m \<in> set acceptedOpIds) ordered)
     @ List.map_filter (\<lambda>c. map_option (\<lambda>row. \<lparr>srTopic = Some (dbTopicToRecord H row), srCard = None\<rparr>)
          (tbl_get dtId (tcTopicId c) (dbTopics d))) conflicts"

record fanout_msg =
  fmUser :: id
  fmEnvelope :: envelope
  fmExclude :: "id option"

definition serverEnvelope :: "string \<Rightarrow> string option \<Rightarrow> id \<Rightarrow> ms \<Rightarrow> payload \<Rightarrow> envelope" where
  "serverEnvelope mid corr deviceId now p = \<lparr>enVersion = PROTOCOL_VERSION, enMessageId = mid,
     enCorrelationId = corr, enDeviceId = deviceId, enSentAt = of_int now, enTraceId = None,
     enPayload = p\<rparr>"

definition publishPushFanout ::
  "(nat \<Rightarrow> string) \<Rightarrow> id \<Rightarrow> id \<Rightarrow> sync_record list \<Rightarrow> topic_conflict list \<Rightarrow> ms \<Rightarrow> fanout_msg list" where
  "publishPushFanout mid userId deviceId records conflicts now =
     (if records = [] then []
      else \<lparr>fmUser = userId, fmEnvelope = serverEnvelope (mid 0) None deviceId now
              (PullDelta \<lparr>pdRecords = records, pdWatermark = [], pdMore = False\<rparr>),
            fmExclude = Some deviceId\<rparr>
        # map (\<lambda>(i, c). \<lparr>fmUser = userId, fmEnvelope = serverEnvelope (mid (Suc i)) None deviceId now
              (TopicConflictResolved c), fmExclude = None\<rparr>) (enumerate 0 conflicts))"

definition orderBatch :: "mutation list \<Rightarrow> mutation list" where
  "orderBatch ms = filter (\<lambda>m. muOperation m = Upsert) ms @ filter (\<lambda>m. muOperation m = Delete) ms"

definition applyPushBatch ::
  "host \<Rightarrow> r2 \<Rightarrow> (nat \<Rightarrow> string) \<Rightarrow> ms \<Rightarrow> id \<Rightarrow> id \<Rightarrow> mutation list \<Rightarrow> server
    \<Rightarrow> apply_error + push_ack \<times> fanout_msg list \<times> server" where
  "applyPushBatch H S mid now userId deviceId mutations s =
     (let hardDelete = (countOtherActiveDevices userId deviceId now (srvDb s) = 0);
          (valid, malformed) = partitionMalformed H (map (\<lambda>m. clampMutationTimes m now) mutations);
          ordered = orderBatch valid
      in case loadBatchMediaErrors H S userId valid of
           Inl e \<Rightarrow> Inl e
         | Inr (batchErr, errs) \<Rightarrow>
             (let (ap, s1) = applyOrderedMutations H userId deviceId hardDelete batchErr errs now ordered s;
                  s2 = s1\<lparr>srvDb := pruneAppliedOps userId now (srvDb s1)\<rparr>;
                  records = buildFanoutRecords H ordered (apAccepted ap) (apConflicts ap) (srvDb s2)
              in Inr (\<lparr>paAcceptedOpIds = apAccepted ap, paRejected = malformed @ apRejected ap,
                        paConflicts = apConflicts ap\<rparr>,
                      publishPushFanout mid userId deviceId records (apConflicts ap) now, s2)))"

section \<open>Pull\<close>

definition PULL_PAGE_SIZE :: nat where
  "PULL_PAGE_SIZE = 500"

datatype db_row = RowTopic topic_row | RowCard card_row

fun rowSeq :: "db_row \<Rightarrow> int" where
  "rowSeq (RowTopic t) = dtSeq t"
| "rowSeq (RowCard c) = dcSeq c"

definition topicsSince :: "id \<Rightarrow> int \<Rightarrow> db \<Rightarrow> topic_row list" where
  "topicsSince userId since d =
     sort_key dtSeq (filter (\<lambda>t. dtUser t = userId \<and> dtSeq t > since) (dbTopics d))"

definition cardsSince :: "id \<Rightarrow> int \<Rightarrow> db \<Rightarrow> card_row list" where
  "cardsSince userId since d =
     sort_key dcSeq (filter (\<lambda>c. dcUser c = userId \<and> dcSeq c > since) (dbCards d))"

definition pullRows :: "id \<Rightarrow> int \<Rightarrow> nat \<Rightarrow> db \<Rightarrow> db_row list" where
  "pullRows userId since limit d =
     sort_key rowSeq (map RowTopic (take (limit + 1) (topicsSince userId since d))
       @ map RowCard (take (limit + 1) (cardsSince userId since d)))"

definition rowRecords :: "host \<Rightarrow> db_row list \<Rightarrow> sync_record list" where
  "rowRecords H rows =
     List.map_filter (\<lambda>r. case r of
         RowTopic t \<Rightarrow> Some \<lparr>srTopic = Some (dbTopicToRecord H t), srCard = None\<rparr> | RowCard _ \<Rightarrow> None) rows
     @ List.map_filter (\<lambda>r. case r of
         RowCard c \<Rightarrow> Some \<lparr>srTopic = None, srCard = Some (dbCardToRecord H c)\<rparr> | RowTopic _ \<Rightarrow> None) rows"

definition pullChanges :: "host \<Rightarrow> id \<Rightarrow> string \<Rightarrow> nat \<Rightarrow> db \<Rightarrow> pull_delta" where
  "pullChanges H userId cursor limit d =
     (let since = parseCursor cursor;
          merged = pullRows userId since limit d;
          page = take limit merged
      in \<lparr>pdRecords = rowRecords H page,
          pdWatermark = cursorFromSeq (if page = [] then since else rowSeq (last page)),
          pdMore = (length merged > limit)\<rparr>)"

definition bootstrap ::
  "host \<Rightarrow> id \<Rightarrow> id \<Rightarrow> string option \<Rightarrow> string option \<Rightarrow> ms \<Rightarrow> db \<Rightarrow> apply_error + pull_delta \<times> db" where
  "bootstrap H userId deviceId cursor userAgent now d =
     (let since = (case cursor of None \<Rightarrow> INITIAL_CURSOR | Some c \<Rightarrow> c);
          delta = pullChanges H userId since PULL_PAGE_SIZE d
      in case reportDevice userId deviceId (Some since) userAgent now d of
           Inl e \<Rightarrow> Inl e
         | Inr d1 \<Rightarrow> Inr (delta, purgeSyncedTombstones userId now d1))"

definition finishSyncCycle ::
  "id \<Rightarrow> id \<Rightarrow> string \<Rightarrow> string option \<Rightarrow> ms \<Rightarrow> db \<Rightarrow> apply_error + db" where
  "finishSyncCycle userId deviceId cursor userAgent now d =
     (case reportDevice userId deviceId (Some cursor) userAgent now d of
        Inl e \<Rightarrow> Inl e
      | Inr d1 \<Rightarrow> Inr (purgeSyncedTombstones userId now d1))"

end
