(* ===== verification/ServerInv.thy ===== *)
theory ServerInv
  imports ServerSync
begin

text \<open>
  The storage invariant of the sync server and its proof. \<open>db_ok\<close> says what every stored state
  satisfies; \<open>db_step\<close> is the small vocabulary of writes an apply transaction is made of, and
  each operation of sync.service.ts is shown to be a sequence of them. An invariant is then one
  case per write.
\<close>

section \<open>The invariant\<close>

fun rowUser :: "db_row \<Rightarrow> id" where
  "rowUser (RowTopic t) = dtUser t"
| "rowUser (RowCard c) = dcUser c"

definition allRows :: "db \<Rightarrow> db_row set" where
  "allRows d = RowTopic ` set (dbTopics d) \<union> RowCard ` set (dbCards d)"

definition syncSeqOf :: "id \<Rightarrow> db \<Rightarrow> int" where
  "syncSeqOf u d = (case tbl_get urId u (dbUsers d) of None \<Rightarrow> 0 | Some r \<Rightarrow> urSyncSeq r)"

definition tables_ok :: "db \<Rightarrow> bool" where
  "tables_ok d \<longleftrightarrow> tbl_ok urId (dbUsers d) \<and> tbl_ok dtId (dbTopics d) \<and> tbl_ok dcId (dbCards d)
     \<and> tbl_ok sdId (dbDevices d) \<and> tbl_ok opKey (dbOps d)"

text \<open>Sequences: positive, at most the user's counter, and no two rows of a user share one.\<close>

definition seqs_ok :: "db \<Rightarrow> bool" where
  "seqs_ok d \<longleftrightarrow> (\<forall>r \<in> allRows d. 0 < rowSeq r \<and> rowSeq r \<le> syncSeqOf (rowUser r) d)
     \<and> (\<forall>r \<in> allRows d. \<forall>r' \<in> allRows d. rowUser r = rowUser r' \<longrightarrow> rowSeq r = rowSeq r' \<longrightarrow> r = r')
     \<and> (\<forall>u \<in> set (dbUsers d). 0 \<le> urSyncSeq u)"

definition fk_ok :: "db \<Rightarrow> bool" where
  "fk_ok d \<longleftrightarrow> (\<forall>c \<in> set (dbCards d). \<exists>t \<in> set (dbTopics d). dtId t = dcTopic c \<and> dtUser t = dcUser c)"

definition titles_ok :: "db \<Rightarrow> bool" where
  "titles_ok d \<longleftrightarrow> (\<forall>t \<in> set (dbTopics d). \<forall>t' \<in> set (dbTopics d).
     dtDeletedAt t = None \<longrightarrow> dtDeletedAt t' = None \<longrightarrow> dtUser t = dtUser t' \<longrightarrow>
     dtTitle t = dtTitle t' \<longrightarrow> t = t')"

definition db_ok :: "db \<Rightarrow> bool" where
  "db_ok d \<longleftrightarrow> tables_ok d \<and> seqs_ok d \<and> fk_ok d \<and> titles_ok d"

section \<open>Writes\<close>

inductive db_step :: "id \<Rightarrow> ms \<Rightarrow> db \<Rightarrow> db \<Rightarrow> bool" for userId :: id and now :: ms where
  topic: "nextSeq userId d = Inr (s, d1) \<Longrightarrow> dtUser r = userId \<Longrightarrow> dtSeq r = s \<Longrightarrow>
    dtUpdatedAt r \<le> now + MAX_FUTURE_SKEW_MS \<Longrightarrow>
    pred_option (\<lambda>t. dtUser t = userId) (tbl_get dtId (dtId r) (dbTopics d)) \<Longrightarrow>
    writeTopic r d1 = Inr d2 \<Longrightarrow> db_step userId now d d2"
| card: "nextSeq userId d = Inr (s, d1) \<Longrightarrow> dcUser r = userId \<Longrightarrow> dcSeq r = s \<Longrightarrow>
    dcUpdatedAt r \<le> now + MAX_FUTURE_SKEW_MS \<Longrightarrow>
    pred_option (\<lambda>c. dcUser c = userId) (tbl_get dcId (dcId r) (dbCards d)) \<Longrightarrow>
    t \<in> set (dbTopics d) \<Longrightarrow> dtId t = dcTopic r \<Longrightarrow> dtUser t = userId \<Longrightarrow>
    db_step userId now d (writeCard r d1)"
| drop_topic: "tbl_get dtId k (dbTopics d) = Some t \<Longrightarrow> dtUser t = userId \<Longrightarrow>
    db_step userId now d (deleteTopics (\<lambda>t. dtId t = k) d)"
| drop_card: "tbl_get dcId k (dbCards d) = Some c \<Longrightarrow> dcUser c = userId \<Longrightarrow>
    db_step userId now d (deleteCards (\<lambda>c. dcId c = k) d)"
| mark: "db_step userId now d (markOpApplied userId opId deviceId now d)"

abbreviation db_steps :: "id \<Rightarrow> ms \<Rightarrow> db \<Rightarrow> db \<Rightarrow> bool" where
  "db_steps userId now \<equiv> (db_step userId now)\<^sup>*\<^sup>*"

section \<open>What each write does to rows and sequences\<close>

lemma nextSeq_spec:
  assumes "nextSeq u d = Inr (s, d1)"
  shows "s = syncSeqOf u d + 1" "syncSeqOf v d1 = (if v = u then s else syncSeqOf v d)"
    "dbTopics d1 = dbTopics d" "dbCards d1 = dbCards d" "dbDevices d1 = dbDevices d" "dbOps d1 = dbOps d"
    "tbl_ok urId (dbUsers d) \<Longrightarrow> tbl_ok urId (dbUsers d1)"
    "(\<And>x. x \<in> set (dbUsers d) \<Longrightarrow> 0 \<le> urSyncSeq x) \<Longrightarrow> y \<in> set (dbUsers d1) \<Longrightarrow> 0 \<le> urSyncSeq y"
proof -
  obtain r where r: "tbl_get urId u (dbUsers d) = Some r" "s = urSyncSeq r + 1"
    and d1: "d1 = d\<lparr>dbUsers := tbl_put urId (r\<lparr>urSyncSeq := s\<rparr>) (dbUsers d)\<rparr>"
    using assms by (auto simp: nextSeq_def Let_def split: option.splits)
  have k: "urId r = u" "r \<in> set (dbUsers d)" using r(1) by (auto dest: tbl_get_key tbl_get_in)
  have us: "dbUsers d1 = tbl_put urId (r\<lparr>urSyncSeq := s\<rparr>) (dbUsers d)" using d1 by simp
  show "s = syncSeqOf u d + 1" using r by (simp add: syncSeqOf_def)
  show "dbTopics d1 = dbTopics d" "dbCards d1 = dbCards d" "dbDevices d1 = dbDevices d" "dbOps d1 = dbOps d"
    using d1 by simp_all
  show "syncSeqOf v d1 = (if v = u then s else syncSeqOf v d)"
    using k(1) by (simp add: syncSeqOf_def us tbl_get_put)
  show "tbl_ok urId (dbUsers d) \<Longrightarrow> tbl_ok urId (dbUsers d1)"
    by (simp only: us tbl_ok_put)
  assume pos: "\<And>x. x \<in> set (dbUsers d) \<Longrightarrow> 0 \<le> urSyncSeq x" and y: "y \<in> set (dbUsers d1)"
  have "y = r\<lparr>urSyncSeq := s\<rparr> \<or> y \<in> set (dbUsers d)"
    using y us set_tbl_put_subset by fastforce
  then show "0 \<le> urSyncSeq y" using pos [of y] pos [OF k(2)] r(2) by auto
qed

lemma writeTopic_spec:
  assumes "writeTopic r d = Inr d'"
  shows "dbTopics d' = tbl_put dtId r (dbTopics d)" "\<not> titleTaken (dbTopics d) r"
    "dbCards d' = dbCards d" "dbUsers d' = dbUsers d" "dbDevices d' = dbDevices d" "dbOps d' = dbOps d"
  using assms by (auto simp: writeTopic_def split: if_splits)

lemma writeCard_fields [simp]:
  "dbTopics (writeCard r d) = dbTopics d" "dbCards (writeCard r d) = tbl_put dcId r (dbCards d)"
  "dbUsers (writeCard r d) = dbUsers d" "dbDevices (writeCard r d) = dbDevices d"
  "dbOps (writeCard r d) = dbOps d"
  by (simp_all add: writeCard_def)

lemma deleteTopics_fields [simp]:
  "dbTopics (deleteTopics P d) = filter (\<lambda>t. \<not> P t) (dbTopics d)"
  "set (dbCards (deleteTopics P d)) = {c \<in> set (dbCards d). \<not> (\<exists>t \<in> set (dbTopics d). P t \<and> dtId t = dcTopic c)}"
  "dbUsers (deleteTopics P d) = dbUsers d" "dbDevices (deleteTopics P d) = dbDevices d"
  "dbOps (deleteTopics P d) = dbOps d"
  by (auto simp: deleteTopics_def Let_def image_iff)

lemma deleteCards_fields [simp]:
  "dbTopics (deleteCards P d) = dbTopics d" "dbCards (deleteCards P d) = filter (\<lambda>c. \<not> P c) (dbCards d)"
  "dbUsers (deleteCards P d) = dbUsers d" "dbDevices (deleteCards P d) = dbDevices d"
  "dbOps (deleteCards P d) = dbOps d"
  by (simp_all add: deleteCards_def)

lemma markOpApplied_fields [simp]:
  "dbTopics (markOpApplied u o' v now d) = dbTopics d" "dbCards (markOpApplied u o' v now d) = dbCards d"
  "dbUsers (markOpApplied u o' v now d) = dbUsers d" "dbDevices (markOpApplied u o' v now d) = dbDevices d"
  "tbl_ok opKey (dbOps d) \<Longrightarrow> tbl_ok opKey (dbOps (markOpApplied u o' v now d))"
  by (auto simp: markOpApplied_def tbl_facts split: option.splits)

lemma syncSeqOf_cong: "dbUsers d' = dbUsers d \<Longrightarrow> syncSeqOf u d' = syncSeqOf u d"
  by (simp add: syncSeqOf_def)

lemma seqs_ok_write:
  assumes "seqs_ok d" "nextSeq u d = Inr (s, d1)" "dbUsers d2 = dbUsers d1"
    and "allRows d2 \<subseteq> insert r (allRows d)" "rowUser r = u" "rowSeq r = s"
  shows "seqs_ok d2"
proof -
  note n = nextSeq_spec [OF assms(2)]
  have s: "syncSeqOf v d2 = (if v = u then syncSeqOf u d + 1 else syncSeqOf v d)" for v
    using n(2) [of v] unfolding n(1) syncSeqOf_cong [OF assms(3)] by simp
  have "0 \<le> syncSeqOf u d"
    using assms(1) tbl_get_in [of urId u "dbUsers d"] by (auto simp: seqs_ok_def syncSeqOf_def split: option.splits)
  then have pos: "0 < s" using n(1) by simp
  have old: "0 < rowSeq q \<and> rowSeq q \<le> syncSeqOf (rowUser q) d" if "q \<in> allRows d" for q
    using assms(1) that by (auto simp: seqs_ok_def)
  have bound: "0 < rowSeq q \<and> rowSeq q \<le> syncSeqOf (rowUser q) d2" if "q \<in> allRows d2" for q
    using that assms(4-6) old [of q] s [of "rowUser q"] n(1) pos by (auto split: if_splits)
  have "q = q'" if "q \<in> allRows d2" "q' \<in> allRows d2" "rowUser q = rowUser q'" "rowSeq q = rowSeq q'" for q q'
  proof -
    have "q \<in> insert r (allRows d)" "q' \<in> insert r (allRows d)" using that(1,2) assms(4) by auto
    then consider "q = r" "q' = r" | "q = r" "q' \<in> allRows d" | "q \<in> allRows d" "q' = r"
      | "q \<in> allRows d" "q' \<in> allRows d" by blast
    then show ?thesis
    proof cases
      case 2
      then show ?thesis using that(3,4) assms(5,6) old [of q'] n(1) by auto
    next
      case 3
      then show ?thesis using that(3,4) assms(5,6) old [of q] n(1) by auto
    next
      case 4
      then show ?thesis using that(3,4) assms(1) by (simp add: seqs_ok_def)
    qed simp
  qed
  moreover have "0 \<le> urSyncSeq x" if "x \<in> set (dbUsers d2)" for x
    using n(8) [of x] that assms(1,3) by (simp add: seqs_ok_def)
  ultimately show ?thesis using bound by (simp add: seqs_ok_def)
qed

lemma seqs_ok_shrink:
  "seqs_ok d \<Longrightarrow> allRows d' \<subseteq> allRows d \<Longrightarrow> dbUsers d' = dbUsers d \<Longrightarrow> seqs_ok d'"
  by (simp add: seqs_ok_def syncSeqOf_cong [of d' d] subset_iff)

lemma allRows_writeTopic: "writeTopic r d = Inr d' \<Longrightarrow> allRows d' \<subseteq> insert (RowTopic r) (allRows d)"
  using set_tbl_put_subset [of dtId r "dbTopics d"] by (auto simp: allRows_def writeTopic_spec)

lemma allRows_writeCard: "allRows (writeCard r d) \<subseteq> insert (RowCard r) (allRows d)"
  using set_tbl_put_subset [of dcId r "dbCards d"] by (auto simp: allRows_def)

lemma allRows_same: "dbTopics d' = dbTopics d \<Longrightarrow> dbCards d' = dbCards d \<Longrightarrow> allRows d' = allRows d"
  by (simp add: allRows_def)

section \<open>Every write keeps the invariant\<close>

lemma step_tables: "db_step u now d d' \<Longrightarrow> tables_ok d \<Longrightarrow> tables_ok d'"
proof (induction rule: db_step.induct)
  case (topic d s d1 r d2)
  then show ?case using nextSeq_spec [OF topic(1)] writeTopic_spec [OF topic(6)]
    by (simp add: tables_ok_def tbl_ok_put)
next
  case (card d s d1 r t)
  then show ?case using nextSeq_spec [OF card(1)] by (simp add: tables_ok_def tbl_ok_put)
next
  case (drop_topic k d t)
  then show ?case by (simp add: tables_ok_def tbl_ok_filter deleteTopics_def Let_def)
next
  case (drop_card k d c)
  then show ?case by (simp add: tables_ok_def tbl_ok_filter)
next
  case (mark d opId deviceId)
  then show ?case by (simp add: tables_ok_def)
qed

lemma step_seqs: "db_step u now d d' \<Longrightarrow> seqs_ok d \<Longrightarrow> seqs_ok d'"
proof (induction rule: db_step.induct)
  case (topic d s d1 r d2)
  note n = nextSeq_spec [OF topic(1)]
  have "allRows d2 \<subseteq> insert (RowTopic r) (allRows d)"
    using allRows_writeTopic [OF topic(6)] allRows_same [OF n(3,4)] by simp
  then show ?case
    by (rule seqs_ok_write [OF topic.prems topic(1) writeTopic_spec(4) [OF topic(6)]])
       (simp_all add: topic(2,3))
next
  case (card d s d1 r t)
  note n = nextSeq_spec [OF card(1)]
  have "allRows (writeCard r d1) \<subseteq> insert (RowCard r) (allRows d)"
    using allRows_writeCard [of r d1] allRows_same [OF n(3,4)] by simp
  then show ?case
    by (rule seqs_ok_write [OF card.prems card(1) writeCard_fields(3)]) (simp_all add: card(2,3))
qed (auto elim!: seqs_ok_shrink simp: allRows_def)

lemma step_fk: "db_step u now d d' \<Longrightarrow> tables_ok d \<Longrightarrow> fk_ok d \<Longrightarrow> fk_ok d'"
proof (induction rule: db_step.induct)
  case (topic d s d1 r d2)
  note n = nextSeq_spec [OF topic(1)] and w = writeTopic_spec [OF topic(6)]
  show ?case unfolding fk_ok_def w(3) n(4)
  proof
    fix c assume "c \<in> set (dbCards d)"
    then obtain t where t: "t \<in> set (dbTopics d)" "dtId t = dcTopic c" "dtUser t = dcUser c"
      using topic.prems by (auto simp: fk_ok_def)
    show "\<exists>t \<in> set (dbTopics d2). dtId t = dcTopic c \<and> dtUser t = dcUser c"
    proof (cases "dtId t = dtId r")
      case True
      then have "tbl_get dtId (dtId r) (dbTopics d) = Some t"
        using t(1) topic.prems(1) by (simp add: tbl_get_iff tables_ok_def)
      with topic(5,2) have "dtUser t = dtUser r" by simp
      moreover have "r \<in> set (dbTopics d2)"
        using topic.prems(1) by (simp add: w n tables_ok_def set_tbl_put)
      ultimately show ?thesis using True t by metis
    next
      case False
      with t topic.prems(1) show ?thesis by (auto simp: w n tables_ok_def set_tbl_put)
    qed
  qed
next
  case (card d s d1 r t)
  note n = nextSeq_spec [OF card(1)]
  show ?case using card n set_tbl_put_subset [of dcId r "dbCards d"]
    by (fastforce simp: fk_ok_def)
next
  case (drop_topic k d t)
  then show ?case by (fastforce simp: fk_ok_def)
qed (auto simp: fk_ok_def)

lemma titles_ok_write:
  assumes "titles_ok d" "tbl_ok dtId (dbTopics d)" "writeTopic r d = Inr d'"
  shows "titles_ok d'"
proof -
  note w = writeTopic_spec [OF assms(3)]
  show ?thesis
    unfolding titles_ok_def w(1)
  proof (intro ballI impI)
    fix t t' assume m: "t \<in> set (tbl_put dtId r (dbTopics d))" "t' \<in> set (tbl_put dtId r (dbTopics d))"
      and l: "dtDeletedAt t = None" "dtDeletedAt t' = None" "dtUser t = dtUser t'" "dtTitle t = dtTitle t'"
    from m assms(2) have "t = r \<or> t \<in> set (dbTopics d) \<and> dtId t \<noteq> dtId r"
      "t' = r \<or> t' \<in> set (dbTopics d) \<and> dtId t' \<noteq> dtId r" by (simp_all add: set_tbl_put)
    then show "t = t'" using w(2) l assms(1) unfolding titles_ok_def titleTaken_def by metis
  qed
qed

lemma step_titles: "db_step u now d d' \<Longrightarrow> tables_ok d \<Longrightarrow> titles_ok d \<Longrightarrow> titles_ok d'"
proof (induction rule: db_step.induct)
  case (topic d s d1 r d2)
  note n = nextSeq_spec [OF topic(1)]
  from topic.prems n have "titles_ok d1" "tbl_ok dtId (dbTopics d1)"
    by (simp_all add: titles_ok_def tables_ok_def)
  then show ?case using topic(6) by (rule titles_ok_write)
next
  case (card d s d1 r t)
  then show ?case using nextSeq_spec [OF card(1)] by (simp add: titles_ok_def)
qed (auto simp: titles_ok_def)

lemma step_ok: "db_step u now d d' \<Longrightarrow> db_ok d \<Longrightarrow> db_ok d'"
  by (simp add: db_ok_def step_tables step_seqs step_fk step_titles)

lemma steps_ok: "db_steps u now d d' \<Longrightarrow> db_ok d \<Longrightarrow> db_ok d'"
  by (induction rule: rtranclp_induct) (auto intro: step_ok)

section \<open>The operations are sequences of writes\<close>

definition topicOwned :: "id \<Rightarrow> id \<Rightarrow> db \<Rightarrow> bool" where
  "topicOwned u k d \<longleftrightarrow> pred_option (\<lambda>t. dtUser t = u) (tbl_get dtId k (dbTopics d))"

lemma step_owned: "db_step u now d d' \<Longrightarrow> topicOwned u k d \<Longrightarrow> topicOwned u k d'"
proof (induction rule: db_step.induct)
  case (topic d s d1 r d2)
  then show ?case using nextSeq_spec(3) [OF topic(1)] writeTopic_spec(1) [OF topic(6)]
    by (simp add: topicOwned_def tbl_get_put)
next
  case (card d s d1 r t)
  then show ?case using nextSeq_spec(3) [OF card(1)] by (simp add: topicOwned_def)
next
  case (drop_topic j d t)
  then show ?case by (simp add: topicOwned_def tbl_get_del [unfolded tbl_del_def])
qed (simp_all add: topicOwned_def)

lemma steps_owned: "db_steps u now d d' \<Longrightarrow> topicOwned u k d \<Longrightarrow> topicOwned u k d'"
  by (induction rule: rtranclp_induct) (auto intro: step_owned)

definition clamped :: "ms \<Rightarrow> mutation \<Rightarrow> bool" where
  "clamped now m \<longleftrightarrow> muUpdatedAt m \<le> of_int (now + MAX_FUTURE_SKEW_MS)
     \<and> pred_option (\<lambda>t. trUpdatedAt t \<le> of_int (now + MAX_FUTURE_SKEW_MS)) (muTopic m)
     \<and> pred_option (\<lambda>c. crUpdatedAt c \<le> of_int (now + MAX_FUTURE_SKEW_MS)) (muCard m)"

lemma clamped_clampMutationTimes: "clamped now (clampMutationTimes m now)"
  using clampFutureTime_le
  by (cases "muTopic m"; cases "muCard m")
     (simp_all add: clamped_def clampMutationTimes_def clampTopic_def clampCard_def del: of_int_add)

lemma trunc_le: "r \<le> of_int n \<Longrightarrow> jsTrunc r \<le> n"
  using jsTrunc_mono [of r "of_int n"] by simp

lemma topicRecordToDb_fields:
  "topicRecordToDb H t u = Inr row \<Longrightarrow> dtId row = trId t \<and> dtUser row = u \<and> dtTitle row = trTitle t
     \<and> dtUpdatedAt row = jsTrunc (trUpdatedAt t)"
  by (auto simp: topicRecordToDb_def toDate_def split: sum.splits option.splits if_splits)

lemma cardRecordToDb_fields:
  "cardRecordToDb H c u = Inr row \<Longrightarrow> dcId row = crId c \<and> dcUser row = u \<and> dcTopic row = crTopicId c
     \<and> dcLevel row = crLevel c \<and> dcUpdatedAt row = jsTrunc (crUpdatedAt c)"
  by (auto simp: cardRecordToDb_def toDate_def split: sum.splits option.splits if_splits)

lemma skew_nonneg [simp]: "0 \<le> MAX_FUTURE_SKEW_MS"
  by (simp add: MAX_FUTURE_SKEW_MS_def)

lemma resolve_cases:
  assumes "resolveTopicTitleConflict H u k title upd now d = Inr (conflict, d')"
    and "tbl_ok dtId (dbTopics d)" "topicOwned u k d"
  obtains "d' = d"
  | loser s d1 newTitle where "loser \<in> set (dbTopics d)" "dtUser loser = u" "nextSeq u d = Inr (s, d1)"
      "writeTopic (loser\<lparr>dtTitle := newTitle, dtUpdatedAt := now, dtSeq := s\<rparr>) d1 = Inr d'"
proof -
  show ?thesis
  proof (cases "d' = d")
    case False
    then obtain ex where ex: "find (\<lambda>t. dtUser t = u \<and> dtTitle t = title \<and> dtDeletedAt t = None
        \<and> dtId t \<noteq> k) (dbTopics d) = Some ex"
      using assms(1) by (auto simp: resolveTopicTitleConflict_def split: option.splits)
    then have exu: "ex \<in> set (dbTopics d)" "dtUser ex = u" by (auto simp: find_Some_iff)
    let ?l = "if incomingWins H upd k ex then dtId ex else k"
    obtain loser where l: "tbl_get dtId ?l (dbTopics d) = Some loser"
      using assms(1) ex False by (auto simp: resolveTopicTitleConflict_def Let_def split: option.splits)
    have "dtUser loser = u"
      using l exu assms(2,3) tbl_get_iff [of dtId "dbTopics d" "dtId ex" ex]
      by (auto simp: topicOwned_def split: if_splits)
    with that(2) show ?thesis using assms(1) ex l False tbl_get_in [OF l]
      by (auto simp: resolveTopicTitleConflict_def Let_def split: sum.splits if_splits)
  qed (rule that(1))
qed

lemma owned_in: "tbl_ok dtId (dbTopics d) \<Longrightarrow> t \<in> set (dbTopics d) \<Longrightarrow> topicOwned u (dtId t) d \<longleftrightarrow> dtUser t = u"
  using tbl_get_iff [of dtId "dbTopics d" "dtId t" t] by (simp add: topicOwned_def)

lemma resolve_steps:
  assumes "resolveTopicTitleConflict H u k title upd now d = Inr (conflict, d')"
    and "tbl_ok dtId (dbTopics d)" "topicOwned u k d"
  shows "db_steps u now d d'"
  using assms
proof (cases rule: resolve_cases)
  case (2 loser s d1 newTitle)
  have "topicOwned u (dtId loser) d" using 2(1,2) assms(2) by (simp add: owned_in)
  then have "db_step u now d d'" using 2(2)
    by (intro db_step.topic [OF 2(3) _ _ _ _ 2(4)]) (simp_all add: topicOwned_def)
  then show ?thesis by blast
qed simp

lemma topicUpsert_steps:
  assumes "applyTopicUpsert H u dev m now d = Inr (conflict, d')" "db_ok d" "clamped now m"
  shows "db_steps u now d d'"
proof -
  from assms(1) obtain t where t: "muTopic m = Some t"
    by (auto simp: applyTopicUpsert_def split: option.splits)
  let ?ex = "tbl_get dtId (trId t) (dbTopics d)"
  have own: "topicOwned u (trId t) d"
    using assms(1) t by (cases ?ex) (auto simp: applyTopicUpsert_def topicOwned_def Let_def split: if_splits)
  show ?thesis
  proof (cases "d' = d")
    case False
    then obtain row d1 s d2 title where row: "topicRecordToDb H t u = Inr row"
      and res: "resolveTopicTitleConflict H u (trId t) (trTitle t) (dtUpdatedAt row) now d = Inr (conflict, d1)"
      and n: "nextSeq u d1 = Inr (s, d2)"
      and w: "writeTopic (case ?ex of None \<Rightarrow> row\<lparr>dtTitle := title, dtSeq := s\<rparr>
          | Some old \<Rightarrow> old\<lparr>dtTitle := title, dtSeq := s, dtPivot := dtPivot row,
              dtWeek := dtWeek row, dtNextUpdate := dtNextUpdate row, dtArchived := dtArchived row,
              dtUpdatedAt := dtUpdatedAt row, dtDeletedAt := None\<rparr>) d2 = Inr d'"
      using assms(1) t by (auto simp: applyTopicUpsert_def Let_def split: if_splits sum.splits prod.splits)
    have s1: "db_steps u now d d1"
      using resolve_steps [OF res _ own] assms(2) by (simp add: db_ok_def tables_ok_def)
    have own1: "topicOwned u (trId t) d1" using s1 own by (rule steps_owned)
    note f = topicRecordToDb_fields [OF row]
    have "jsTrunc (trUpdatedAt t) \<le> now + MAX_FUTURE_SKEW_MS"
      using assms(3) t by (intro trunc_le) (simp add: clamped_def)
    then have "db_step u now d1 d'"
      using own own1 f
      by (intro db_step.topic [OF n _ _ _ _ w])
         (auto simp: topicOwned_def split: option.splits dest: tbl_get_key)
    with s1 show ?thesis by (rule rtranclp.rtrancl_into_rtrancl)
  qed simp
qed

lemma cardUpsert_steps:
  assumes "applyCardUpsert H u dev m d = Inr d'" "db_ok d" "clamped now m"
  shows "db_steps u now d d'"
proof (cases "d' = d")
  case False
  with assms(1) obtain c t row s d1 where c: "muCard m = Some c"
    and t: "tbl_get dtId (crTopicId c) (dbTopics d) = Some t" "dtUser t = u"
    and own: "pred_option (\<lambda>x. dcUser x = u) (tbl_get dcId (crId c) (dbCards d))"
    and row: "cardRecordToDb H c u = Inr row" and n: "nextSeq u d = Inr (s, d1)"
    and d': "d' = writeCard (case tbl_get dcId (crId c) (dbCards d) of None \<Rightarrow> row\<lparr>dcSeq := s\<rparr>
          | Some old \<Rightarrow> old\<lparr>dcSeq := s, dcTopic := dcTopic row, dcLevel := dcLevel row,
              dcData := dcData row, dcReview := dcReview row, dcUpdatedAt := dcUpdatedAt row,
              dcDeletedAt := None\<rparr>) d1"
    by (auto simp: applyCardUpsert_def Let_def option.pred_set split: if_splits sum.splits prod.splits option.splits)
  note f = cardRecordToDb_fields [OF row]
  have "jsTrunc (crUpdatedAt c) \<le> now + MAX_FUTURE_SKEW_MS"
    using assms(3) c by (intro trunc_le) (simp add: clamped_def)
  then have "db_step u now d d'"
    unfolding d' using own f t tbl_get_key [OF t(1)]
    by (intro db_step.card [OF n _ _ _ _ tbl_get_in [OF t(1)]])
       (auto split: option.splits dest: tbl_get_key)
  then show ?thesis by blast
qed simp

lemma delete_steps:
  assumes "applyDelete u m hard now d = Inr d'" "db_ok d" "clamped now m"
  shows "db_steps u now d d'"
proof (cases "d' = d")
  case False
  let ?at = "if muUpdatedAt m = 0 then now else jsTrunc (muUpdatedAt m)"
  have dat: "?at \<le> now + MAX_FUTURE_SKEW_MS"
    using assms(3) by (auto simp: clamped_def intro!: trunc_le)
  have "db_step u now d d'"
  proof (cases "muTable m")
    case Topics
    with False assms(1) obtain row where row: "tbl_get dtId (muRecordId m) (dbTopics d) = Some row" "dtUser row = u"
      and or: "(hard \<and> d' = deleteTopics (\<lambda>t. dtId t = muRecordId m) d)
        \<or> (\<exists>s d1. nextSeq u d = Inr (s, d1)
              \<and> writeTopic (row\<lparr>dtDeletedAt := Some ?at, dtUpdatedAt := ?at, dtSeq := s\<rparr>) d1 = Inr d')"
      by (auto simp: applyDelete_def Let_def split: if_splits sum.splits prod.splits option.splits)
    from or show ?thesis
    proof (elim disjE exE conjE)
      fix s d1 assume n: "nextSeq u d = Inr (s, d1)"
        and w: "writeTopic (row\<lparr>dtDeletedAt := Some ?at, dtUpdatedAt := ?at, dtSeq := s\<rparr>) d1 = Inr d'"
      then show ?thesis using row dat tbl_get_key [OF row(1)]
        by (intro db_step.topic [OF n _ _ _ _ w]) simp_all
    qed (use row in \<open>auto intro: db_step.drop_topic\<close>)
  next
    case Cards
    with False assms(1) obtain row where row: "tbl_get dcId (muRecordId m) (dbCards d) = Some row" "dcUser row = u"
      and or: "(hard \<and> d' = deleteCards (\<lambda>t. dcId t = muRecordId m) d)
        \<or> (\<exists>s d1. nextSeq u d = Inr (s, d1)
              \<and> d' = writeCard (row\<lparr>dcDeletedAt := Some ?at, dcUpdatedAt := ?at, dcSeq := s\<rparr>) d1)"
      by (auto simp: applyDelete_def Let_def split: if_splits sum.splits prod.splits option.splits)
    from or show ?thesis
    proof (elim disjE exE conjE)
      fix s d1 assume n: "nextSeq u d = Inr (s, d1)"
        and w: "d' = writeCard (row\<lparr>dcDeletedAt := Some ?at, dcUpdatedAt := ?at, dcSeq := s\<rparr>) d1"
      from row assms(2) obtain t where "t \<in> set (dbTopics d)" "dtId t = dcTopic row" "dtUser t = u"
        using tbl_get_in [OF row(1)] by (auto simp: db_ok_def fk_ok_def)
      then show ?thesis unfolding w using row dat tbl_get_key [OF row(1)]
        by (intro db_step.card [OF n _ _ _ _ _, where t = t]) simp_all
    qed (use row in \<open>auto intro: db_step.drop_card\<close>)
  qed
  then show ?thesis by blast
qed simp

lemma apply_steps:
  assumes "applyMutationWithMark H u dev m hard now d = Inr (conflict, d')" "db_ok d" "clamped now m"
  shows "db_steps u now d d'"
proof -
  from assms(1) obtain d1 where d': "d' = markOpApplied u (muOpId m) dev now d1"
    and d1: "applyDelete u m hard now d = Inr d1 \<or> applyTopicUpsert H u dev m now d = Inr (conflict, d1)
      \<or> applyCardUpsert H u dev m d = Inr d1"
    by (auto simp: applyMutationWithMark_def split: sum.splits prod.splits sync_operation.splits sync_table.splits)
  from d1 have "db_steps u now d d1"
    by (elim disjE)
       (erule delete_steps [OF _ assms(2,3)] topicUpsert_steps [OF _ assms(2,3)]
          cardUpsert_steps [OF _ assms(2,3)])+
  then show ?thesis unfolding d' by (rule rtranclp.rtrancl_into_rtrancl) (rule db_step.mark)
qed

end
