(* ===== verification/Lww.thy ===== *)
theory Lww
  imports Prelude
begin

text \<open>
  Last-write-wins as an abstract contract. Three places of the program decide whether an
  incoming record replaces a stored one by comparing timestamps: the client
  (\<open>shouldApplyRemote\<close>), the sync server (\<open>shouldApplyIncoming\<close>) and the settings service
  (\<open>shouldApplySettingsLww\<close>). The locale \<open>lww_register\<close> states what the three share, and the
  lemmas proved once inside it say what a replica that follows the rule ends up with; \<open>lww_rule\<close>
  is the case of the first two, which look at the times only.
\<close>

text \<open>
  A write is a time and a value; a register holds at most one write. The rule sees both writes
  whole, so it may break ties by the value.
\<close>

definition reg_step :: "(('t \<times> 'v) option \<Rightarrow> 't \<times> 'v \<Rightarrow> bool) \<Rightarrow> 't \<times> 'v \<Rightarrow> ('t \<times> 'v) option \<Rightarrow> ('t \<times> 'v) option" where
  "reg_step acc w cur = (if acc cur w then Some w else cur)"

definition reg_run :: "(('t \<times> 'v) option \<Rightarrow> 't \<times> 'v \<Rightarrow> bool) \<Rightarrow> ('t \<times> 'v) list \<Rightarrow> ('t \<times> 'v) option \<Rightarrow> ('t \<times> 'v) option" where
  "reg_run acc ws cur = fold (reg_step acc) ws cur"

lemma reg_run_Nil [simp]: "reg_run acc [] cur = cur"
  by (simp add: reg_run_def)

lemma reg_run_Cons [simp]: "reg_run acc (w # ws) cur = reg_run acc ws (reg_step acc w cur)"
  by (simp add: reg_run_def)

locale lww_register =
  fixes acc :: "('t::linorder \<times> 'v) option \<Rightarrow> 't \<times> 'v \<Rightarrow> bool"
  assumes empty: "acc None w"
    and later: "fst c < fst w \<Longrightarrow> acc (Some c) w"
    and earlier: "fst w < fst c \<Longrightarrow> \<not> acc (Some c) w"
begin

lemma step_cases: "reg_step acc w cur = Some w \<or> reg_step acc w cur = cur"
  by (simp add: reg_step_def)

lemma step_some: "\<exists>u. reg_step acc w cur = Some u"
  by (cases cur) (auto simp: reg_step_def empty)

lemma step_ge:
  assumes "reg_step acc w cur = Some u"
  shows "fst w \<le> fst u" "cur = Some c \<Longrightarrow> fst c \<le> fst u"
proof -
  have "fst w \<le> fst u \<and> (\<forall>c. cur = Some c \<longrightarrow> fst c \<le> fst u)"
  proof (cases cur)
    case None
    with assms show ?thesis by (simp add: reg_step_def empty)
  next
    case (Some c)
    then show ?thesis using assms later [of c w] earlier [of w c]
      by (cases "acc (Some c) w") (auto simp: reg_step_def not_less [symmetric])
  qed
  then show "fst w \<le> fst u" "cur = Some c \<Longrightarrow> fst c \<le> fst u" by blast+
qed

lemma run_ge: "reg_run acc ws (Some c) = Some u \<Longrightarrow> fst c \<le> fst u"
proof (induction ws arbitrary: c)
  case (Cons w ws)
  obtain d where d: "reg_step acc w (Some c) = Some d" using step_some by blast
  with Cons.prems have "fst d \<le> fst u" by (intro Cons.IH) simp
  moreover have "fst c \<le> fst d" using step_ge(2) [OF d] by simp
  ultimately show ?case by simp
qed simp

lemma run_some: "ws \<noteq> [] \<or> cur \<noteq> None \<Longrightarrow> \<exists>u. reg_run acc ws cur = Some u"
proof (induction ws arbitrary: cur)
  case (Cons w ws)
  have "reg_step acc w cur \<noteq> None" using step_some by (metis option.distinct(1))
  then show ?case using Cons.IH by simp
qed auto

lemma run_upper:
  assumes "reg_run acc ws cur = Some u" "w \<in> set ws"
  shows "fst w \<le> fst u"
  using assms
proof (induction ws arbitrary: cur)
  case (Cons v ws)
  obtain d where d: "reg_step acc v cur = Some d" using step_some by blast
  show ?case
  proof (cases "w = v")
    case True
    with d have "fst w \<le> fst d" using step_ge(1) by blast
    also have "fst d \<le> fst u" using Cons.prems(1) d by (auto intro: run_ge)
    finally show ?thesis .
  next
    case False
    with Cons show ?thesis by auto
  qed
qed simp

lemma run_mem: "reg_run acc ws cur = Some u \<Longrightarrow> u \<in> set ws \<or> cur = Some u"
proof (induction ws arbitrary: cur)
  case (Cons w ws)
  then have "u \<in> set ws \<or> reg_step acc w cur = Some u" by simp
  then show ?case using step_cases [of w cur] by auto
qed simp

text \<open>The survivor is the newest write, so delivery order does not matter.\<close>

lemma run_newest:
  assumes "reg_run acc ws None = Some u"
  shows "u \<in> set ws \<and> (\<forall>w \<in> set ws. fst w \<le> fst u)"
  using run_mem [OF assms] run_upper [OF assms] by simp

lemma run_order_independent:
  assumes same: "set xs = set ys" and inj: "inj_on fst (set xs)"
  shows "reg_run acc xs None = reg_run acc ys None"
proof (cases "xs = []")
  case True
  with same show ?thesis by simp
next
  case False
  with same have "ys \<noteq> []" by auto
  with False obtain u v where u: "reg_run acc xs None = Some u" and v: "reg_run acc ys None = Some v"
    using run_some by blast
  from run_newest [OF u] run_newest [OF v] same have "fst u = fst v" "u \<in> set xs" "v \<in> set xs"
    by (auto intro: antisym)
  with inj have "u = v" by (auto dest: inj_onD)
  with u v show ?thesis by simp
qed

text \<open>A register that holds a write is one that received it first.\<close>

lemma run_from: "reg_run acc ws (Some c) = reg_run acc (c # ws) None"
  by (simp add: reg_step_def empty)

end

section \<open>Rules that compare times only\<close>

definition lww_step :: "('t option \<Rightarrow> 't \<Rightarrow> bool) \<Rightarrow> 't \<times> 'v \<Rightarrow> ('t \<times> 'v) option \<Rightarrow> ('t \<times> 'v) option" where
  "lww_step acc w cur = (if acc (map_option fst cur) (fst w) then Some w else cur)"

definition lww_run :: "('t option \<Rightarrow> 't \<Rightarrow> bool) \<Rightarrow> ('t \<times> 'v) list \<Rightarrow> ('t \<times> 'v) option \<Rightarrow> ('t \<times> 'v) option" where
  "lww_run acc ws cur = fold (lww_step acc) ws cur"

definition by_time :: "('t option \<Rightarrow> 't \<Rightarrow> bool) \<Rightarrow> ('t \<times> 'v) option \<Rightarrow> 't \<times> 'v \<Rightarrow> bool" where
  "by_time acc cur w = acc (map_option fst cur) (fst w)"

lemma lww_step_reg: "lww_step acc = reg_step (by_time acc)"
  by (intro ext) (simp add: lww_step_def reg_step_def by_time_def)

lemma lww_run_reg: "lww_run acc = reg_run (by_time acc)"
  by (intro ext) (simp add: lww_run_def reg_run_def lww_step_reg)

lemma lww_run_Nil [simp]: "lww_run acc [] cur = cur"
  by (simp add: lww_run_def)

lemma lww_run_Cons [simp]: "lww_run acc (w # ws) cur = lww_run acc ws (lww_step acc w cur)"
  by (simp add: lww_run_def)

lemma lww_run_append: "lww_run acc (xs @ ys) cur = lww_run acc ys (lww_run acc xs cur)"
  by (simp add: lww_run_def)

locale lww_rule =
  fixes accepts :: "'t::linorder option \<Rightarrow> 't \<Rightarrow> bool"
  assumes absent: "accepts None t"
    and newer: "s < t \<Longrightarrow> accepts (Some s) t"
    and older: "t < s \<Longrightarrow> \<not> accepts (Some s) t"

sublocale lww_rule \<subseteq> register: lww_register "by_time accepts"
  by unfold_locales (simp_all add: by_time_def absent newer older)

context lww_rule
begin

lemmas step_cases = register.step_cases [folded lww_step_reg]
lemmas step_some = register.step_some [folded lww_step_reg]
lemmas step_ge = register.step_ge [folded lww_step_reg]
lemmas run_ge = register.run_ge [folded lww_run_reg]
lemmas run_some = register.run_some [folded lww_run_reg]
lemmas run_upper = register.run_upper [folded lww_run_reg]
lemmas run_mem = register.run_mem [folded lww_run_reg]
lemmas run_newest = register.run_newest [folded lww_run_reg]
lemmas run_order_independent = register.run_order_independent [folded lww_run_reg]

end

text \<open>A rule that also refuses ties never rewrites what it holds when a delivery repeats.\<close>

locale lww_strict = lww_rule +
  assumes tie: "\<not> accepts (Some s) s"
begin

lemma accepts_iff: "accepts cur t \<longleftrightarrow> (case cur of None \<Rightarrow> True | Some s \<Rightarrow> s < t)"
  by (cases cur) (auto simp: absent newer tie, metis linorder_cases older tie)

lemma run_settled:
  "(\<And>w. w \<in> set ws \<Longrightarrow> fst w \<le> fst c) \<Longrightarrow> lww_run accepts ws (Some c) = Some c"
  by (induction ws) (auto simp: lww_step_def accepts_iff leD)

lemma run_replay: "lww_run accepts (ws @ ws) cur = lww_run accepts ws cur"
proof (cases "lww_run accepts ws cur")
  case None
  then have "ws = []" using run_some by (metis option.distinct(1))
  then show ?thesis by simp
next
  case (Some u)
  then have "\<And>w. w \<in> set ws \<Longrightarrow> fst w \<le> fst u" by (rule run_upper)
  with Some show ?thesis by (simp add: lww_run_append run_settled)
qed

end

end
