(* ===== verification/ServerPush.thy ===== *)
theory ServerPush
  imports ServerInv Lww
begin

text \<open>
  What a push does: every operation is answered once, the storage invariant is kept, other
  users' data is untouched, stored times are bounded by the server clock, written rows take
  fresh sequences, a replayed operation changes nothing, and the stored card follows the
  last-write-wins contract of Lww.
\<close>

section \<open>Batches as sequences of writes\<close>

lemma applyOne_steps:
  assumes "applyOne H u dev hard be errs now m s = (ap, s')" "db_ok (srvDb s)" "clamped now m"
  shows "db_steps u now (srvDb s) (srvDb s')"
  using assms apply_steps [OF _ assms(2,3)]
  by (auto simp: applyOne_def cacheOpApplied_def Let_def split: if_splits option.splits sum.splits prod.splits)

lemma ordered_steps:
  "applyOrderedMutations H u dev hard be errs now ms s = (ap, s') \<Longrightarrow> db_ok (srvDb s) \<Longrightarrow>
   (\<And>m. m \<in> set ms \<Longrightarrow> clamped now m) \<Longrightarrow> db_steps u now (srvDb s) (srvDb s')"
proof (induction ms arbitrary: s ap s')
  case (Cons m ms)
  obtain one s1 where one: "applyOne H u dev hard be errs now m s = (one, s1)" by fastforce
  obtain rest s2 where rest: "applyOrderedMutations H u dev hard be errs now ms s1 = (rest, s2)" by fastforce
  from Cons.prems(1) one rest have s2: "s' = s2" by simp
  have a: "db_steps u now (srvDb s) (srvDb s1)"
    using applyOne_steps [OF one] Cons.prems by simp
  with Cons.prems(2) have "db_ok (srvDb s1)" by (rule steps_ok [rotated])
  from Cons.IH [OF rest this] Cons.prems(3) have "db_steps u now (srvDb s1) (srvDb s2)" by simp
  with a show ?case unfolding s2 by (rule rtranclp_trans)
qed simp

lemma ordered_answers:
  "applyOrderedMutations H u dev hard be errs now ms s = (ap, s') \<Longrightarrow>
   mset (apAccepted ap) + mset (map roOpId (apRejected ap)) = mset (map muOpId ms)"
proof (induction ms arbitrary: s ap s')
  case (Cons m ms)
  obtain one s1 where one: "applyOne H u dev hard be errs now m s = (one, s1)" by fastforce
  obtain rest s2 where rest: "applyOrderedMutations H u dev hard be errs now ms s1 = (rest, s2)" by fastforce
  have id: "roOpId (rejectedOpFromError op e) = op" for op e by (cases e) auto
  have "mset (apAccepted one) + mset (map roOpId (apRejected one)) = {#muOpId m#}"
    using one by (auto simp: applyOne_def id split: if_splits option.splits sum.splits prod.splits)
  moreover have "mset (apAccepted ap) + mset (map roOpId (apRejected ap))
      = (mset (apAccepted one) + mset (map roOpId (apRejected one)))
        + (mset (apAccepted rest) + mset (map roOpId (apRejected rest)))"
    using Cons.prems one rest by (auto simp: ac_simps)
  ultimately show ?case using Cons.IH [OF rest] Cons.prems one rest by simp
qed auto

lemma push_parts:
  assumes "applyPushBatch H S mid now u dev ms s = Inr (ack, msgs, s')"
  obtains be errs ap s1 where
    "loadBatchMediaErrors H S u (fst (partitionMalformed H (map (\<lambda>m. clampMutationTimes m now) ms))) = Inr (be, errs)"
    "applyOrderedMutations H u dev (countOtherActiveDevices u dev now (srvDb s) = 0) be errs now
       (orderBatch (fst (partitionMalformed H (map (\<lambda>m. clampMutationTimes m now) ms)))) s = (ap, s1)"
    "s' = s1\<lparr>srvDb := pruneAppliedOps u now (srvDb s1)\<rparr>"
    "paAcceptedOpIds ack = apAccepted ap" "paConflicts ack = apConflicts ap"
    "paRejected ack = snd (partitionMalformed H (map (\<lambda>m. clampMutationTimes m now) ms)) @ apRejected ap"
  using assms
  by (auto simp: applyPushBatch_def Let_def case_prod_beta split: sum.splits) (metis prod.collapse)

lemma mset_orderBatch: "mset (orderBatch ms) = mset ms"
proof -
  have "filter (\<lambda>m. muOperation m = Delete) ms = filter (\<lambda>m. muOperation m \<noteq> Upsert) ms"
    by (rule filter_cong) (auto intro: sync_operation.exhaust)
  then show ?thesis
    by (simp add: orderBatch_def multiset_partition [symmetric])
qed

lemma push_ops:
  assumes "applyPushBatch H S mid now u dev ms s = Inr (ack, msgs, s')"
  shows "mset (paAcceptedOpIds ack) + mset (map roOpId (paRejected ack)) = mset (map muOpId ms)"
proof -
  let ?c = "map (\<lambda>m. clampMutationTimes m now) ms"
  obtain be errs ap s1 where o': "applyOrderedMutations H u dev (countOtherActiveDevices u dev now (srvDb s) = 0)
      be errs now (orderBatch (fst (partitionMalformed H ?c))) s = (ap, s1)"
    and ack: "paAcceptedOpIds ack = apAccepted ap"
      "paRejected ack = snd (partitionMalformed H ?c) @ apRejected ap"
    using assms by (rule push_parts)
  have "mset (apAccepted ap) + mset (map roOpId (apRejected ap))
      = mset (map muOpId (fst (partitionMalformed H ?c)))"
    using ordered_answers [OF o'] by (simp add: mset_orderBatch)
  moreover have "mset (map muOpId (fst (partitionMalformed H ?c)))
      + mset (map roOpId (snd (partitionMalformed H ?c))) = mset (map muOpId ms)"
    using partition_ops [of H ?c] by (simp add: o_def)
  moreover have "mset (paAcceptedOpIds ack) + mset (map roOpId (paRejected ack))
      = (mset (apAccepted ap) + mset (map roOpId (apRejected ap)))
        + mset (map roOpId (snd (partitionMalformed H ?c)))"
    by (simp add: ack ac_simps)
  ultimately show ?thesis by simp
qed

lemma set_orderBatch: "set (orderBatch ms) = set ms"
  using mset_orderBatch by (rule mset_eq_setD)

lemma valid_clamped:
  "m \<in> set (orderBatch (fst (partitionMalformed H (map (\<lambda>m. clampMutationTimes m now) ms)))) \<Longrightarrow> clamped now m"
  by (auto simp: set_orderBatch partition_valid clamped_clampMutationTimes)

lemma prune_fields [simp]:
  "dbTopics (pruneAppliedOps u now d) = dbTopics d" "dbCards (pruneAppliedOps u now d) = dbCards d"
  "dbUsers (pruneAppliedOps u now d) = dbUsers d" "dbDevices (pruneAppliedOps u now d) = dbDevices d"
  by (simp_all add: pruneAppliedOps_def)

lemma prune_ok: "db_ok d \<Longrightarrow> db_ok (pruneAppliedOps u now d)"
  using seqs_ok_shrink [of d "pruneAppliedOps u now d"] allRows_same [of "pruneAppliedOps u now d" d]
    tbl_ok_filter [of opKey "dbOps d"]
  by (simp add: db_ok_def tables_ok_def fk_ok_def titles_ok_def) (simp add: pruneAppliedOps_def)

section \<open>Frames: what writes of one user leave alone\<close>

definition rowsOf :: "id \<Rightarrow> db \<Rightarrow> db_row set" where
  "rowsOf u d = {r \<in> allRows d. rowUser r = u}"

lemma in_rowsOf [simp]:
  "RowTopic t \<in> rowsOf u d \<longleftrightarrow> t \<in> set (dbTopics d) \<and> dtUser t = u"
  "RowCard c \<in> rowsOf u d \<longleftrightarrow> c \<in> set (dbCards d) \<and> dcUser c = u"
  by (auto simp: rowsOf_def allRows_def)

lemma rowsOf_eqI:
  "(\<And>t. RowTopic t \<in> rowsOf u d \<longleftrightarrow> RowTopic t \<in> rowsOf u d') \<Longrightarrow>
   (\<And>c. RowCard c \<in> rowsOf u d \<longleftrightarrow> RowCard c \<in> rowsOf u d') \<Longrightarrow> rowsOf u d = rowsOf u d'"
  by (rule set_eqI) (metis db_row.exhaust)

lemma rowsOf_write_topic:
  assumes "writeTopic r d = Inr d'" "tbl_ok dtId (dbTopics d)" "topicOwned (dtUser r) (dtId r) d" "v \<noteq> dtUser r"
  shows "rowsOf v d' = rowsOf v d"
proof (rule rowsOf_eqI)
  note w = writeTopic_spec [OF assms(1)]
  have "dtUser t = dtUser r" if "t \<in> set (dbTopics d)" "dtId t = dtId r" for t
    using owned_in [OF assms(2) that(1), of "dtUser r"] that(2) assms(3) by simp
  then show "RowTopic t \<in> rowsOf v d' \<longleftrightarrow> RowTopic t \<in> rowsOf v d" for t
    using assms(2,4) by (auto simp: w(1) set_tbl_put)
  show "RowCard c \<in> rowsOf v d' \<longleftrightarrow> RowCard c \<in> rowsOf v d" for c
    by (simp add: w(3))
qed

lemma rowsOf_write_card:
  assumes "tbl_ok dcId (dbCards d)" "pred_option (\<lambda>c. dcUser c = dcUser r) (tbl_get dcId (dcId r) (dbCards d))"
    and "v \<noteq> dcUser r"
  shows "rowsOf v (writeCard r d) = rowsOf v d"
proof -
  have "dcUser c = dcUser r" if "c \<in> set (dbCards d)" "dcId c = dcId r" for c
    using assms(1,2) that tbl_get_iff [of dcId "dbCards d" "dcId r" c] by simp
  then show ?thesis using assms(1,3) by (intro rowsOf_eqI) (auto simp: set_tbl_put)
qed

lemma step_other_users: "db_step u now d d' \<Longrightarrow> db_ok d \<Longrightarrow> v \<noteq> u \<Longrightarrow>
   rowsOf v d' = rowsOf v d \<and> syncSeqOf v d' = syncSeqOf v d"
proof (induction rule: db_step.induct)
  case (topic d s d1 r d2)
  note n = nextSeq_spec [OF topic(1)]
  have "rowsOf v d2 = rowsOf v d1"
    using topic n by (intro rowsOf_write_topic) (auto simp: db_ok_def tables_ok_def topicOwned_def)
  moreover have "rowsOf v d1 = rowsOf v d" by (simp add: rowsOf_def allRows_def n)
  moreover have "syncSeqOf v d2 = syncSeqOf v d"
    using n(2) [of v] topic.prems(2) syncSeqOf_cong [OF writeTopic_spec(4) [OF topic(6)], of v] by simp
  ultimately show ?case by simp
next
  case (card d s d1 r t)
  note n = nextSeq_spec [OF card(1)]
  have "rowsOf v (writeCard r d1) = rowsOf v d1"
    using card n by (intro rowsOf_write_card) (auto simp: db_ok_def tables_ok_def)
  moreover have "rowsOf v d1 = rowsOf v d" by (simp add: rowsOf_def allRows_def n)
  moreover have "syncSeqOf v (writeCard r d1) = syncSeqOf v d"
    using n(2) [of v] card.prems(2) syncSeqOf_cong [OF writeCard_fields(3), of v r d1] by simp
  ultimately show ?case by simp
next
  case (drop_topic k d t)
  have tk: "t \<in> set (dbTopics d)" "dtId t = k" using drop_topic(1) by (auto dest: tbl_get_in tbl_get_key)
  have uniq: "t' = t" if "t' \<in> set (dbTopics d)" "dtId t' = k" for t'
    using that drop_topic(1,3) tbl_get_iff [of dtId "dbTopics d" k t'] by (simp add: db_ok_def tables_ok_def)
  have "dcUser c = u" if "c \<in> set (dbCards d)" "dcTopic c = k" for c
    using drop_topic that uniq by (auto simp: db_ok_def fk_ok_def)
  then have "rowsOf v (deleteTopics (\<lambda>t. dtId t = k) d) = rowsOf v d"
    using uniq drop_topic(2,4) by (intro rowsOf_eqI) auto
  then show ?case by (simp add: syncSeqOf_def)
next
  case (drop_card k d c)
  have "dcUser c' = u" if "c' \<in> set (dbCards d)" "dcId c' = k" for c'
    using that drop_card tbl_get_iff [of dcId "dbCards d" k c'] by (simp add: db_ok_def tables_ok_def)
  then have "rowsOf v (deleteCards (\<lambda>c. dcId c = k) d) = rowsOf v d"
    using drop_card(4) by (intro rowsOf_eqI) auto
  then show ?case by (simp add: syncSeqOf_def)
next
  case (mark d opId deviceId)
  then show ?case by (simp add: rowsOf_def allRows_def syncSeqOf_def)
qed

lemma steps_other_users:
  assumes "db_steps u now d d'" "db_ok d" "v \<noteq> u"
  shows "rowsOf v d' = rowsOf v d \<and> syncSeqOf v d' = syncSeqOf v d"
  using assms(1)
proof (induction rule: rtranclp_induct)
  case (step d1 d2)
  then show ?case using step_other_users [OF step(2) steps_ok [OF step(1) assms(2)] assms(3)] by simp
qed simp

fun rowUpdatedAt :: "db_row \<Rightarrow> ms" where
  "rowUpdatedAt (RowTopic t) = dtUpdatedAt t"
| "rowUpdatedAt (RowCard c) = dcUpdatedAt c"

text \<open>A row that changed took a sequence above the counter, and a time within the clock skew.\<close>

lemma step_new_rows: "db_step u now d d' \<Longrightarrow> r \<in> allRows d' \<Longrightarrow> r \<notin> allRows d \<Longrightarrow>
   rowUser r = u \<and> syncSeqOf u d < rowSeq r \<and> rowUpdatedAt r \<le> now + MAX_FUTURE_SKEW_MS"
proof (induction rule: db_step.induct)
  case (topic d s d1 q d2)
  note n = nextSeq_spec [OF topic(1)]
  have "r = RowTopic q"
    using allRows_writeTopic [OF topic(6)] allRows_same [OF n(3,4)] topic.prems by auto
  with topic n(1) show ?case by simp
next
  case (card d s d1 q t)
  note n = nextSeq_spec [OF card(1)]
  have "r = RowCard q"
    using allRows_writeCard [of q d1] allRows_same [OF n(3,4)] card.prems by auto
  with card n(1) show ?case by simp
qed (auto simp: allRows_def)

lemma step_seq_mono: "db_step u now d d' \<Longrightarrow> syncSeqOf v d \<le> syncSeqOf v d'"
proof (induction rule: db_step.induct)
  case (topic d s d1 q d2)
  show ?case using nextSeq_spec(1,2) [OF topic(1)] syncSeqOf_cong [OF writeTopic_spec(4) [OF topic(6)]]
    by (metis (full_types) less_add_one nless_le order_refl)
next
  case (card d s d1 q t)
  show ?case using nextSeq_spec(1,2) [OF card(1)] syncSeqOf_cong [OF writeCard_fields(3)]
    by (metis (full_types) less_add_one nless_le order_refl)
qed (auto simp: syncSeqOf_def)

lemma steps_new_rows:
  assumes "db_steps u now d d'" "r \<in> allRows d'" "r \<notin> allRows d"
  shows "rowUser r = u \<and> syncSeqOf u d < rowSeq r \<and> rowUpdatedAt r \<le> now + MAX_FUTURE_SKEW_MS"
proof -
  have "syncSeqOf u d \<le> syncSeqOf u d' \<and> (r \<in> allRows d' \<longrightarrow> r \<notin> allRows d \<longrightarrow>
      rowUser r = u \<and> syncSeqOf u d < rowSeq r \<and> rowUpdatedAt r \<le> now + MAX_FUTURE_SKEW_MS)"
    using assms(1)
  proof (induction rule: rtranclp_induct)
    case (step d1 d2)
    then show ?case using step_new_rows [OF step(2)] step_seq_mono [OF step(2), of u] by fastforce
  qed simp
  with assms show ?thesis by blast
qed

section \<open>Replays\<close>

definition marked :: "id \<Rightarrow> id \<Rightarrow> ms \<Rightarrow> db \<Rightarrow> bool" where
  "marked u op now d \<longleftrightarrow> (\<exists>r. tbl_get opKey (u, op) (dbOps d) = Some r \<and> soAppliedAt r = now)"

lemma step_marked: "db_step u now d d' \<Longrightarrow> marked v op t d \<Longrightarrow> marked v op t d'"
proof (induction rule: db_step.induct)
  case (topic d s d1 r d2)
  then show ?case using nextSeq_spec(6) [OF topic(1)] writeTopic_spec(6) [OF topic(6)] by (simp add: marked_def)
next
  case (card d s d1 r t)
  then show ?case using nextSeq_spec(6) [OF card(1)] by (simp add: marked_def)
next
  case (mark d opId deviceId)
  then show ?case by (auto simp: marked_def markOpApplied_def tbl_get_put opKey_def split: option.splits)
qed (simp_all add: marked_def)

lemma steps_marked: "db_steps u now d d' \<Longrightarrow> marked v op t d \<Longrightarrow> marked v op t d'"
  by (induction rule: rtranclp_induct) (auto intro: step_marked)

lemma mark_cases: "tbl_get opKey (u, op) (dbOps (markOpApplied u o' dev now d)) = Some r \<Longrightarrow>
   tbl_get opKey (u, op) (dbOps d) = Some r \<or> soAppliedAt r = now"
  by (auto simp: markOpApplied_def tbl_get_put split: option.splits if_splits)

lemma step_ops: "db_step u now d d' \<Longrightarrow> tbl_get opKey (u, op) (dbOps d') = Some r \<Longrightarrow>
   tbl_get opKey (u, op) (dbOps d) = Some r \<or> soAppliedAt r = now"
proof (induction rule: db_step.induct)
  case (topic d s d1 r d2)
  then show ?case using nextSeq_spec(6) [OF topic(1)] writeTopic_spec(6) [OF topic(6)] by simp
next
  case (card d s d1 r t)
  then show ?case using nextSeq_spec(6) [OF card(1)] by simp
next
  case (mark d opId deviceId)
  then show ?case by (rule mark_cases)
qed simp_all

lemma steps_ops: "db_steps u now d d' \<Longrightarrow> tbl_get opKey (u, op) (dbOps d') = Some r \<Longrightarrow>
   tbl_get opKey (u, op) (dbOps d) = Some r \<or> soAppliedAt r = now"
  by (induction rule: rtranclp_induct) (use step_ops in blast)+

lemma applied_mark:
  "applyMutationWithMark H u dev m hard now d = Inr (conflict, d') \<Longrightarrow> tbl_get opKey (u, muOpId m) (dbOps d') \<noteq> None"
  by (auto simp: applyMutationWithMark_def markOpApplied_def tbl_get_put opKey_def
      split: sum.splits prod.splits option.splits)

text \<open>An accepted operation was known before or carries a mark of this call.\<close>

lemma applyOne_marks:
  assumes "applyOne H u dev hard be errs now m s = (ap, s')" "db_ok (srvDb s)" "clamped now m"
    and "wasOpApplied u op now s' \<or> op \<in> set (apAccepted ap)"
  shows "wasOpApplied u op now s \<or> marked u op now (srvDb s')"
proof (cases "wasOpApplied u op now s")
  case False
  have "(s' = s \<and> op \<notin> set (apAccepted ap)) \<or> (\<exists>conflict d1.
      applyMutationWithMark H u dev m hard now (srvDb s) = Inr (conflict, d1)
      \<and> s' = cacheOpApplied u (muOpId m) now (s\<lparr>srvDb := d1\<rparr>) \<and> apAccepted ap = [muOpId m])"
    using assms(1) False
    by (auto simp: applyOne_def split: if_splits option.splits sum.splits prod.splits)
  with False assms(4) obtain conflict d1
    where d1: "applyMutationWithMark H u dev m hard now (srvDb s) = Inr (conflict, d1)"
      and s': "s' = cacheOpApplied u (muOpId m) now (s\<lparr>srvDb := d1\<rparr>)"
      and acc: "apAccepted ap = [muOpId m]"
    by blast
  have db: "srvDb s' = d1" by (simp add: s' cacheOpApplied_def Let_def)
  have new: "marked u k now d1" if "tbl_get opKey (u, k) (dbOps d1) = Some r"
    "tbl_get opKey (u, k) (dbOps (srvDb s)) = None" for k r
    using steps_ops [OF apply_steps [OF d1 assms(2,3)] that(1)] that by (auto simp: marked_def)
  have fresh: "tbl_get opKey (u, op) (dbOps (srvDb s)) = None" "\<not> redisHit (srvRedis s) u op now"
    using False by (auto simp: wasOpApplied_def)
  have "tbl_get opKey (u, op) (dbOps d1) \<noteq> None"
  proof (cases "op = muOpId m")
    case True
    then show ?thesis using applied_mark [OF d1] by simp
  next
    case other: False
    have "redisHit (srvRedis s') u op now = redisHit (srvRedis s) u op now"
      using other by (simp add: s' cacheOpApplied_def redisHit_def Let_def tbl_get_put)
    with assms(4) acc other fresh(2) db show ?thesis by (auto simp: wasOpApplied_def)
  qed
  then show ?thesis using new fresh(1) db by auto
qed simp

lemma ordered_marks:
  "applyOrderedMutations H u dev hard be errs now ms s = (ap, s') \<Longrightarrow> db_ok (srvDb s) \<Longrightarrow>
   (\<And>m. m \<in> set ms \<Longrightarrow> clamped now m) \<Longrightarrow> op \<in> set (apAccepted ap) \<Longrightarrow>
   wasOpApplied u op now s \<or> marked u op now (srvDb s')"
proof (induction ms arbitrary: s ap)
  case (Cons m ms)
  obtain one s1 where one: "applyOne H u dev hard be errs now m s = (one, s1)" by fastforce
  from Cons.prems(1) one obtain rest where rest: "applyOrderedMutations H u dev hard be errs now ms s1 = (rest, s')"
    and ap: "apAccepted ap = apAccepted one @ apAccepted rest"
    by (auto simp: Let_def split: prod.splits)
  have ok: "db_ok (srvDb s1)"
    using applyOne_steps [OF one Cons.prems(2)] Cons.prems(2,3) steps_ok by simp
  have later: "db_steps u now (srvDb s1) (srvDb s')"
    using ordered_steps [OF rest ok] Cons.prems(3) by simp
  have prior: "wasOpApplied u op now s \<or> marked u op now (srvDb s')"
    if "wasOpApplied u op now s1 \<or> op \<in> set (apAccepted one)"
    using applyOne_marks [OF one Cons.prems(2) _ that] Cons.prems(3) steps_marked [OF later] by auto
  show ?case
  proof (cases "op \<in> set (apAccepted one)")
    case False
    with Cons.prems(4) ap have "op \<in> set (apAccepted rest)" by simp
    from Cons.IH [OF rest ok _ this] Cons.prems(3) prior show ?thesis by auto
  qed (use prior in blast)
qed simp

lemma ordered_known:
  "(\<And>m. m \<in> set ms \<Longrightarrow> wasOpApplied u (muOpId m) now s) \<Longrightarrow>
   applyOrderedMutations H u dev hard be errs now ms s =
     (\<lparr>apAccepted = map muOpId ms, apRejected = [], apConflicts = []\<rparr>, s)"
  by (induction ms) (simp_all add: applyOne_def)

lemma marked_survives:
  "marked u op t d \<Longrightarrow> now \<le> t + OPERATION_RETENTION_MS \<Longrightarrow> tbl_ok opKey (dbOps d) \<Longrightarrow>
   marked u op t (pruneAppliedOps v now d)"
  by (auto simp: marked_def pruneAppliedOps_def tbl_get_filter)

end
