(* ===== verification/ServerLww.thy ===== *)
theory ServerLww
  imports ServerPush
begin

text \<open>
  The server's card writes against the last-write-wins contract: \<open>shouldApplyIncoming\<close> is an
  \<open>lww_rule\<close>, applying an upsert is one step of the abstract register, and so the card a set of
  edits leaves does not depend on the order in which their pushes arrive.
\<close>

definition serverAccepts :: "host \<Rightarrow> id \<Rightarrow> id \<Rightarrow> ms option \<Rightarrow> ms \<Rightarrow> bool" where
  "serverAccepts H k dev cur t =
     shouldApplyIncoming H (map_option of_int cur) None (Some k) (of_int t) dev k"

interpretation server_lww: lww_rule "serverAccepts H k dev" for H k dev
  by unfold_locales (simp_all add: serverAccepts_def shouldApplyIncoming_def)

type_synonym card_payload = "id \<times> int \<times> jsv \<times> int option \<times> ms option"

definition cardState :: "id \<Rightarrow> db \<Rightarrow> (ms \<times> card_payload) option" where
  "cardState k d = map_option (\<lambda>r. (dcUpdatedAt r, dcTopic r, dcLevel r, dcData r, dcReview r, dcDeletedAt r))
     (tbl_get dcId k (dbCards d))"

definition reviewOf :: "card_record \<Rightarrow> int option" where
  "reviewOf c = (case crReviewDate c of None \<Rightarrow> None | Some r \<Rightarrow> if r = 0 then None else Some \<lfloor>r\<rfloor>)"

definition cardWrite :: "host \<Rightarrow> card_record \<Rightarrow> ms \<times> card_payload" where
  "cardWrite H c = (jsTrunc (crUpdatedAt c), crTopicId c, crLevel c, the (jsonParse H (crDataJson c)),
     reviewOf c, None)"

text \<open>A well-formed card upsert of user \<open>u\<close> for card \<open>k\<close>, as a client sends it.\<close>

definition cardEdit :: "host \<Rightarrow> id \<Rightarrow> id \<Rightarrow> db \<Rightarrow> mutation \<Rightarrow> bool" where
  "cardEdit H u k d m \<longleftrightarrow> (\<exists>c t. muCard m = Some c \<and> crId c = k \<and> cardProblem H c = None
     \<and> isWhole (crUpdatedAt c) \<and> crDeletedAt c = None
     \<and> tbl_get dtId (crTopicId c) (dbTopics d) = Some t \<and> dtUser t = u)"

definition cardOwned :: "id \<Rightarrow> id \<Rightarrow> db \<Rightarrow> bool" where
  "cardOwned u k d \<longleftrightarrow> pred_option (\<lambda>c. dcUser c = u) (tbl_get dcId k (dbCards d))
     \<and> tbl_get urId u (dbUsers d) \<noteq> None"

lemma cardRecordToDb_ok:
  assumes "cardProblem H c = None" "crDeletedAt c = None"
  shows "\<exists>row. cardRecordToDb H c u = Inr row \<and> dcId row = crId c \<and> dcUser row = u \<and> dcDeletedAt row = None
    \<and> (dcUpdatedAt row, dcTopic row, dcLevel row, dcData row, dcReview row, dcDeletedAt row) = cardWrite H c"
proof -
  from valid_card [OF assms(1)] obtain data where "jsonParse H (crDataJson c) = Some data"
    "isValidDate (crUpdatedAt c)" "pred_option isWhole (crReviewDate c)" by auto
  with assms(2) show ?thesis
    by (cases "crReviewDate c")
       (auto simp: cardRecordToDb_def truthyMap_def toBigInt_def toDate_def cardWrite_def reviewOf_def)
qed

lemma nextSeq_ok: "tbl_get urId u (dbUsers d) \<noteq> None \<Longrightarrow> \<exists>s d1. nextSeq u d = Inr (s, d1)
    \<and> tbl_get urId u (dbUsers d1) \<noteq> None"
  by (auto simp: nextSeq_def Let_def tbl_get_put dest: tbl_get_key)

lemma card_upsert_refines:
  assumes "cardEdit H u k d m" "cardOwned u k d"
  shows "\<exists>d'. applyCardUpsert H u dev m d = Inr d' \<and> cardOwned u k d' \<and> dbTopics d' = dbTopics d
    \<and> cardState k d' = lww_step (serverAccepts H k dev) (cardWrite H (the (muCard m))) (cardState k d)"
proof -
  from assms(1) obtain c t where c: "muCard m = Some c" "crId c = k" "cardProblem H c = None"
    "isWhole (crUpdatedAt c)" "crDeletedAt c = None"
    and t: "tbl_get dtId (crTopicId c) (dbTopics d) = Some t" "dtUser t = u" by (auto simp: cardEdit_def)
  have upd: "of_int (jsTrunc (crUpdatedAt c)) = crUpdatedAt c" using c(4) by (rule isWhole_trunc)
  have acc: "serverAccepts H k dev (Some e) (jsTrunc (crUpdatedAt c)) = incomingAccepted H e k (crUpdatedAt c) dev" for e
    by (simp add: serverAccepts_def incomingAccepted_def upd)
  from cardRecordToDb_ok [OF c(3,5), of u] obtain row where row: "cardRecordToDb H c u = Inr row" "dcId row = k"
    "dcUser row = u" "dcDeletedAt row = None"
    "(dcUpdatedAt row, dcTopic row, dcLevel row, dcData row, dcReview row, dcDeletedAt row) = cardWrite H c"
    using c(2) by blast
  from assms(2) obtain s d1 where n: "nextSeq u d = Inr (s, d1)" "tbl_get urId u (dbUsers d1) \<noteq> None"
    using nextSeq_ok [of u d] by (auto simp: cardOwned_def)
  note f = nextSeq_spec [OF n(1)]
  show ?thesis
  proof (cases "tbl_get dcId k (dbCards d)")
    case None
    then have "cardState k d = None" by (simp add: cardState_def)
    then show ?thesis using None assms(2) c t row n f
      by (auto simp: applyCardUpsert_def Let_def cardOwned_def lww_step_def server_lww.absent cardState_def tbl_get_put)
  next
    case (Some old)
    have old: "dcUser old = u" "dcId old = k" using assms(2) Some by (auto simp: cardOwned_def dest: tbl_get_key)
    have w: "fst (cardWrite H c) = jsTrunc (crUpdatedAt c)" by (simp add: cardWrite_def)
    have st: "map_option fst (cardState k d) = Some (dcUpdatedAt old)" using Some by (simp add: cardState_def)
    show ?thesis
    proof (cases "incomingAccepted H (dcUpdatedAt old) k (crUpdatedAt c) dev")
      case True
      then show ?thesis using Some assms(2) c t row n f old
        by (auto simp: applyCardUpsert_def Let_def cardOwned_def lww_step_def st w acc tbl_get_put cardState_def)
    next
      case False
      then show ?thesis using Some assms(2) c t old
        by (auto simp: applyCardUpsert_def Let_def lww_step_def st w acc)
    qed
  qed
qed

text \<open>Card upserts arriving one after the other, each from its device; \<open>None\<close> when one is refused.\<close>

fun cardRuns :: "host \<Rightarrow> id \<Rightarrow> (id \<times> mutation) list \<Rightarrow> db \<Rightarrow> db option" where
  "cardRuns H u [] d = Some d"
| "cardRuns H u ((dev, m) # ps) d =
     (case applyCardUpsert H u dev m d of Inl _ \<Rightarrow> None | Inr d' \<Rightarrow> cardRuns H u ps d')"

lemma lww_step_device: "fst w \<notin> fst ` set_option cur \<Longrightarrow>
   lww_step (serverAccepts H k dev) w cur = lww_step (serverAccepts H k dev') w cur"
  by (cases cur) (auto simp: lww_step_def serverAccepts_def shouldApplyIncoming_def)

definition pairWrite :: "host \<Rightarrow> id \<times> mutation \<Rightarrow> ms \<times> card_payload" where
  "pairWrite H p = cardWrite H (the (muCard (snd p)))"

lemma card_runs_refine:
  "(\<And>dev m. (dev, m) \<in> set ps \<Longrightarrow> cardEdit H u k d m) \<Longrightarrow> cardOwned u k d \<Longrightarrow>
   distinct (map (fst \<circ> pairWrite H) ps) \<Longrightarrow>
   fst ` set_option (cardState k d) \<inter> set (map (fst \<circ> pairWrite H) ps) = {} \<Longrightarrow>
   \<exists>d'. cardRuns H u ps d = Some d'
     \<and> cardState k d' = lww_run (serverAccepts H k dev0) (map (pairWrite H) ps) (cardState k d)"
proof (induction ps arbitrary: d)
  case (Cons p ps)
  obtain dev m where p: "p = (dev, m)" by fastforce
  from card_upsert_refines [of H u k d m dev] Cons.prems(1,2) p
  obtain d1 where d1: "applyCardUpsert H u dev m d = Inr d1" "cardOwned u k d1" "dbTopics d1 = dbTopics d"
    and st: "cardState k d1 = lww_step (serverAccepts H k dev) (pairWrite H p) (cardState k d)"
    by (auto simp: pairWrite_def)
  have st0: "cardState k d1 = lww_step (serverAccepts H k dev0) (pairWrite H p) (cardState k d)"
    unfolding st using Cons.prems(4) by (intro lww_step_device) auto
  have "set_option (cardState k d1) \<subseteq> insert (pairWrite H p) (set_option (cardState k d))"
    by (auto simp: st lww_step_def split: if_splits)
  then have disj: "fst ` set_option (cardState k d1) \<inter> set (map (fst \<circ> pairWrite H) ps) = {}"
    using Cons.prems(3,4) by fastforce
  have "cardEdit H u k d1 m'" if "(dev', m') \<in> set ps" for dev' m'
    using Cons.prems(1) [of dev' m'] that d1(3) by (simp add: cardEdit_def)
  from Cons.IH [OF this d1(2) _ disj] Cons.prems(3) st0 d1(1) p show ?case by auto
qed simp

section \<open>Properties\<close>

text \<open>
  C6. Order independence of the server: a set of well-formed edits of one card with different
  timestamps, pushed by any devices in any two orders, is never refused and leaves the same
  stored card, namely that of the newest edit.
\<close>

theorem server_card_order_independent:
  assumes "cardOwned u k d" "cardState k d = None" "mset ps = mset qs" "ps \<noteq> []"
    and "\<And>dev m. (dev, m) \<in> set ps \<Longrightarrow> cardEdit H u k d m"
    and "distinct (map (fst \<circ> pairWrite H) ps)"
  shows "\<exists>d1 d2 p. cardRuns H u ps d = Some d1 \<and> cardRuns H u qs d = Some d2
    \<and> cardState k d1 = cardState k d2 \<and> p \<in> set ps \<and> cardState k d1 = Some (pairWrite H p)
    \<and> (\<forall>q \<in> set ps. fst (pairWrite H q) \<le> fst (pairWrite H p))"
proof -
  have same: "set qs = set ps" using assms(3) by (metis set_mset_mset)
  have "mset (map (fst \<circ> pairWrite H) qs) = mset (map (fst \<circ> pairWrite H) ps)"
    using assms(3) by simp
  then have dq: "distinct (map (fst \<circ> pairWrite H) qs)"
    using assms(6) by (metis mset_eq_imp_distinct_iff)
  let ?run = "\<lambda>xs. lww_run (serverAccepts H k []) (map (pairWrite H) xs) None"
  from card_runs_refine [of ps H u k d "[]"] assms
  obtain d1 where d1: "cardRuns H u ps d = Some d1" "cardState k d1 = ?run ps" by auto
  from card_runs_refine [of qs H u k d "[]"] assms same dq
  obtain d2 where d2: "cardRuns H u qs d = Some d2" "cardState k d2 = ?run qs" by auto
  have "inj_on fst (set (map (pairWrite H) ps))"
    using assms(6) by (metis distinct_map map_map)
  then have "?run ps = ?run qs"
    by (intro server_lww.run_order_independent) (auto simp: same)
  moreover obtain w where "?run ps = Some w"
    using server_lww.run_some assms(4) by (metis map_is_Nil_conv)
  moreover from server_lww.run_newest [OF this] obtain p where "p \<in> set ps" "w = pairWrite H p"
    "\<forall>q \<in> set ps. fst (pairWrite H q) \<le> fst (pairWrite H p)" by auto
  ultimately show ?thesis using d1 d2 by metis
qed

definition plain_host :: host where
  "plain_host = sample_host\<lparr>jsonParse := (\<lambda>s. Some (JStr s))\<rparr>"

definition sample_topic_row :: topic_row where
  "sample_topic_row = \<lparr>dtId = ''t'', dtUser = ''u'', dtTitle = ''Bio'', dtPivot = 0, dtWeek = JArr [],
     dtNextUpdate = 0, dtArchived = False, dtUpdatedAt = 1, dtDeletedAt = None, dtSeq = 1\<rparr>"

definition sample_db :: db where
  "sample_db = \<lparr>dbUsers = [\<lparr>urId = ''u'', urSyncSeq = 1\<rparr>], dbTopics = [sample_topic_row], dbCards = [],
     dbDevices = [], dbOps = []\<rparr>"

definition sample_edit :: "string \<Rightarrow> rat \<Rightarrow> mutation" where
  "sample_edit dj t = \<lparr>muOpId = dj, muDeviceId = ''d'', muTable = Cards, muRecordId = ''c'',
     muOperation = Upsert, muUpdatedAt = t, muTopic = None,
     muCard = Some \<lparr>crId = ''c'', crTopicId = ''t'', crLevel = 2, crDataJson = dj,
       crReviewDate = None, crUpdatedAt = t, crDeletedAt = None\<rparr>\<rparr>"

lemma sample_edit_ok: "t = 5 \<or> t = 9 \<Longrightarrow> cardEdit plain_host ''u'' ''c'' sample_db (sample_edit ''A'' t)"
  by (auto simp: cardEdit_def sample_edit_def sample_db_def sample_topic_row_def cardProblem_def plain_host_def
      isParseableJson_def hasNul_def INT32_MIN_def INT32_MAX_def isValidDate_def)

lemma server_card_order_independent_witness:
  "\<exists>d1 d2. cardRuns plain_host ''u'' [(''p'', sample_edit ''A'' 5), (''q'', sample_edit ''A'' 9)] sample_db = Some d1
    \<and> cardRuns plain_host ''u'' [(''q'', sample_edit ''A'' 9), (''p'', sample_edit ''A'' 5)] sample_db = Some d2
    \<and> cardState ''c'' d1 = cardState ''c'' d2 \<and> cardState ''c'' d1 \<noteq> None"
proof -
  let ?ps = "[(''p'', sample_edit ''A'' 5), (''q'', sample_edit ''A'' 9)]"
  let ?qs = "[(''q'', sample_edit ''A'' 9), (''p'', sample_edit ''A'' 5)]"
  have st: "cardOwned ''u'' ''c'' sample_db" "cardState ''c'' sample_db = None"
    by (simp_all add: cardOwned_def cardState_def sample_db_def)
  have di: "distinct (map (fst \<circ> pairWrite plain_host) ?ps)"
    by (simp add: pairWrite_def cardWrite_def sample_edit_def)
  have "\<exists>d1 d2 p. cardRuns plain_host ''u'' ?ps sample_db = Some d1
    \<and> cardRuns plain_host ''u'' ?qs sample_db = Some d2 \<and> cardState ''c'' d1 = cardState ''c'' d2
    \<and> p \<in> set ?ps \<and> cardState ''c'' d1 = Some (pairWrite plain_host p)
    \<and> (\<forall>q \<in> set ?ps. fst (pairWrite plain_host q) \<le> fst (pairWrite plain_host p))"
    by (rule server_card_order_independent [OF st _ _ _ di]) (auto simp: sample_edit_ok)
  then obtain d1 d2 p where "cardRuns plain_host ''u'' ?ps sample_db = Some d1"
    "cardRuns plain_host ''u'' ?qs sample_db = Some d2" "cardState ''c'' d1 = cardState ''c'' d2"
    "cardState ''c'' d1 = Some (pairWrite plain_host p)"
    by blast
  then show ?thesis by (metis option.distinct(1))
qed

end
