(* ===== verification/ServerProps.thy ===== *)
theory ServerProps
  imports ServerLww
begin

text \<open>
  The properties of a push, of the storage it leaves and of its replays.
\<close>

definition sample_server :: server where
  "sample_server = \<lparr>srvDb = sample_db, srvRedis = \<lparr>rdOpen = True, rdOps = []\<rparr>\<rparr>"

definition sample_push :: "apply_error + push_ack \<times> fanout_msg list \<times> server" where
  "sample_push = applyPushBatch plain_host sample_store (\<lambda>n. ''m'') 100 ''u'' ''d''
     [sample_edit ''A'' 5, sample_edit ''B'' 500000] sample_server"

lemma sample_push_ok:
  "case sample_push of Inl _ \<Rightarrow> False
   | Inr (ack, msgs, s') \<Rightarrow> paAcceptedOpIds ack = [''A'', ''B''] \<and> length msgs = 1
       \<and> map dcUpdatedAt (dbCards (srvDb s')) = [300100]"
  by code_simp

lemma sample_push_Inr:
  obtains ack msgs s' where
    "applyPushBatch plain_host sample_store (\<lambda>n. ''m'') 100 ''u'' ''d''
       [sample_edit ''A'' 5, sample_edit ''B'' 500000] sample_server = Inr (ack, msgs, s')"
    "paAcceptedOpIds ack = [''A'', ''B'']" "map dcUpdatedAt (dbCards (srvDb s')) = [300100]"
  using sample_push_ok by (auto simp: sample_push_def split: sum.splits)

lemma sample_db_ok: "db_ok (srvDb sample_server)"
  by (auto simp: sample_server_def sample_db_def db_ok_def tables_ok_def seqs_ok_def fk_ok_def titles_ok_def
      allRows_def sample_topic_row_def syncSeqOf_def)

text \<open>
  C8. A push answers every operation it carries exactly once: the accepted op ids and the
  rejected ones are together the op ids of the batch, with multiplicity.
\<close>

theorem push_answers_each_once:
  assumes "applyPushBatch H S mid now u dev ms s = Inr (ack, msgs, s')"
  shows "mset (paAcceptedOpIds ack) + mset (map roOpId (paRejected ack)) = mset (map muOpId ms)"
  by (rule push_ops [OF assms])

lemma push_answers_each_once_witness:
  "\<exists>ack msgs s'. applyPushBatch plain_host sample_store (\<lambda>n. ''m'') 100 ''u'' ''d''
       [sample_edit ''A'' 5, sample_edit ''B'' 500000] sample_server = Inr (ack, msgs, s')
     \<and> mset (paAcceptedOpIds ack) + mset (map roOpId (paRejected ack)) = {#''A'', ''B''#}"
  by (rule sample_push_Inr) (use push_answers_each_once in \<open>fastforce simp: sample_edit_def\<close>)

lemma push_steps:
  assumes "applyPushBatch H S mid now u dev ms s = Inr (ack, msgs, s')" "db_ok (srvDb s)"
  obtains d1 where "db_steps u now (srvDb s) d1" "srvDb s' = pruneAppliedOps u now d1"
proof -
  let ?c = "map (\<lambda>m. clampMutationTimes m now) ms"
  obtain be errs ap s1 where o': "applyOrderedMutations H u dev (countOtherActiveDevices u dev now (srvDb s) = 0)
      be errs now (orderBatch (fst (partitionMalformed H ?c))) s = (ap, s1)"
    and s': "s' = s1\<lparr>srvDb := pruneAppliedOps u now (srvDb s1)\<rparr>"
    using assms(1) by (rule push_parts)
  from ordered_steps [OF o' assms(2)] valid_clamped have "db_steps u now (srvDb s) (srvDb s1)" by blast
  with s' show ?thesis by (intro that) simp_all
qed

text \<open>
  A push by one user never changes, adds or removes a topic or card of another user, nor
  that user's sequence counter.
\<close>

theorem push_isolates_users:
  assumes "applyPushBatch H S mid now u dev ms s = Inr (ack, msgs, s')" "db_ok (srvDb s)" "v \<noteq> u"
  shows "rowsOf v (srvDb s') = rowsOf v (srvDb s) \<and> syncSeqOf v (srvDb s') = syncSeqOf v (srvDb s)"
proof -
  obtain d1 where d1: "db_steps u now (srvDb s) d1" "srvDb s' = pruneAppliedOps u now d1"
    using assms(1,2) by (rule push_steps)
  have "rowsOf v (srvDb s') = rowsOf v d1" "syncSeqOf v (srvDb s') = syncSeqOf v d1"
    unfolding d1(2) by (simp_all add: rowsOf_def allRows_def syncSeqOf_def)
  with steps_other_users [OF d1(1) assms(2,3)] show ?thesis by simp
qed

lemma push_isolates_users_witness:
  "\<exists>ack msgs s'. applyPushBatch plain_host sample_store (\<lambda>n. ''m'') 100 ''u'' ''d''
       [sample_edit ''A'' 5, sample_edit ''B'' 500000] sample_server = Inr (ack, msgs, s')
     \<and> rowsOf ''v'' (srvDb s') = rowsOf ''v'' (srvDb sample_server)"
  by (rule sample_push_Inr) (use push_isolates_users [OF _ sample_db_ok] in fastforce)

text \<open>
  C9. Every row a push leaves that was not there before belongs to the pushing user, carries a
  sequence above every sequence handed out before the push, and a stored time at most five
  minutes ahead of the server clock, whatever time the device claimed.
\<close>

theorem push_writes_are_fresh:
  assumes "applyPushBatch H S mid now u dev ms s = Inr (ack, msgs, s')" "db_ok (srvDb s)"
    and "r \<in> allRows (srvDb s')" "r \<notin> allRows (srvDb s)"
  shows "rowUser r = u \<and> syncSeqOf u (srvDb s) < rowSeq r \<and> rowUpdatedAt r \<le> now + MAX_FUTURE_SKEW_MS"
proof -
  obtain d1 where d1: "db_steps u now (srvDb s) d1" "srvDb s' = pruneAppliedOps u now d1"
    using assms(1,2) by (rule push_steps)
  have "r \<in> allRows d1" using assms(3) by (simp add: d1(2) allRows_def)
  with d1(1) show ?thesis using assms(4) by (rule steps_new_rows)
qed

lemma push_writes_are_fresh_witness:
  "\<exists>ack msgs s' r. applyPushBatch plain_host sample_store (\<lambda>n. ''m'') 100 ''u'' ''d''
       [sample_edit ''A'' 5, sample_edit ''B'' 500000] sample_server = Inr (ack, msgs, s')
     \<and> r \<in> allRows (srvDb s') \<and> rowUpdatedAt r \<le> 100 + MAX_FUTURE_SKEW_MS"
proof (rule sample_push_Inr)
  fix ack msgs s'
  assume p: "applyPushBatch plain_host sample_store (\<lambda>n. ''m'') 100 ''u'' ''d''
       [sample_edit ''A'' 5, sample_edit ''B'' 500000] sample_server = Inr (ack, msgs, s')"
    and c: "map dcUpdatedAt (dbCards (srvDb s')) = [300100]"
  from c obtain x where "dbCards (srvDb s') = [x]" by auto
  then have x: "RowCard x \<in> allRows (srvDb s')" by (simp add: allRows_def)
  have "RowCard x \<notin> allRows (srvDb sample_server)"
    by (auto simp: allRows_def sample_server_def sample_db_def)
  from push_writes_are_fresh [OF p sample_db_ok x this] p x show ?thesis by blast
qed

text \<open>
  C7. Replays are harmless. If the operations of a batch were new when it was applied, then any
  later batch (other media answers, other deletion mode, within the retention period) made of
  operations that were accepted is accepted whole and changes nothing at all.
\<close>

theorem replay_changes_nothing:
  assumes "applyOrderedMutations H u dev hard be errs now ms s = (ap, s1)" "db_ok (srvDb s)"
    and "\<And>m. m \<in> set ms \<Longrightarrow> clamped now m \<and> \<not> wasOpApplied u (muOpId m) now s"
    and "set (map muOpId ms') \<subseteq> set (apAccepted ap)" "now' \<le> now + OPERATION_RETENTION_MS"
    and "s2 = s1\<lparr>srvDb := pruneAppliedOps v now' (srvDb s1)\<rparr>"
  shows "applyOrderedMutations H' u dev' hard' be' errs' now'' ms' s2
    = (\<lparr>apAccepted = map muOpId ms', apRejected = [], apConflicts = []\<rparr>, s2)"
proof (rule ordered_known)
  fix m assume "m \<in> set ms'"
  with assms(4) have acc: "muOpId m \<in> set (apAccepted ap)" by auto
  have "mset (apAccepted ap) + mset (map roOpId (apRejected ap)) = mset (map muOpId ms)"
    using assms(1) by (rule ordered_answers)
  then have "set (apAccepted ap) \<subseteq> muOpId ` set ms"
    by (metis list.set_map mset_subset_eq_add_left set_mset_mono set_mset_mset)
  with acc assms(3) have "\<not> wasOpApplied u (muOpId m) now s" by auto
  then have mk: "marked u (muOpId m) now (srvDb s1)"
    using ordered_marks [OF assms(1,2) _ acc] assms(3) by blast
  have "db_ok (srvDb s1)"
    using ordered_steps [OF assms(1,2)] assms(2,3) steps_ok by blast
  then have "marked u (muOpId m) now (srvDb s2)"
    using marked_survives [OF mk assms(5)] by (simp add: assms(6) db_ok_def tables_ok_def)
  then show "wasOpApplied u (muOpId m) now'' s2" by (auto simp: marked_def wasOpApplied_def)
qed

lemma replay_changes_nothing_witness:
  "let (ap, s1) = applyOrderedMutations plain_host ''u'' ''d'' True None [] 100 [sample_edit ''A'' 5] sample_server
   in applyOrderedMutations plain_host ''u'' ''e'' False None [] 200 [sample_edit ''A'' 7]
        (s1\<lparr>srvDb := pruneAppliedOps ''u'' 150 (srvDb s1)\<rparr>)
      = (\<lparr>apAccepted = [''A''], apRejected = [], apConflicts = []\<rparr>,
         s1\<lparr>srvDb := pruneAppliedOps ''u'' 150 (srvDb s1)\<rparr>)"
proof -
  obtain ap s1 where r: "applyOrderedMutations plain_host ''u'' ''d'' True None [] 100
      [sample_edit ''A'' 5] sample_server = (ap, s1)" by fastforce
  have "apAccepted (fst (applyOrderedMutations plain_host ''u'' ''d'' True None [] 100
      [sample_edit ''A'' 5] sample_server)) = [''A'']"
    by code_simp
  with r have acc: "apAccepted ap = [''A'']" by simp
  have new: "clamped 100 m \<and> \<not> wasOpApplied ''u'' (muOpId m) 100 sample_server"
    if "m \<in> set [sample_edit ''A'' 5]" for m
    using that by (simp add: sample_edit_def clamped_def MAX_FUTURE_SKEW_MS_def wasOpApplied_def redisHit_def
        sample_server_def sample_db_def)
  have op: "muOpId (sample_edit ''A'' t) = ''A''" for t by (simp add: sample_edit_def)
  show ?thesis
    using replay_changes_nothing [OF r sample_db_ok new, of "[sample_edit ''A'' 7]" 150 _ "''u''"]
    by (simp add: r acc op OPERATION_RETENTION_MS_def del: applyOrderedMutations.simps)
qed

end
