(* ===== verification/ServerPull.thy ===== *)
theory ServerPull
  imports ServerProps
begin

text \<open>
  Pulls are complete: a page is the rows of lowest sequence after the cursor, its watermark is
  the last of them, and paging to the end delivers every row after the cursor exactly once.
\<close>

section \<open>Sorted lists\<close>

lemma idb_ok_unique:
  assumes "idb_ok key xs" "idb_ok key ys" "set xs = set ys"
  shows "xs = ys"
proof -
  have "map key xs = map key ys"
    using assms by (intro strict_sorted_equal) (auto simp: sorted_wrt_map)
  moreover have "inj_on key (set xs \<union> set ys)"
    using idb_ok_tbl_ok [OF assms(1)] assms(3) by (simp add: distinct_map)
  ultimately show ?thesis by (rule map_inj_on)
qed

lemma idb_ok_sort_key: "distinct (map key xs) \<Longrightarrow> idb_ok key (sort_key key xs)"
proof -
  assume "distinct (map key xs)"
  then have "distinct (map key (sort_key key xs))"
    by (simp add: distinct_map)
  then have "sorted_wrt (<) (map key (sort_key key xs))" by (simp add: strict_sorted_iff)
  then show ?thesis by (simp add: sorted_wrt_map)
qed

lemma filter_take: "filter P (take n A) = take (length (filter P (take n A))) (filter P A)"
  by (metis append_eq_conv_conj append_take_drop_id filter_append)

lemma page_lemma:
  assumes A: "idb_ok key A" and B: "idb_ok key B"
    and sB: "set B = set (take (Suc n) (filter P A)) \<union> set (take (Suc n) (filter (\<lambda>r. \<not> P r) A))"
  shows "take n B = take n A"
proof -
  have sub: "set B \<subseteq> set A"
    using sB set_take_subset [of "Suc n" "filter P A"] set_take_subset [of "Suc n" "filter (\<lambda>r. \<not> P r) A"] by auto
  have B': "B = filter (\<lambda>r. r \<in> set B) A"
    by (rule idb_ok_unique [OF B idb_ok_filter [OF A]]) (use sub in auto)
  have low: "r \<in> set (take (Suc n) (filter Q A))" if "r \<in> set (take n A)" "Q r" for r Q
  proof -
    have "r \<in> set (take (length (filter Q (take n A))) (filter Q A))"
      using that filter_take [of Q n A] by (metis (mono_tags, lifting) filter_set mem_Collect_eq set_filter)
    moreover have "length (filter Q (take n A)) \<le> Suc n"
      by (metis le_SucI length_filter_le length_take min.cobounded2 order_trans)
    ultimately show ?thesis by (meson set_take_subset_set_take subsetD)
  qed
  have "r \<in> set B" if "r \<in> set (take n A)" for r
    using low [OF that, of P] low [OF that, of "\<lambda>r. \<not> P r"] sB by blast
  then have "filter (\<lambda>r. r \<in> set B) (take n A) = take n A" by simp
  then have "B = take n A @ filter (\<lambda>r. r \<in> set B) (drop n A)"
    using B' by (metis append_take_drop_id filter_append)
  then show ?thesis
    by (metis append.right_neutral append_take_drop_id drop_all filter.simps(1) length_take
        linorder_le_cases min.absorb2 take_all take_append append_eq_conv_conj)
qed

lemma filter_above_last:
  assumes "idb_ok key A" "0 < n" "A \<noteq> []"
  shows "filter (\<lambda>r. key (last (take n A)) < key r) A = drop n A"
proof -
  let ?l = "last (take n A)"
  have ne: "take n A \<noteq> []" using assms by simp
  have s: "idb_ok key (take n A @ drop n A)" using assms(1) by simp
  have "key r \<le> key ?l" if "r \<in> set (take n A)" for r
  proof -
    have "take n A = butlast (take n A) @ [?l]" using ne by simp
    then have "idb_ok key (butlast (take n A) @ [?l])" using s by (metis sorted_wrt_append)
    moreover have "r \<in> set (butlast (take n A)) \<or> r = ?l"
      using that \<open>take n A = butlast (take n A) @ [?l]\<close> by (metis Un_iff empty_iff insert_iff list.set(1,2) set_append)
    ultimately show ?thesis by (auto simp: sorted_wrt_append)
  qed
  then have "filter (\<lambda>r. key ?l < key r) (take n A) = []" by (force simp: filter_empty_conv)
  moreover have "key ?l < key r" if "r \<in> set (drop n A)" for r
    using s that ne last_in_set [OF ne] by (auto simp: sorted_wrt_append simp del: append_take_drop_id)
  then have "filter (\<lambda>r. key ?l < key r) (drop n A) = drop n A" by simp
  ultimately show ?thesis by (metis append_Nil append_take_drop_id filter_append)
qed

section \<open>One page\<close>

text \<open>What a pull promises: the user's rows after \<open>since\<close>, by sequence.\<close>

definition rowsAfter :: "id \<Rightarrow> int \<Rightarrow> db \<Rightarrow> db_row list" where
  "rowsAfter u since d = sort_key rowSeq (filter (\<lambda>r. rowUser r = u \<and> since < rowSeq r)
     (map RowTopic (dbTopics d) @ map RowCard (dbCards d)))"

fun isTopicRow :: "db_row \<Rightarrow> bool" where
  "isTopicRow (RowTopic _) = True"
| "isTopicRow (RowCard _) = False"

lemma set_rowsAfter: "set (rowsAfter u since d) = {r \<in> rowsOf u d. since < rowSeq r}"
  by (auto simp: rowsAfter_def rowsOf_def allRows_def)

lemma seqs_inj:
  "db_ok d \<Longrightarrow> r \<in> allRows d \<Longrightarrow> r' \<in> allRows d \<Longrightarrow> rowUser r = rowUser r' \<Longrightarrow> rowSeq r = rowSeq r' \<Longrightarrow> r = r'"
  by (simp add: db_ok_def seqs_ok_def)

lemma in_allRows [simp]:
  "RowTopic t \<in> allRows d \<longleftrightarrow> t \<in> set (dbTopics d)" "RowCard c \<in> allRows d \<longleftrightarrow> c \<in> set (dbCards d)"
  by (auto simp: allRows_def)

lemma tables_distinct: "db_ok d \<Longrightarrow> distinct (dbTopics d)" "db_ok d \<Longrightarrow> distinct (dbCards d)"
  by (simp_all add: db_ok_def tables_ok_def distinct_map)

lemma rows_distinct: "db_ok d \<Longrightarrow> distinct (map RowTopic (dbTopics d) @ map RowCard (dbCards d))"
  using tables_distinct [of d] by (auto simp: distinct_map inj_on_def)

lemma rowsAfter_sorted:
  assumes "db_ok d"
  shows "idb_ok rowSeq (rowsAfter u since d)"
proof -
  let ?F = "filter (\<lambda>r. rowUser r = u \<and> since < rowSeq r) (map RowTopic (dbTopics d) @ map RowCard (dbCards d))"
  have "distinct ?F" using rows_distinct [OF assms] by (rule distinct_filter)
  moreover have "inj_on rowSeq (set ?F)"
  proof (rule inj_onI)
    fix x y assume "x \<in> set ?F" "y \<in> set ?F" "rowSeq x = rowSeq y"
    then show "x = y" by (intro seqs_inj [OF assms]) (auto simp: allRows_def)
  qed
  ultimately have "distinct (map rowSeq ?F)" by (simp only: distinct_map)
  then show ?thesis unfolding rowsAfter_def by (rule idb_ok_sort_key)
qed

lemma since_topics:
  assumes "db_ok d"
  shows "map RowTopic (topicsSince u since d) = filter isTopicRow (rowsAfter u since d)"
proof (rule idb_ok_unique [where key = rowSeq])
  show "idb_ok rowSeq (filter isTopicRow (rowsAfter u since d))"
    using rowsAfter_sorted [OF assms] by (rule idb_ok_filter)
  let ?T = "filter (\<lambda>t. dtUser t = u \<and> since < dtSeq t) (dbTopics d)"
  have "inj_on dtSeq (set ?T)"
  proof (rule inj_onI)
    fix x y assume "x \<in> set ?T" "y \<in> set ?T" "dtSeq x = dtSeq y"
    then show "x = y" using seqs_inj [OF assms, of "RowTopic x" "RowTopic y"] by simp
  qed
  moreover have "distinct ?T" using tables_distinct [OF assms] by simp
  ultimately have "idb_ok dtSeq (sort_key dtSeq ?T)" by (intro idb_ok_sort_key) (simp add: distinct_map)
  then show "idb_ok rowSeq (map RowTopic (topicsSince u since d))"
    by (simp add: topicsSince_def sorted_wrt_map)
  show "set (map RowTopic (topicsSince u since d)) = set (filter isTopicRow (rowsAfter u since d))"
    by (auto simp: topicsSince_def rowsAfter_def)
qed

lemma since_cards:
  assumes "db_ok d"
  shows "map RowCard (cardsSince u since d) = filter (\<lambda>r. \<not> isTopicRow r) (rowsAfter u since d)"
proof (rule idb_ok_unique [where key = rowSeq])
  show "idb_ok rowSeq (filter (\<lambda>r. \<not> isTopicRow r) (rowsAfter u since d))"
    using rowsAfter_sorted [OF assms] by (rule idb_ok_filter)
  let ?T = "filter (\<lambda>t. dcUser t = u \<and> since < dcSeq t) (dbCards d)"
  have "inj_on dcSeq (set ?T)"
  proof (rule inj_onI)
    fix x y assume "x \<in> set ?T" "y \<in> set ?T" "dcSeq x = dcSeq y"
    then show "x = y" using seqs_inj [OF assms, of "RowCard x" "RowCard y"] by simp
  qed
  moreover have "distinct ?T" using tables_distinct [OF assms] by simp
  ultimately have "idb_ok dcSeq (sort_key dcSeq ?T)" by (intro idb_ok_sort_key) (simp add: distinct_map)
  then show "idb_ok rowSeq (map RowCard (cardsSince u since d))"
    by (simp add: cardsSince_def sorted_wrt_map)
  show "set (map RowCard (cardsSince u since d)) = set (filter (\<lambda>r. \<not> isTopicRow r) (rowsAfter u since d))"
    by (auto simp: cardsSince_def rowsAfter_def)
qed

lemma pullRows_page:
  assumes "db_ok d"
  shows "take limit (pullRows u since limit d) = take limit (rowsAfter u since d)"
    "limit < length (pullRows u since limit d) \<longleftrightarrow> limit < length (rowsAfter u since d)"
proof -
  let ?A = "rowsAfter u since d"
  have eq: "map RowTopic (take (limit + 1) (topicsSince u since d)) = take (Suc limit) (filter isTopicRow ?A)"
    "map RowCard (take (limit + 1) (cardsSince u since d)) = take (Suc limit) (filter (\<lambda>r. \<not> isTopicRow r) ?A)"
    by (simp_all only: since_topics [OF assms, symmetric] since_cards [OF assms, symmetric] take_map Suc_eq_plus1)
  let ?L = "take (Suc limit) (filter isTopicRow ?A) @ take (Suc limit) (filter (\<lambda>r. \<not> isTopicRow r) ?A)"
  have dA: "distinct (map rowSeq ?A)" using idb_ok_tbl_ok [OF rowsAfter_sorted [OF assms]] .
  have pr: "pullRows u since limit d = sort_key rowSeq ?L" by (simp only: pullRows_def eq)
  have sub: "set ?L \<subseteq> set ?A"
    using set_take_subset [of "Suc limit" "filter isTopicRow ?A"]
      set_take_subset [of "Suc limit" "filter (\<lambda>r. \<not> isTopicRow r) ?A"] by auto
  have "distinct (filter isTopicRow ?A)" "distinct (filter (\<lambda>r. \<not> isTopicRow r) ?A)"
    using dA by (simp_all add: distinct_map)
  moreover have "set (filter isTopicRow ?A) \<inter> set (filter (\<lambda>r. \<not> isTopicRow r) ?A) = {}" by auto
  ultimately have "distinct ?L"
    using set_take_subset [of "Suc limit" "filter isTopicRow ?A"]
      set_take_subset [of "Suc limit" "filter (\<lambda>r. \<not> isTopicRow r) ?A"]
    by (simp only: distinct_append distinct_take) blast
  moreover have "inj_on rowSeq (set ?L)" using dA sub by (metis distinct_map inj_on_subset)
  ultimately have "distinct (map rowSeq ?L)" by (simp only: distinct_map)
  then have "idb_ok rowSeq (sort_key rowSeq ?L)" by (rule idb_ok_sort_key)
  then show "take limit (pullRows u since limit d) = take limit ?A"
    unfolding pr by (rule page_lemma [OF rowsAfter_sorted [OF assms], where P = isTopicRow]) simp
  have "length ?A = length (filter isTopicRow ?A) + length (filter (\<lambda>r. \<not> isTopicRow r) ?A)"
    by (rule sum_length_filter_compl [symmetric])
  then show "limit < length (pullRows u since limit d) \<longleftrightarrow> limit < length ?A"
    unfolding pr by (auto simp: min_def)
qed

fun rowRecord :: "host \<Rightarrow> db_row \<Rightarrow> sync_record" where
  "rowRecord H (RowTopic t) = \<lparr>srTopic = Some (dbTopicToRecord H t), srCard = None\<rparr>"
| "rowRecord H (RowCard c) = \<lparr>srTopic = None, srCard = Some (dbCardToRecord H c)\<rparr>"

text \<open>Topics come first on a page: the stable partition of the page's rows.\<close>

lemma rowRecords_partition:
  "rowRecords H rows = map (rowRecord H) (filter isTopicRow rows @ filter (\<lambda>r. \<not> isTopicRow r) rows)"
proof -
  have "List.map_filter (\<lambda>r. case r of RowTopic t \<Rightarrow> Some \<lparr>srTopic = Some (dbTopicToRecord H t), srCard = None\<rparr>
      | RowCard _ \<Rightarrow> None) rows = map (rowRecord H) (filter isTopicRow rows)"
    by (induction rows) (auto simp: map_filter_simps split: db_row.splits)
  moreover have "List.map_filter (\<lambda>r. case r of
      RowCard c \<Rightarrow> Some \<lparr>srTopic = None, srCard = Some (dbCardToRecord H c)\<rparr> | RowTopic _ \<Rightarrow> None) rows
      = map (rowRecord H) (filter (\<lambda>r. \<not> isTopicRow r) rows)"
    by (induction rows) (auto simp: map_filter_simps split: db_row.splits)
  ultimately show ?thesis by (simp add: rowRecords_def)
qed

lemma mset_rowRecords: "mset (rowRecords H rows) = mset (map (rowRecord H) rows)"
  by (simp add: rowRecords_partition image_mset_union [symmetric] del: image_mset_union)

lemma pullChanges_spec:
  assumes "db_ok d"
  shows "pullChanges H u cursor limit d =
    (let since = parseCursor cursor; A = rowsAfter u since d in
     \<lparr>pdRecords = rowRecords H (take limit A),
      pdWatermark = cursorFromSeq (if take limit A = [] then since else rowSeq (last (take limit A))),
      pdMore = (limit < length A)\<rparr>)"
  by (simp only: pullChanges_def Let_def pullRows_page [OF assms])

section \<open>Paging\<close>

text \<open>A device that follows the watermark while there is more; \<open>fuel\<close> bounds the pages.\<close>

fun pullPages :: "host \<Rightarrow> id \<Rightarrow> nat \<Rightarrow> nat \<Rightarrow> string \<Rightarrow> db \<Rightarrow> (sync_record list \<times> string) option" where
  "pullPages H u limit 0 cursor d = None"
| "pullPages H u limit (Suc fuel) cursor d =
     (let delta = pullChanges H u cursor limit d in
      if pdMore delta then
        (case pullPages H u limit fuel (pdWatermark delta) d of
           None \<Rightarrow> None
         | Some (rs, w) \<Rightarrow> Some (pdRecords delta @ rs, w))
      else Some (pdRecords delta, pdWatermark delta))"

lemma rowsAfter_later:
  assumes "db_ok d" "0 < limit" "rowsAfter u since d \<noteq> []"
  shows "rowsAfter u (rowSeq (last (take limit (rowsAfter u since d)))) d = drop limit (rowsAfter u since d)"
proof -
  let ?A = "rowsAfter u since d"
  let ?w = "rowSeq (last (take limit ?A))"
  have "last (take limit ?A) \<in> set ?A"
    using assms(2,3) by (metis in_set_takeD last_in_set take_eq_Nil2 less_not_refl)
  then have w: "since < ?w" by (simp add: set_rowsAfter)
  have "rowsAfter u ?w d = filter (\<lambda>r. ?w < rowSeq r) ?A"
    by (rule idb_ok_unique [OF rowsAfter_sorted [OF assms(1)] idb_ok_filter [OF rowsAfter_sorted [OF assms(1)]]])
       (use w in \<open>auto simp: set_rowsAfter\<close>)
  also have "\<dots> = drop limit ?A"
    using rowsAfter_sorted [OF assms(1)] assms(2,3) by (rule filter_above_last)
  finally show ?thesis .
qed

lemma row_seq_range:
  "db_ok d \<Longrightarrow> r \<in> set (rowsAfter u since d) \<Longrightarrow> 0 < rowSeq r \<and> rowSeq r \<le> syncSeqOf u d"
  by (auto simp: set_rowsAfter rowsOf_def db_ok_def seqs_ok_def)

section \<open>Properties\<close>

text \<open>
  One page: the records are those of the \<open>limit\<close> rows of lowest sequence after the cursor,
  topics before cards; the watermark is the last sequence of the page (the cursor itself when
  there is nothing); \<open>more\<close> holds exactly when rows remain, and then the watermark advances.
\<close>

theorem pull_page_is_lowest_rows:
  assumes "db_ok d" "0 < limit" "syncSeqOf u d \<le> MAX_SEQ"
  shows "let since = parseCursor cursor; A = rowsAfter u since d; delta = pullChanges H u cursor limit d in
    pdRecords delta = map (rowRecord H) (filter isTopicRow (take limit A)
      @ filter (\<lambda>r. \<not> isTopicRow r) (take limit A))
    \<and> set A = {r \<in> rowsOf u d. since < rowSeq r} \<and> idb_ok rowSeq A
    \<and> parseCursor (pdWatermark delta) = (if A = [] then since else rowSeq (last (take limit A)))
    \<and> (pdMore delta \<longleftrightarrow> limit < length A)
    \<and> (pdMore delta \<longrightarrow> since < parseCursor (pdWatermark delta))"
proof -
  let ?A = "rowsAfter u (parseCursor cursor) d"
  have w: "parseCursor (pdWatermark (pullChanges H u cursor limit d))
      = (if ?A = [] then parseCursor cursor else rowSeq (last (take limit ?A)))"
  proof (cases "?A = []")
    case True
    then show ?thesis using parseCursor_range [of cursor]
      by (simp add: pullChanges_spec [OF assms(1)] Let_def parse_cursorFromSeq)
  next
    case False
    then have "last (take limit ?A) \<in> set ?A"
      using assms(2) by (metis in_set_takeD last_in_set take_eq_Nil2 less_not_refl)
    with row_seq_range [OF assms(1)] False assms(2,3) show ?thesis
      by (fastforce simp: pullChanges_spec [OF assms(1)] Let_def intro!: parse_cursorFromSeq)
  qed
  have "parseCursor cursor < rowSeq (last (take limit ?A))" if "?A \<noteq> []"
    using that assms(2) last_in_set [of "take limit ?A"] in_set_takeD [of _ limit ?A]
    by (fastforce simp: set_rowsAfter)
  then show ?thesis
    using w rowsAfter_sorted [OF assms(1)]
    by (auto simp: pullChanges_spec [OF assms(1)] Let_def rowRecords_partition set_rowsAfter)
qed

lemma pullPages_complete:
  assumes "db_ok d" "0 < limit" "syncSeqOf u d \<le> MAX_SEQ"
  shows "length (rowsAfter u (parseCursor cursor) d) < fuel \<Longrightarrow>
    \<exists>rs w. pullPages H u limit fuel cursor d = Some (rs, w)
      \<and> mset rs = mset (map (rowRecord H) (rowsAfter u (parseCursor cursor) d))
      \<and> (\<forall>r \<in> rowsOf u d. rowSeq r \<le> parseCursor w \<or> parseCursor cursor \<ge> rowSeq r)
      \<and> rowsAfter u (parseCursor w) d = []"
proof (induction fuel arbitrary: cursor)
  case (Suc fuel)
  let ?s = "parseCursor cursor" and ?delta = "pullChanges H u cursor limit d"
  let ?A = "rowsAfter u ?s d"
  note page = pull_page_is_lowest_rows [OF assms, of cursor H, unfolded Let_def]
  have rec: "mset (pdRecords ?delta) = mset (map (rowRecord H) (take limit ?A))"
    by (simp add: pullChanges_spec [OF assms(1)] Let_def mset_rowRecords)
  show ?case
  proof (cases "pdMore ?delta")
    case True
    with page have long: "limit < length ?A" and w: "parseCursor (pdWatermark ?delta) = rowSeq (last (take limit ?A))"
      by auto
    then have ne: "?A \<noteq> []" by auto
    have later: "rowsAfter u (parseCursor (pdWatermark ?delta)) d = drop limit ?A"
      unfolding w by (rule rowsAfter_later [OF assms(1,2) ne])
    with Suc.prems long have "length (rowsAfter u (parseCursor (pdWatermark ?delta)) d) < fuel"
      using assms(2) by simp
    from Suc.IH [OF this] obtain rs v where r: "pullPages H u limit fuel (pdWatermark ?delta) d = Some (rs, v)"
      "mset rs = mset (map (rowRecord H) (drop limit ?A))" "rowsAfter u (parseCursor v) d = []"
      unfolding later by blast
    have "mset (pdRecords ?delta @ rs) = mset (map (rowRecord H) (take limit ?A @ drop limit ?A))"
      using rec r(2) by (simp only: mset_append map_append)
    with r True show ?thesis
      using set_rowsAfter [of u "parseCursor v" d] by (force simp: Let_def)
  next
    case False
    with page have short: "length ?A \<le> limit" by auto
    have w: "parseCursor (pdWatermark ?delta) = (if ?A = [] then ?s else rowSeq (last ?A))"
      using page short by simp
    have done': "rowsAfter u (parseCursor (pdWatermark ?delta)) d = []"
    proof (cases "?A = []")
      case False
      then show ?thesis using rowsAfter_later [OF assms(1,2) False] short w by simp
    qed (simp add: w)
    then show ?thesis using False rec short set_rowsAfter [of u "parseCursor (pdWatermark ?delta)" d]
      by (force simp: Let_def)
  qed
qed simp

text \<open>
  C5. Paging terminates and loses nothing: with more fuel than rows, following the watermarks
  from any cursor ends, delivers the record of every row after the cursor exactly once and no
  other, and ends at a cursor with no row after it.
\<close>

theorem pull_paging_complete:
  assumes "db_ok d" "0 < limit" "syncSeqOf u d \<le> MAX_SEQ" "card (rowsOf u d) < fuel"
  shows "\<exists>rs w. pullPages H u limit fuel cursor d = Some (rs, w)
    \<and> mset rs = mset (map (rowRecord H) (rowsAfter u (parseCursor cursor) d))
    \<and> set (rowsAfter u (parseCursor cursor) d) = {r \<in> rowsOf u d. parseCursor cursor < rowSeq r}
    \<and> {r \<in> rowsOf u d. parseCursor w < rowSeq r} = {}"
proof -
  let ?A = "rowsAfter u (parseCursor cursor) d"
  have "distinct ?A" using idb_ok_tbl_ok [OF rowsAfter_sorted [OF assms(1)]] by (simp add: distinct_map)
  then have "length ?A = card (set ?A)" by (simp add: distinct_card)
  also have "\<dots> \<le> card (rowsOf u d)"
    by (rule card_mono) (auto simp: set_rowsAfter rowsOf_def allRows_def)
  finally have "length ?A < fuel" using assms(4) by simp
  from pullPages_complete [OF assms(1-3) this, of H] obtain rs w
    where "pullPages H u limit fuel cursor d = Some (rs, w)" "mset rs = mset (map (rowRecord H) ?A)"
      and w: "rowsAfter u (parseCursor w) d = []" by blast
  moreover have "{r \<in> rowsOf u d. parseCursor w < rowSeq r} = {}"
    unfolding set_rowsAfter [symmetric] w by simp
  ultimately show ?thesis using set_rowsAfter by blast
qed

definition three_rows :: db where
  "three_rows = sample_db\<lparr>dbUsers := [\<lparr>urId = ''u'', urSyncSeq = 3\<rparr>],
     dbTopics := [sample_topic_row, sample_topic_row\<lparr>dtId := ''s'', dtTitle := ''Art'', dtSeq := 3\<rparr>],
     dbCards := [\<lparr>dcId = ''c'', dcUser = ''u'', dcTopic = ''t'', dcLevel = 0, dcData = JObj [], dcReview = None,
       dcUpdatedAt = 5, dcDeletedAt = None, dcSeq = 2\<rparr>]\<rparr>"

lemma three_rows_ok: "db_ok three_rows" "syncSeqOf ''u'' three_rows = 3"
  by (auto simp: three_rows_def sample_db_def db_ok_def tables_ok_def seqs_ok_def fk_ok_def titles_ok_def
      allRows_def sample_topic_row_def syncSeqOf_def)

lemma three_rows_card: "card (rowsOf ''u'' three_rows) < 5"
proof -
  have "rowsOf ''u'' three_rows \<subseteq> set (map RowTopic (dbTopics three_rows) @ map RowCard (dbCards three_rows))"
    by (auto simp: rowsOf_def allRows_def)
  then have "card (rowsOf ''u'' three_rows)
      \<le> card (set (map RowTopic (dbTopics three_rows) @ map RowCard (dbCards three_rows)))"
    by (rule card_mono [rotated]) simp
  also have "\<dots> \<le> length (map RowTopic (dbTopics three_rows) @ map RowCard (dbCards three_rows))"
    by (rule card_length)
  finally show ?thesis by (simp add: three_rows_def)
qed

lemma pull_page_is_lowest_rows_witness:
  "pdMore (pullChanges plain_host ''u'' ''0'' 2 three_rows) = (2 < length (rowsAfter ''u'' 0 three_rows))"
  using pull_page_is_lowest_rows [OF three_rows_ok(1), of 2 "''u''" "''0''" plain_host] three_rows_ok(2)
    parse_initial by (simp add: MAX_SEQ_def Let_def INITIAL_CURSOR_def)

lemma pull_paging_complete_witness:
  "\<exists>rs w. pullPages plain_host ''u'' 2 5 ''0'' three_rows = Some (rs, w)
    \<and> {r \<in> rowsOf ''u'' three_rows. parseCursor w < rowSeq r} = {}"
  using pull_paging_complete [OF three_rows_ok(1) _ _ three_rows_card, of 2 plain_host "''0''"] three_rows_ok(2)
  by (fastforce simp: MAX_SEQ_def)

end
