(* ===== verification/ServerDevices.thy ===== *)
theory ServerDevices
  imports ServerPull
begin

text \<open>
  Devices and tombstones: the device limit, what a purge may remove, and the invariant of every
  state the sync service can reach.
\<close>

section \<open>The device limit\<close>

definition liveDevices :: "id \<Rightarrow> db \<Rightarrow> device_row list" where
  "liveDevices u d = filter (\<lambda>v. sdUser v = u \<and> sdRevokedAt v = None) (dbDevices d)"

lemma length_filter_put_known:
  "tbl_get key (key r) xs = Some old \<Longrightarrow> P r = P old \<Longrightarrow> length (filter P (tbl_put key r xs)) = length (filter P xs)"
  by (induction xs) (auto split: if_splits)

lemma length_filter_put_new:
  "tbl_get key (key r) xs = None \<Longrightarrow>
   length (filter P (tbl_put key r xs)) = length (filter P xs) + (if P r then 1 else 0)"
  by (induction xs) (auto split: if_splits)

lemma filter_live_active:
  "filter (\<lambda>v. sdUser v = u \<and> sdRevokedAt v = None) (filter (\<lambda>v. \<not> staleDevice u now v) vs)
   = filter (activeDevice u now) (filter (\<lambda>v. \<not> staleDevice u now v) vs)"
  by (induction vs) (auto simp: staleDevice_def activeDevice_def)

lemma report_limit:
  assumes "reportDevice u dev cursor ua now d = Inr d'" "length (liveDevices v d) \<le> PRO_DEVICE_LIMIT"
  shows "length (liveDevices v d') \<le> PRO_DEVICE_LIMIT"
proof (cases "tbl_get sdId dev (dbDevices d)")
  case (Some old)
  have k: "sdId old = dev" using Some by (rule tbl_get_key)
  let ?new = "old\<lparr>sdLastPulled := (if truthyStr cursor then parseCursor (the cursor) else sdLastPulled old),
    sdLastSeen := now, sdUserAgent := (if truthyStr ua then ua else sdUserAgent old)\<rparr>"
  have "dbDevices d' = tbl_put sdId ?new (dbDevices d)"
    using assms(1) Some by (auto simp: reportDevice_def split: if_splits)
  then have "length (liveDevices v d') = length (liveDevices v d)"
    using length_filter_put_known [of sdId ?new "dbDevices d" old "\<lambda>x. sdUser x = v \<and> sdRevokedAt x = None"] Some k
    by (simp add: liveDevices_def)
  with assms(2) show ?thesis by simp
next
  case None
  let ?kept = "filter (\<lambda>x. \<not> staleDevice u now x) (dbDevices d)"
  let ?new = "\<lparr>sdId = dev, sdUser = u, sdName = None,
     sdLastPulled = parseCursor (case cursor of None \<Rightarrow> INITIAL_CURSOR | Some c \<Rightarrow> c),
     sdLastSeen = now, sdUserAgent = ua, sdRevokedAt = None\<rparr>"
  have d': "dbDevices d' = tbl_put sdId ?new ?kept"
    and room: "length (filter (activeDevice u now) ?kept) < PRO_DEVICE_LIMIT"
    using assms(1) None by (auto simp: reportDevice_def Let_def split: if_splits)
  let ?P = "\<lambda>w x. sdUser x = w \<and> sdRevokedAt x = None"
  have "tbl_get sdId dev ?kept = None" using None by (auto simp: tbl_get_None)
  then have len: "length (liveDevices v d') = length (filter (?P v) ?kept) + (if v = u then 1 else 0)"
    using length_filter_put_new [of sdId ?new ?kept "?P v"] by (simp add: liveDevices_def d' eq_commute)
  show ?thesis
  proof (cases "v = u")
    case True
    with len room filter_live_active [of u now "dbDevices d"] show ?thesis by simp
  next
    case False
    have "filter (?P v) ?kept = filter (?P v) (dbDevices d)"
      using False by (auto simp: staleDevice_def intro!: filter_cong)
    with False len assms(2) show ?thesis by (simp add: liveDevices_def)
  qed
qed

lemma revoke_limit:
  "revokeSyncDevice u dev cur now d = Inr (b, d') \<Longrightarrow> length (liveDevices v d') \<le> length (liveDevices v d)"
proof -
  assume "revokeSyncDevice u dev cur now d = Inr (b, d')"
  then have d': "dbDevices d' = map (\<lambda>x. if sdId x = dev \<and> sdUser x = u \<and> sdRevokedAt x = None
      then x\<lparr>sdRevokedAt := Some now\<rparr> else x) (dbDevices d)"
    by (auto simp: revokeSyncDevice_def Let_def split: if_splits)
  have "length (filter P (map f xs)) \<le> length (filter P xs)" if "\<And>x. P (f x) \<Longrightarrow> P x"
    for P and f :: "device_row \<Rightarrow> device_row" and xs
    using that by (induction xs) auto
  note shrink = this
  show ?thesis unfolding liveDevices_def d' by (rule shrink) (auto split: if_splits)
qed

section \<open>Purging\<close>

lemma minPulled_spec:
  "minPulled vs = None \<longleftrightarrow> vs = []" "minPulled vs = Some m \<Longrightarrow> v \<in> set vs \<Longrightarrow> m \<le> sdLastPulled v"
proof -
  let ?f = "\<lambda>v m. case m of None \<Rightarrow> Some (sdLastPulled v)
     | Some n \<Rightarrow> if sdLastPulled v < n then Some (sdLastPulled v) else Some n"
  have none: "fold ?f vs (Some n) \<noteq> None" for n :: int and vs :: "device_row list"
    by (induction vs arbitrary: n) auto
  then show "minPulled vs = None \<longleftrightarrow> vs = []" by (cases vs) (auto simp: minPulled_def)
  have "fold ?f vs (Some n) = Some m \<Longrightarrow> m \<le> n \<and> (\<forall>v \<in> set vs. m \<le> sdLastPulled v)" for n m vs
    by (induction vs arbitrary: n) (force split: if_splits)+
  then show "minPulled vs = Some m \<Longrightarrow> v \<in> set vs \<Longrightarrow> m \<le> sdLastPulled v"
    by (cases vs) (force simp: minPulled_def)+
qed

text \<open>Every active device of the user has pulled past \<open>seq\<close>, or there is none and the row is old.\<close>

definition confirmed :: "id \<Rightarrow> ms \<Rightarrow> db \<Rightarrow> ms option \<Rightarrow> int \<Rightarrow> bool" where
  "confirmed u now d deletedAt seq \<longleftrightarrow> deletedAt \<noteq> None
     \<and> (\<forall>v \<in> set (dbDevices d). activeDevice u now v \<longrightarrow> seq \<le> sdLastPulled v)
     \<and> ((\<forall>v \<in> set (dbDevices d). \<not> activeDevice u now v) \<longrightarrow> the deletedAt \<le> now - ACTIVE_WINDOW_MS)"

lemma purgeable_confirmed:
  "purgeable (minPulled (filter (activeDevice u now) (dbDevices d))) now del seq \<Longrightarrow> confirmed u now d del seq"
  using minPulled_spec(2) [of "filter (activeDevice u now) (dbDevices d)"]
    minPulled_spec(1) [of "filter (activeDevice u now) (dbDevices d)"]
  by (fastforce simp: purgeable_def confirmed_def filter_empty_conv split: option.splits)

lemma purge_rows:
  fixes u now d
  defines "m \<equiv> minPulled (filter (activeDevice u now) (dbDevices d))"
  shows "dbTopics (purgeSyncedTombstones u now d)
      = filter (\<lambda>t. \<not> (dtUser t = u \<and> purgeable m now (dtDeletedAt t) (dtSeq t))) (dbTopics d)"
    "set (dbCards (purgeSyncedTombstones u now d)) = {c \<in> set (dbCards d).
      \<not> (dcUser c = u \<and> purgeable m now (dcDeletedAt c) (dcSeq c))
      \<and> \<not> (\<exists>t \<in> set (dbTopics d). dtUser t = u \<and> purgeable m now (dtDeletedAt t) (dtSeq t) \<and> dtId t = dcTopic c)}"
    "dbUsers (purgeSyncedTombstones u now d) = dbUsers d" "dbOps (purgeSyncedTombstones u now d) = dbOps d"
    "dbDevices (purgeSyncedTombstones u now d) = filter (\<lambda>v. \<not> staleDevice u now v) (dbDevices d)"
  by (auto simp: purgeSyncedTombstones_def Let_def m_def)

lemma purge_ok: "db_ok d \<Longrightarrow> db_ok (purgeSyncedTombstones u now d)"
proof -
  assume ok: "db_ok d"
  let ?d = "purgeSyncedTombstones u now d"
  note p = purge_rows [where u = u and now = now and d = d]
  have sub: "allRows ?d \<subseteq> allRows d" by (auto simp: allRows_def p)
  have "tbl_ok dcId (dbCards ?d)"
    using ok by (simp add: purgeSyncedTombstones_def Let_def deleteTopics_def deleteCards_def db_ok_def
        tables_ok_def tbl_ok_filter)
  then have "tables_ok ?d" using ok by (simp add: tables_ok_def db_ok_def p tbl_ok_filter)
  moreover have "seqs_ok ?d" using ok seqs_ok_shrink [OF _ sub p(3)] by (simp add: db_ok_def)
  moreover have "titles_ok ?d" using ok by (auto simp: titles_ok_def db_ok_def p)
  moreover have "fk_ok ?d" unfolding fk_ok_def
  proof
    fix c assume c: "c \<in> set (dbCards ?d)"
    then have "c \<in> set (dbCards d)" by (simp add: p)
    with ok obtain t where "t \<in> set (dbTopics d)" "dtId t = dcTopic c" "dtUser t = dcUser c"
      by (auto simp: db_ok_def fk_ok_def)
    then show "\<exists>t \<in> set (dbTopics ?d). dtId t = dcTopic c \<and> dtUser t = dcUser c"
      using c by (auto simp: p)
  qed
  ultimately show ?thesis by (simp add: db_ok_def)
qed

lemma report_rows:
  assumes "reportDevice u dev cursor ua now d = Inr d'"
  shows "dbTopics d' = dbTopics d" "dbCards d' = dbCards d" "dbUsers d' = dbUsers d" "dbOps d' = dbOps d"
    "tbl_ok sdId (dbDevices d) \<Longrightarrow> tbl_ok sdId (dbDevices d')"
  using assms by (auto simp: reportDevice_def Let_def tbl_ok_put tbl_ok_filter split: if_splits option.splits)

lemma revoke_rows:
  assumes "revokeSyncDevice u dev cur now d = Inr (b, d')"
  shows "dbTopics d' = dbTopics d" "dbCards d' = dbCards d" "dbUsers d' = dbUsers d" "dbOps d' = dbOps d"
    "map sdId (dbDevices d') = map sdId (dbDevices d)"
proof -
  have "map (\<lambda>x. sdId (if P x then x\<lparr>sdRevokedAt := Some now\<rparr> else x)) vs = map sdId vs" for P vs
    by (induction vs) auto
  then show "dbTopics d' = dbTopics d" "dbCards d' = dbCards d" "dbUsers d' = dbUsers d" "dbOps d' = dbOps d"
    "map sdId (dbDevices d') = map sdId (dbDevices d)"
    using assms by (auto simp: revokeSyncDevice_def Let_def o_def split: if_splits)
qed

lemma db_ok_devices:
  assumes "db_ok d" "dbTopics d' = dbTopics d" "dbCards d' = dbCards d" "dbUsers d' = dbUsers d"
    "dbOps d' = dbOps d" "tbl_ok sdId (dbDevices d')"
  shows "db_ok d'"
  using assms seqs_ok_shrink [of d d'] allRows_same [of d' d]
  by (simp add: db_ok_def tables_ok_def fk_ok_def titles_ok_def)

section \<open>Reachable states\<close>

text \<open>
  The service from an empty database: accounts appear (the auth component creates them with
  counter zero), devices report, pull, push and are revoked, in any order and at any times.
\<close>

definition addUser :: "id \<Rightarrow> db \<Rightarrow> db" where
  "addUser u d = (if tbl_get urId u (dbUsers d) = None
     then d\<lparr>dbUsers := tbl_put urId \<lparr>urId = u, urSyncSeq = 0\<rparr> (dbUsers d)\<rparr> else d)"

definition empty_db :: db where
  "empty_db = \<lparr>dbUsers = [], dbTopics = [], dbCards = [], dbDevices = [], dbOps = []\<rparr>"

inductive reachable :: "host \<Rightarrow> server \<Rightarrow> bool" for H :: host where
  start: "srvDb s = empty_db \<Longrightarrow> reachable H s"
| account: "reachable H s \<Longrightarrow> reachable H (s\<lparr>srvDb := addUser u (srvDb s)\<rparr>)"
| push: "reachable H s \<Longrightarrow> applyPushBatch H S mid now u dev ms s = Inr (ack, msgs, s') \<Longrightarrow> reachable H s'"
| report: "reachable H s \<Longrightarrow> reportDevice u dev cursor ua now (srvDb s) = Inr d \<Longrightarrow>
    reachable H (s\<lparr>srvDb := d\<rparr>)"
| boot: "reachable H s \<Longrightarrow> bootstrap H u dev cursor ua now (srvDb s) = Inr (delta, d) \<Longrightarrow>
    reachable H (s\<lparr>srvDb := d\<rparr>)"
| finish: "reachable H s \<Longrightarrow> finishSyncCycle u dev cur ua now (srvDb s) = Inr d \<Longrightarrow>
    reachable H (s\<lparr>srvDb := d\<rparr>)"
| revoke: "reachable H s \<Longrightarrow> revokeSyncDevice u dev cdev now (srvDb s) = Inr (b, d) \<Longrightarrow>
    reachable H (s\<lparr>srvDb := d\<rparr>)"

definition service_ok :: "db \<Rightarrow> bool" where
  "service_ok d \<longleftrightarrow> db_ok d \<and> (\<forall>u. length (liveDevices u d) \<le> PRO_DEVICE_LIMIT)"

lemma empty_ok: "service_ok empty_db"
  by (simp add: service_ok_def empty_db_def db_ok_def tables_ok_def seqs_ok_def fk_ok_def titles_ok_def
      allRows_def liveDevices_def)

lemma account_ok: "service_ok d \<Longrightarrow> service_ok (addUser u d)"
proof (cases "tbl_get urId u (dbUsers d)")
  case None
  assume ok: "service_ok d"
  let ?d = "addUser u d"
  have s: "syncSeqOf v ?d = syncSeqOf v d" for v
    using None by (simp add: addUser_def syncSeqOf_def tbl_get_put)
  have us: "x \<in> set (dbUsers ?d) \<Longrightarrow> x \<in> set (dbUsers d) \<or> urSyncSeq x = 0" for x
    using set_tbl_put_subset [of urId "\<lparr>urId = u, urSyncSeq = 0\<rparr>" "dbUsers d"] None
    by (auto simp: addUser_def)
  have rows: "allRows ?d = allRows d" by (simp add: addUser_def allRows_def)
  have "seqs_ok ?d" using ok us by (force simp: service_ok_def db_ok_def seqs_ok_def s rows)
  with ok show ?thesis
    by (simp add: service_ok_def db_ok_def tables_ok_def fk_ok_def titles_ok_def addUser_def liveDevices_def tbl_ok_put)
qed (simp add: addUser_def)

lemma report_ok: "reportDevice u dev cursor ua now d = Inr d' \<Longrightarrow> service_ok d \<Longrightarrow> service_ok d'"
  using report_rows [of u dev cursor ua now d d'] report_limit [of u dev cursor ua now d d'] db_ok_devices [of d d']
  by (simp add: service_ok_def db_ok_def tables_ok_def)

lemma purge_service_ok: "service_ok d \<Longrightarrow> service_ok (purgeSyncedTombstones u now d)"
proof -
  assume ok: "service_ok d"
  have "length (liveDevices v (purgeSyncedTombstones u now d)) \<le> length (liveDevices v d)" for v
  proof -
    have "length (filter P (filter Q xs)) \<le> length (filter P xs)" for P Q and xs :: "device_row list"
      by (induction xs) auto
    then show ?thesis by (simp add: liveDevices_def purge_rows del: filter_filter)
  qed
  with ok purge_ok show ?thesis by (meson order_trans service_ok_def)
qed

lemma steps_devices: "db_steps u now d d' \<Longrightarrow> dbDevices d' = dbDevices d"
proof (induction rule: rtranclp_induct)
  case (step x y)
  from step(2) have "dbDevices y = dbDevices x"
  proof (cases rule: db_step.cases)
    case (topic s d1 r)
    then show ?thesis using nextSeq_spec(5) [OF topic(1)] writeTopic_spec(5) [OF topic(6)] by simp
  next
    case (card s d1 r t)
    then show ?thesis using nextSeq_spec(5) [OF card(2)] by simp
  qed simp_all
  with step show ?case by simp
qed simp

lemma push_ok:
  assumes "applyPushBatch H S mid now u dev ms s = Inr (ack, msgs, s')" "service_ok (srvDb s)"
  shows "service_ok (srvDb s')"
proof -
  have ok: "db_ok (srvDb s)" using assms(2) by (simp add: service_ok_def)
  obtain d1 where d1: "db_steps u now (srvDb s) d1" "srvDb s' = pruneAppliedOps u now d1"
    using assms(1) ok by (rule push_steps)
  with steps_ok [OF d1(1) ok] prune_ok steps_devices [OF d1(1)] assms(2) show ?thesis
    by (simp add: service_ok_def liveDevices_def)
qed

lemma revoke_ok: "revokeSyncDevice u dev cur now d = Inr (b, d') \<Longrightarrow> service_ok d \<Longrightarrow> service_ok d'"
proof -
  assume r: "revokeSyncDevice u dev cur now d = Inr (b, d')" and ok: "service_ok d"
  have "db_ok d'"
    using ok revoke_rows(5) [OF r]
    by (intro db_ok_devices [OF _ revoke_rows(1-4) [OF r]]) (simp_all add: service_ok_def db_ok_def tables_ok_def)
  moreover have "length (liveDevices v d') \<le> PRO_DEVICE_LIMIT" for v
    using revoke_limit [OF r, of v] ok by (meson order_trans service_ok_def)
  ultimately show ?thesis by (simp add: service_ok_def)
qed

lemmas service_keeps [inv_intros] = account_ok report_ok purge_service_ok push_ok revoke_ok

section \<open>Properties\<close>

text \<open>
  C4. Every state the sync service reaches from an empty database is well formed: keys are
  unique, sequences are positive, below the user's counter and never shared by two of the user's
  rows, every card has its topic with the same owner, no user has two live topics of one title,
  and no user has more than three devices that are not revoked.
\<close>

theorem reachable_well_formed:
  assumes "reachable H s"
  shows "db_ok (srvDb s) \<and> length (liveDevices u (srvDb s)) \<le> PRO_DEVICE_LIMIT"
proof -
  from assms have "service_ok (srvDb s)"
  proof (induction rule: reachable.induct)
    case (boot s u dev cursor ua now delta d)
    then show ?case by (auto simp: bootstrap_def Let_def split: sum.splits intro: service_keeps)
  next
    case (finish s u dev cur ua now d)
    then show ?case by (auto simp: finishSyncCycle_def split: sum.splits intro: service_keeps)
  qed (auto simp: empty_ok intro: service_keeps)
  then show ?thesis by (simp add: service_ok_def)
qed

lemma reachable_well_formed_witness:
  "\<exists>s. reachable plain_host s \<and> map sdId (dbDevices (srvDb s)) = [''d''] \<and> db_ok (srvDb s)"
proof -
  let ?s0 = "\<lparr>srvDb = empty_db, srvRedis = \<lparr>rdOpen = False, rdOps = []\<rparr>\<rparr>"
  obtain d where d: "reportDevice ''u'' ''d'' None None 5 empty_db = Inr d" "map sdId (dbDevices d) = [''d'']"
    by (simp add: reportDevice_def empty_db_def PRO_DEVICE_LIMIT_def)
  have "reachable plain_host (?s0\<lparr>srvDb := d\<rparr>)"
    using d(1) by (intro reachable.report [OF reachable.start]) simp_all
  with reachable_well_formed [OF this] d(2) show ?thesis by fastforce
qed

text \<open>
  C10. Purging is safe: a topic disappears only as a tombstone whose sequence every active device
  of its owner has confirmed by pulling past it (with no active device, only thirty days after
  the delete); a card disappears only under the same condition or with its purged topic; nobody
  else's rows are touched and the storage stays well formed.
\<close>

theorem purge_only_confirmed:
  assumes "db_ok d"
  shows "let d' = purgeSyncedTombstones u now d in db_ok d'
    \<and> dbTopics d' = filter (\<lambda>t. t \<in> set (dbTopics d')) (dbTopics d)
    \<and> (\<forall>t \<in> set (dbTopics d) - set (dbTopics d'). dtUser t = u \<and> confirmed u now d (dtDeletedAt t) (dtSeq t))
    \<and> set (dbCards d') \<subseteq> set (dbCards d)
    \<and> (\<forall>c \<in> set (dbCards d) - set (dbCards d'). dcUser c = u
         \<and> (confirmed u now d (dcDeletedAt c) (dcSeq c)
            \<or> (\<exists>t \<in> set (dbTopics d) - set (dbTopics d'). dtId t = dcTopic c)))"
proof -
  let ?d = "purgeSyncedTombstones u now d"
  note p = purge_rows [where u = u and now = now and d = d]
  have own: "dcUser c = dtUser t" if "c \<in> set (dbCards d)" "t \<in> set (dbTopics d)" "dtId t = dcTopic c" for c t
  proof -
    from assms that(1) obtain t' where t': "t' \<in> set (dbTopics d)" "dtId t' = dcTopic c" "dtUser t' = dcUser c"
      by (auto simp: db_ok_def fk_ok_def)
    with that(2,3) assms have "t' = t" by (auto simp: db_ok_def tables_ok_def distinct_map inj_on_def)
    with t'(3) show ?thesis by simp
  qed
  have "dbTopics ?d = filter (\<lambda>t. t \<in> set (dbTopics ?d)) (dbTopics d)"
    unfolding p(1) by (rule filter_cong) auto
  moreover have "\<forall>t \<in> set (dbTopics d) - set (dbTopics ?d). dtUser t = u \<and> confirmed u now d (dtDeletedAt t) (dtSeq t)"
    using purgeable_confirmed by (auto simp: p(1))
  moreover have "\<forall>c \<in> set (dbCards d) - set (dbCards ?d). dcUser c = u
         \<and> (confirmed u now d (dcDeletedAt c) (dcSeq c)
            \<or> (\<exists>t \<in> set (dbTopics d) - set (dbTopics ?d). dtId t = dcTopic c))"
    using purgeable_confirmed own by (force simp: p(1,2))
  moreover have "set (dbCards ?d) \<subseteq> set (dbCards d)" unfolding p(2) by blast
  ultimately show ?thesis using purge_ok [OF assms] unfolding Let_def by (intro conjI)
qed

lemma purge_only_confirmed_witness:
  "set (dbCards (purgeSyncedTombstones ''u'' 9 three_rows)) \<subseteq> set (dbCards three_rows)"
  using purge_only_confirmed [OF three_rows_ok(1), of "''u''" 9] by (simp add: Let_def)

end
