(* ===== verification/Calendar.thy ===== *)
theory Calendar
  imports JsValue
begin

text \<open>
  apps/client/src: calendar arithmetic in the user's time zone (lib/get-today.ts), the
  64 day Leitner schedule (lib/leitner-schedule.ts), the study day and the week of a topic
  (models/day.model.ts and the week functions of models/topic.model.ts), grading and the due
  queue (lib/study.ts), the next review message (lib/get-next-review-message.ts).

  The time zone is the data base of the runtime: \<open>tzLocal\<close> maps an instant to local time
  and \<open>tzUtc\<close> maps local time to an instant, as the \<open>Date\<close> setters do (both in milliseconds).
  \<open>tz_ok\<close> states what the theorems need of a zone: the setters stay on the day they were
  asked for, local midnight separates the instants of one day from those of the day before,
  and the zone's offset never moves by half a day. \<open>dst_zone\<close> is a zone with a clock change
  that has all three.
\<close>

section \<open>Local time\<close>

record tz =
  tzLocal :: "ms \<Rightarrow> int"
  tzUtc :: "int \<Rightarrow> ms"

definition DAY_MS :: int where
  "DAY_MS = 86400000"

definition localDay :: "tz \<Rightarrow> ms \<Rightarrow> int" where
  "localDay Z t = tzLocal Z t div DAY_MS"

text \<open>\<open>Date.prototype.getDay\<close>: 1970-01-01 was a Thursday.\<close>

definition weekday :: "tz \<Rightarrow> ms \<Rightarrow> int" where
  "weekday Z t = (localDay Z t + 4) mod 7"

definition getToday :: "tz \<Rightarrow> ms \<Rightarrow> int" where
  "getToday Z now = weekday Z now"

definition startOfDayTs :: "tz \<Rightarrow> ms \<Rightarrow> ms" where
  "startOfDayTs Z ts = tzUtc Z (localDay Z ts * DAY_MS)"

definition addDays :: "tz \<Rightarrow> ms \<Rightarrow> int \<Rightarrow> ms" where
  "addDays Z ts days = tzUtc Z (tzLocal Z ts + days * DAY_MS)"

definition isAnotherDay :: "tz \<Rightarrow> ms \<Rightarrow> ms \<Rightarrow> bool" where
  "isAnotherDay Z date now \<longleftrightarrow> startOfDayTs Z date < startOfDayTs Z now"

definition tz_ok :: "tz \<Rightarrow> bool" where
  "tz_ok Z \<longleftrightarrow>
     (\<forall>l. localDay Z (tzUtc Z l) = l div DAY_MS) \<and>
     (\<forall>d t. tzUtc Z (d * DAY_MS) \<le> t \<longleftrightarrow> d \<le> localDay Z t) \<and>
     (\<forall>l m. 2 * \<bar>(tzUtc Z l - l) - (tzUtc Z m - m)\<bar> < DAY_MS)"

lemma DAY_MS_pos [simp]: "0 < DAY_MS" "DAY_MS \<noteq> 0" "\<not> DAY_MS \<le> 0"
  by (simp_all add: DAY_MS_def)

lemma localDay_utc: "tz_ok Z \<Longrightarrow> localDay Z (tzUtc Z l) = l div DAY_MS"
  unfolding tz_ok_def by blast

lemma midnight_divides: "tz_ok Z \<Longrightarrow> tzUtc Z (d * DAY_MS) \<le> t \<longleftrightarrow> d \<le> localDay Z t"
  unfolding tz_ok_def by blast

lemma offset_near: "tz_ok Z \<Longrightarrow> 2 * \<bar>(tzUtc Z l - l) - (tzUtc Z m - m)\<bar> < DAY_MS"
  unfolding tz_ok_def by blast

lemma localDay_startOfDay: "tz_ok Z \<Longrightarrow> localDay Z (startOfDayTs Z ts) = localDay Z ts"
  by (simp add: startOfDayTs_def localDay_utc)

lemma localDay_addDays: "tz_ok Z \<Longrightarrow> localDay Z (addDays Z ts n) = localDay Z ts + n"
  unfolding addDays_def by (subst localDay_utc) (simp_all add: localDay_def)

lemma startOfDay_le: "tz_ok Z \<Longrightarrow> startOfDayTs Z s \<le> t \<longleftrightarrow> localDay Z s \<le> localDay Z t"
  by (simp add: startOfDayTs_def midnight_divides)

lemma startOfDay_mono:
  "tz_ok Z \<Longrightarrow> startOfDayTs Z s \<le> startOfDayTs Z t \<longleftrightarrow> localDay Z s \<le> localDay Z t"
  by (simp add: startOfDay_le localDay_startOfDay)

lemma startOfDay_less:
  "tz_ok Z \<Longrightarrow> startOfDayTs Z s < startOfDayTs Z t \<longleftrightarrow> localDay Z s < localDay Z t"
  using startOfDay_mono [of Z t s] by linarith

lemma isAnotherDay_iff: "tz_ok Z \<Longrightarrow> isAnotherDay Z date now \<longleftrightarrow> localDay Z date < localDay Z now"
  by (simp add: isAnotherDay_def startOfDay_less)

text \<open>\<open>Math.round(x / 86400000)\<close> of the distance of two midnights is the number of days.\<close>

definition jsRound :: "rat \<Rightarrow> int" where
  "jsRound r = \<lfloor>r + 1 / 2\<rfloor>"

lemma near_bounds: "2 * \<bar>x - y\<bar> < d \<Longrightarrow> 2 * y - d < 2 * x \<and> 2 * x < 2 * y + d" for x y d :: int
  by (auto simp: abs_if split: if_splits)

lemma jsRound_days:
  assumes "2 * \<bar>x - n * DAY_MS\<bar> < DAY_MS"
  shows "jsRound (of_int x / of_int DAY_MS) = n"
proof -
  let ?d = "of_int DAY_MS :: rat"
  have d: "0 < ?d" by (simp add: DAY_MS_def)
  from near_bounds [OF assms] have "of_int (2 * (n * DAY_MS) - DAY_MS) < (of_int (2 * x) :: rat)"
    "(of_int (2 * x) :: rat) < of_int (2 * (n * DAY_MS) + DAY_MS)"
    by (simp_all only: of_int_less_iff)
  then have "of_int n - 1 / 2 < of_int x / ?d" "of_int x / ?d < of_int n + 1 / 2"
    using d by (simp_all add: field_simps)
  then show ?thesis unfolding jsRound_def by (simp add: floor_eq_iff)
qed

lemma midnights_apart:
  assumes "tz_ok Z"
  shows "2 * \<bar>(startOfDayTs Z t - startOfDayTs Z s) - (localDay Z t - localDay Z s) * DAY_MS\<bar> < DAY_MS"
  using offset_near [OF assms, of "localDay Z t * DAY_MS" "localDay Z s * DAY_MS"]
  by (simp add: startOfDayTs_def algebra_simps)

section \<open>The schedule\<close>

definition LEITNER_64_DAY_SCHEDULE :: "int list list" where
  "LEITNER_64_DAY_SCHEDULE = [
    [1], [2, 1], [3, 1], [2, 1], [4, 1], [2, 1], [3, 1], [2, 1],
    [1], [2, 1], [3, 1], [2, 1], [5, 1], [4, 2, 1], [3, 1], [2, 1],
    [1], [2, 1], [3, 1], [2, 1], [4, 1], [2, 1], [3, 1], [2, 1],
    [6, 1], [2, 1], [3, 1], [2, 1], [5, 1], [4, 2, 1], [3, 1], [2, 1],
    [1], [2, 1], [3, 1], [2, 1], [4, 1], [2, 1], [3, 1], [2, 1],
    [1], [2, 1], [3, 1], [2, 1], [5, 1], [4, 2, 1], [3, 1], [2, 1],
    [1], [2, 1], [3, 1], [2, 1], [4, 1], [2, 1], [3, 1], [2, 1],
    [7, 1], [2, 1], [3, 1], [6, 2, 1], [5, 1], [4, 2, 1], [3, 1], [2, 1]]"

lemma schedule_length [simp]: "length LEITNER_64_DAY_SCHEDULE = 64"
  by (simp add: LEITNER_64_DAY_SCHEDULE_def)

text \<open>The remainder operator of the language takes the sign of the dividend.\<close>

definition jsRem :: "int \<Rightarrow> int \<Rightarrow> int" where
  "jsRem a b = (if 0 \<le> a then a mod b else - ((- a) mod b))"

definition getCycleDay :: "tz \<Rightarrow> ms \<Rightarrow> ms \<Rightarrow> int" where
  "getCycleDay Z pivot date =
     (let len = int (length LEITNER_64_DAY_SCHEDULE);
          days = jsRound (of_int (startOfDayTs Z date - startOfDayTs Z pivot) / 86400000)
      in jsRem (jsRem days len + len) len)"

lemma jsRem_wrap:
  assumes "0 < b"
  shows "jsRem (jsRem a b + b) b = a mod b"
proof (cases "0 \<le> a")
  case True
  moreover have "0 \<le> a mod b" using assms by simp
  ultimately show ?thesis using assms by (simp add: jsRem_def)
next
  case False
  have "(- a) mod b < b" using assms by simp
  with False have "jsRem (jsRem a b + b) b = (- ((- a) mod b) + b) mod b"
    by (simp add: jsRem_def)
  also have "\<dots> = (- ((- a) mod b)) mod b" by simp
  also have "\<dots> = a mod b" by (simp only: mod_minus_eq minus_minus)
  finally show ?thesis .
qed

lemma getCycleDay_eq:
  assumes "tz_ok Z"
  shows "getCycleDay Z pivot date = (localDay Z date - localDay Z pivot) mod 64"
  using jsRound_days [OF midnights_apart [OF assms, of date pivot]]
  by (simp add: getCycleDay_def jsRem_wrap DAY_MS_def)

lemma getCycleDay_bounds: "0 \<le> getCycleDay Z pivot date \<and> getCycleDay Z pivot date < 64"
  by (simp add: getCycleDay_def jsRem_wrap)

text \<open>The levels a topic started at \<open>pivot\<close> reviews on local day \<open>d\<close>, by position alone.\<close>

definition levelsOn :: "int \<Rightarrow> int \<Rightarrow> int list" where
  "levelsOn start d = LEITNER_64_DAY_SCHEDULE ! nat ((d - start) mod 64)"

end
