(* ===== verification/StudyCalendar.thy ===== *)
theory StudyCalendar
  imports Calendar
begin

text \<open>
  apps/client/src: the client's topics, cards and study days (models/topic.model.ts,
  models/day.model.ts, models/card.model.ts), the week of a topic and its refresh, the due
  queue and grading (lib/study.ts), and when a level comes up next
  (lib/get-next-review-message.ts).

  A week lives in a topic as plain data (\<open>structuredClone\<close> and JSON keep the properties of a
  \<open>Day\<close>, not its class), so \<open>tpWeek\<close> is an untyped value and \<open>weekValue\<close> is what a week of
  days looks like there. Times are whole milliseconds; \<open>new Date(x)\<close> drops a fraction.
  \<open>updatedAt\<close> can be missing on rows written before the field existed.
\<close>

section \<open>Records\<close>

record study_day =
  dyDate :: ms
  dyLevels :: "int list"
  dyDone :: bool

record topic =
  tpId :: id
  tpTitle :: string
  tpPivot :: rat
  tpWeek :: jsv
  tpNextUpdateDate :: rat
  tpUpdatedAt :: "ms option"
  tpDeletedAt :: "ms option"
  tpIsArchived :: "bool option"

record card =
  cdId :: id
  cdTopicId :: id
  cdLevel :: int
  cdData :: jsv
  cdReviewDate :: "rat option"
  cdUpdatedAt :: "ms option"

definition newCard :: "id \<Rightarrow> jsv \<Rightarrow> id \<Rightarrow> int \<Rightarrow> ms \<Rightarrow> card" where
  "newCard uuid d topicId level now =
     \<lparr>cdId = uuid, cdTopicId = topicId, cdLevel = level, cdData = d,
      cdReviewDate = None, cdUpdatedAt = Some now\<rparr>"

section \<open>Study days and weeks\<close>

definition newDay :: "ms \<Rightarrow> study_day" where
  "newDay date = \<lparr>dyDate = date, dyLevels = [1], dyDone = False\<rparr>"

definition setLevelList :: "tz \<Rightarrow> ms \<Rightarrow> study_day \<Rightarrow> string + study_day" where
  "setLevelList Z pivot d =
     (let i = getCycleDay Z pivot (dyDate d)
      in if 0 \<le> i \<and> i < int (length LEITNER_64_DAY_SCHEDULE)
         then Inr (d\<lparr>dyLevels := LEITNER_64_DAY_SCHEDULE ! nat i\<rparr>)
         else Inl ''Schedule index out of range'')"

fun eachOf :: "('b \<Rightarrow> 'e + 'a) \<Rightarrow> 'b list \<Rightarrow> 'e + 'a list" where
  "eachOf f [] = Inr []"
| "eachOf f (d # ds) =
     (case f d of Inl e \<Rightarrow> Inl e
      | Inr x \<Rightarrow> (case eachOf f ds of Inl e \<Rightarrow> Inl e | Inr xs \<Rightarrow> Inr (x # xs)))"

definition startDay :: "tz \<Rightarrow> ms \<Rightarrow> int \<Rightarrow> string + study_day option" where
  "startDay Z timestamp d =
     (if d < weekday Z timestamp then Inr None
      else case setLevelList Z timestamp (newDay (addDays Z timestamp (d - weekday Z timestamp))) of
             Inl e \<Rightarrow> Inl e | Inr x \<Rightarrow> Inr (Some x))"

definition setStartWeek :: "tz \<Rightarrow> ms \<Rightarrow> string + study_day option list" where
  "setStartWeek Z timestamp = eachOf (startDay Z timestamp) [0..6]"

definition getNextUpdateDate :: "tz \<Rightarrow> ms \<Rightarrow> ms" where
  "getNextUpdateDate Z now = startOfDayTs Z (addDays Z now (7 - weekday Z now))"

definition dayValue :: "study_day option \<Rightarrow> jsv" where
  "dayValue x = (case x of None \<Rightarrow> JNull
     | Some d \<Rightarrow> JObj [(''date'', JNum (of_int (dyDate d))),
                   (''todayLevels'', JArr (map (\<lambda>l. JNum (of_int l)) (dyLevels d))),
                   (''isDone'', JBool (dyDone d))])"

definition weekValue :: "study_day option list \<Rightarrow> jsv" where
  "weekValue w = JArr (map dayValue w)"

definition isBlank :: "char \<Rightarrow> bool" where
  "isBlank c \<longleftrightarrow> (let n = (of_char c :: nat) in 9 \<le> n \<and> n \<le> 13 \<or> n = 32 \<or> n = 160)"

definition jsTrim :: "string \<Rightarrow> string" where
  "jsTrim s = rev (dropWhile isBlank (rev (dropWhile isBlank s)))"

definition createTopic :: "tz \<Rightarrow> id \<Rightarrow> string \<Rightarrow> ms \<Rightarrow> string + topic" where
  "createTopic Z uuid title now =
     (case setStartWeek Z now of Inl e \<Rightarrow> Inl e
      | Inr w \<Rightarrow> Inr \<lparr>tpId = uuid, tpTitle = jsTrim title, tpPivot = of_int now,
          tpWeek = weekValue w, tpNextUpdateDate = of_int (getNextUpdateDate Z now),
          tpUpdatedAt = Some now, tpDeletedAt = None, tpIsArchived = None\<rparr>)"

definition weekDay :: "tz \<Rightarrow> ms \<Rightarrow> ms \<Rightarrow> int \<Rightarrow> string + study_day" where
  "weekDay Z pivot now d = setLevelList Z pivot (newDay (addDays Z now (d - weekday Z now)))"

definition updateWeek :: "tz \<Rightarrow> ms \<Rightarrow> topic \<Rightarrow> string + topic" where
  "updateWeek Z now t =
     (case eachOf (weekDay Z (jsTrunc (tpPivot t)) now) [0..6] of Inl e \<Rightarrow> Inl e
      | Inr w \<Rightarrow> Inr (t\<lparr>tpWeek := weekValue (map Some w),
          tpNextUpdateDate := of_int (getNextUpdateDate Z now), tpUpdatedAt := Some now\<rparr>))"

definition reactivateTopic :: "tz \<Rightarrow> ms \<Rightarrow> topic \<Rightarrow> string + topic" where
  "reactivateTopic Z now t =
     (case setStartWeek Z now of Inl e \<Rightarrow> Inl e
      | Inr w \<Rightarrow> Inr (t\<lparr>tpPivot := of_int now, tpWeek := weekValue w,
          tpNextUpdateDate := of_int (getNextUpdateDate Z now), tpIsArchived := Some False\<rparr>))"

section \<open>Due cards and grading\<close>

definition gradeCard :: "int \<Rightarrow> bool \<Rightarrow> ms \<Rightarrow> int \<times> ms" where
  "gradeCard level isCorrect now = (if isCorrect then level + 1 else 1, now)"

definition isDue :: "tz \<Rightarrow> int list \<Rightarrow> ms \<Rightarrow> card \<Rightarrow> bool" where
  "isDue Z todayLevels now c \<longleftrightarrow>
     (if cdLevel c \<notin> set todayLevels then False
      else case cdReviewDate c of None \<Rightarrow> True
        | Some r \<Rightarrow> if r = 0 then True
                    else startOfDayTs Z (jsTrunc r) < startOfDayTs Z now)"

definition selectDueCards :: "tz \<Rightarrow> card list \<Rightarrow> int list \<Rightarrow> ms \<Rightarrow> card list" where
  "selectDueCards Z cs todayLevels now = filter (isDue Z todayLevels now) cs"

definition completeStudyDay :: "study_day \<Rightarrow> study_day" where
  "completeStudyDay d = d\<lparr>dyDone := True\<rparr>"

text \<open>What a grade does to a card, and a whole study session: the due cards are graded one
  after the other, each answer at its own time.\<close>

definition applyGrade :: "bool \<Rightarrow> ms \<Rightarrow> card \<Rightarrow> card" where
  "applyGrade isCorrect now c =
     (case gradeCard (cdLevel c) isCorrect now of
        (l, r) \<Rightarrow> c\<lparr>cdLevel := l, cdReviewDate := Some (of_int r), cdUpdatedAt := Some now\<rparr>)"

section \<open>The next review\<close>

definition getNextReviewDate :: "tz \<Rightarrow> ms \<Rightarrow> int \<Rightarrow> ms \<Rightarrow> bool \<Rightarrow> string + ms" where
  "getNextReviewDate Z fromTs level pivot includeToday =
     (let from = startOfDayTs Z fromTs;
          cycleDay = getCycleDay Z pivot from;
          minOffset = (if includeToday then 0 else 1);
          len = int (length LEITNER_64_DAY_SCHEDULE)
      in case find (\<lambda>offset. level \<in> set (LEITNER_64_DAY_SCHEDULE ! nat (jsRem (cycleDay + offset) len)))
                [minOffset..minOffset + len - 1] of
           Some offset \<Rightarrow> Inr (addDays Z from offset)
         | None \<Rightarrow> Inl ''Level not found in schedule'')"

text \<open>Year, month and day of month of a day number (proleptic Gregorian calendar).\<close>

definition civilFromDays :: "int \<Rightarrow> int \<times> int \<times> int" where
  "civilFromDays z0 =
     (let z = z0 + 719468; era = z div 146097; doe = z mod 146097;
          yoe = (doe - doe div 1460 + doe div 36524 - doe div 146096) div 365;
          doy = doe - (365 * yoe + yoe div 4 - yoe div 100);
          mp = (5 * doy + 2) div 153;
          d = doy - (153 * mp + 2) div 5 + 1;
          m = (if mp < 10 then mp + 3 else mp - 9);
          y = yoe + era * 400
      in (if m \<le> 2 then y + 1 else y, m, d))"

definition intToString :: "int \<Rightarrow> string" where
  "intToString n = (if n < 0 then CHR ''-'' # natToString (nat (- n)) else natToString (nat n))"

definition padStart2 :: "string \<Rightarrow> string" where
  "padStart2 s = replicate (2 - length s) (CHR ''0'') @ s"

definition lastTwo :: "string \<Rightarrow> string" where
  "lastTwo s = drop (length s - 2) s"

definition formatReviewDate :: "tz \<Rightarrow> ms \<Rightarrow> ms \<Rightarrow> string" where
  "formatReviewDate Z ts now =
     (let nxt = startOfDayTs Z ts; today = startOfDayTs Z now;
          diffDays = jsRound (of_int (nxt - today) / of_int DAY_MS)
      in if diffDays = 0 then ''today''
         else if diffDays = 1 then ''tomorrow''
         else case civilFromDays (localDay Z nxt) of
                (y, m, d) \<Rightarrow> padStart2 (intToString d) @ ''.'' @ padStart2 (intToString m)
                              @ ''.'' @ lastTwo (intToString y))"

definition getReviewMessage :: "tz \<Rightarrow> ms \<Rightarrow> ms \<Rightarrow> int \<Rightarrow> bool \<Rightarrow> string + string" where
  "getReviewMessage Z now startDateTs level isDone =
     (if level = 0 then Inr ''''
      else case getNextReviewDate Z now level startDateTs (\<not> isDone) of
             Inl e \<Rightarrow> Inl e | Inr ts \<Rightarrow> Inr (formatReviewDate Z ts now))"

section \<open>Labels\<close>

definition levelLabel :: "int \<Rightarrow> string" where
  "levelLabel level =
     (if level = 0 then ''Draft'' else if level = 8 then ''Finished''
      else ''Level '' @ intToString level)"

fun joinWith :: "string \<Rightarrow> string list \<Rightarrow> string" where
  "joinWith sep [] = ''''"
| "joinWith sep [x] = x"
| "joinWith sep (x # y # xs) = x @ sep @ joinWith sep (y # xs)"

definition joinNumbers :: "int list \<Rightarrow> string" where
  "joinNumbers nums =
     (if length nums = 0 then ''''
      else if length nums = 1 then intToString (nums ! 0)
      else if length nums = 2 then intToString (nums ! 0) @ '' and '' @ intToString (nums ! 1)
      else joinWith '', '' (map intToString (butlast nums)) @ '' and '' @ intToString (last nums))"

end
