(* ===== verification/StudySchedule.thy ===== *)
theory StudySchedule
  imports StudyCalendar
begin

text \<open>
  What the calendar of apps/client/src promises: a refreshed week is the seven days of the
  current week with the levels of the schedule, it stays valid until the coming Sunday
  midnight, the next review of a level is the first scheduled day, and a graded card is not
  due again on the day of its grade. \<open>dst_zone\<close> is a zone whose clock goes forward an hour on
  2026-03-29; the theorems are applied across that change.
\<close>

section \<open>A zone with a clock change\<close>

definition dst_instant :: ms where
  "dst_instant = 1774746000000"

definition dst_zone :: tz where
  "dst_zone =
     \<lparr>tzLocal = (\<lambda>t. if t < dst_instant then t + 3600000 else t + 7200000),
      tzUtc = (\<lambda>l. if l < dst_instant + 7200000 then l - 3600000 else l - 7200000)\<rparr>"

lemma le_div_iff_mult: "0 < k \<Longrightarrow> d \<le> l div k \<longleftrightarrow> d * k \<le> l" for d l k :: int
proof
  assume k: "0 < k" and "d \<le> l div k"
  then have "d * k \<le> (l div k) * k" by simp
  also have "\<dots> \<le> l" using k by (simp add: div_mult_mod_eq [symmetric] le_diff_eq minus_mod_eq_div_mult [symmetric])
  finally show "d * k \<le> l" .
next
  assume k: "0 < k" and "d * k \<le> l"
  then have "(d * k) div k \<le> l div k" by (intro zdiv_mono1)
  with k show "d \<le> l div k" by simp
qed

lemma div_day_le: "d \<le> l div DAY_MS \<longleftrightarrow> d * DAY_MS \<le> l"
  by (rule le_div_iff_mult) simp

lemma div_day_eq: "d * DAY_MS \<le> l \<Longrightarrow> l < (d + 1) * DAY_MS \<Longrightarrow> l div DAY_MS = d"
  using div_day_le [of d l] div_day_le [of "d + 1" l] by linarith

lemma dst_zone_day: "localDay dst_zone (tzUtc dst_zone l) = l div DAY_MS"
proof (cases "dst_instant + 3600000 \<le> l \<and> l < dst_instant + 7200000")
  case True
  then have "l div DAY_MS = 20541" "(l + 3600000) div DAY_MS = 20541"
    by (intro div_day_eq; simp add: dst_instant_def DAY_MS_def)+
  with True show ?thesis by (simp add: localDay_def dst_zone_def dst_instant_def add.commute)
next
  case False
  then have "tzLocal dst_zone (tzUtc dst_zone l) = l" by (auto simp: dst_zone_def dst_instant_def)
  then show ?thesis by (simp add: localDay_def)
qed

lemma dst_zone_midnight: "tzUtc dst_zone (d * DAY_MS) \<le> t \<longleftrightarrow> d \<le> localDay dst_zone t"
proof (cases "d \<le> 20541")
  case True
  then show ?thesis
    by (simp add: localDay_def div_day_le) (simp add: dst_zone_def dst_instant_def DAY_MS_def, linarith)
next
  case False
  then show ?thesis
    by (simp add: localDay_def div_day_le) (simp add: dst_zone_def dst_instant_def DAY_MS_def, linarith)
qed

lemma dst_zone_ok: "tz_ok dst_zone"
proof -
  have "2 * \<bar>(tzUtc dst_zone l - l) - (tzUtc dst_zone m - m)\<bar> < DAY_MS" for l m
    by (simp add: dst_zone_def DAY_MS_def)
  then show ?thesis by (simp add: tz_ok_def dst_zone_day dst_zone_midnight)
qed

section \<open>Weeks\<close>

lemma eachOf_Inr:
  "(\<And>d. d \<in> set ds \<Longrightarrow> f d = Inr (g d)) \<Longrightarrow> eachOf f ds = Inr (map g ds)"
  by (induction ds) auto

definition scheduledDay :: "tz \<Rightarrow> ms \<Rightarrow> ms \<Rightarrow> study_day" where
  "scheduledDay Z pivot date =
     \<lparr>dyDate = date, dyLevels = levelsOn (localDay Z pivot) (localDay Z date), dyDone = False\<rparr>"

lemma setLevelList_ok:
  "tz_ok Z \<Longrightarrow> setLevelList Z pivot (newDay date) = Inr (scheduledDay Z pivot date)"
  using getCycleDay_bounds [of Z pivot date]
  by (simp add: setLevelList_def newDay_def scheduledDay_def levelsOn_def getCycleDay_eq Let_def)

lemma updateWeek_ok:
  assumes "tz_ok Z"
  shows "updateWeek Z now t = Inr (t\<lparr>
      tpWeek := weekValue (map (\<lambda>d. Some (scheduledDay Z (jsTrunc (tpPivot t)) (addDays Z now (d - weekday Z now)))) [0..6]),
      tpNextUpdateDate := of_int (getNextUpdateDate Z now), tpUpdatedAt := Some now\<rparr>)"
proof -
  have "eachOf (weekDay Z (jsTrunc (tpPivot t)) now) [0..6] =
    Inr (map (\<lambda>d. scheduledDay Z (jsTrunc (tpPivot t)) (addDays Z now (d - weekday Z now))) [0..6])"
    by (rule eachOf_Inr) (simp add: weekDay_def setLevelList_ok [OF assms])
  then show ?thesis by (simp add: updateWeek_def comp_def)
qed

lemma weekday_bounds: "0 \<le> weekday Z t \<and> weekday Z t < 7"
  by (simp add: weekday_def)

lemma week_days:
  assumes "tz_ok Z"
  shows "weekday Z (addDays Z now (d - weekday Z now)) = d mod 7"
proof -
  have "(a + (d - (a + 4) mod 7) + 4) mod 7 = d mod 7" for a :: int
  proof -
    have "a + (d - (a + 4) mod 7) + 4 = (d + (a + 4)) - (a + 4) mod 7" by simp
    then show ?thesis by (simp only: mod_diff_right_eq) simp
  qed
  then show ?thesis by (simp add: weekday_def localDay_addDays [OF assms])
qed

lemma nextUpdate_day:
  "tz_ok Z \<Longrightarrow> localDay Z (getNextUpdateDate Z now) = localDay Z now + (7 - weekday Z now)"
  by (simp add: getNextUpdateDate_def localDay_startOfDay localDay_addDays)

lemma nextUpdate_le:
  "tz_ok Z \<Longrightarrow> getNextUpdateDate Z now \<le> t \<longleftrightarrow> localDay Z now + (7 - weekday Z now) \<le> localDay Z t"
  by (simp add: getNextUpdateDate_def startOfDay_le localDay_addDays)


section \<open>The next review\<close>

lemma every_level_scheduled:
  assumes "1 \<le> level" "level \<le> 7"
  shows "\<exists>i. 0 \<le> i \<and> i < 64 \<and> level \<in> set (LEITNER_64_DAY_SCHEDULE ! nat i)"
proof -
  have "level = 1 \<or> level = 2 \<or> level = 3 \<or> level = 4 \<or> level = 5 \<or> level = 6 \<or> level = 7"
    using assms by linarith
  then show ?thesis
    by (elim disjE)
      (rule exI [of _ 0] exI [of _ 1] exI [of _ 2] exI [of _ 4] exI [of _ 12] exI [of _ 24] exI [of _ 56];
        simp add: LEITNER_64_DAY_SCHEDULE_def; fail)+
qed

lemma scheduled_in_window:
  assumes "1 \<le> level" "level \<le> 7"
  shows "\<exists>k. m \<le> k \<and> k \<le> m + 63 \<and> level \<in> set (levelsOn start (from + k))"
proof -
  obtain i where i: "0 \<le> i" "i < 64" "level \<in> set (LEITNER_64_DAY_SCHEDULE ! nat i)"
    using every_level_scheduled [OF assms] by blast
  define r where "r = i - (from + m - start)"
  define k where "k = m + r mod 64"
  have "from + k - start = (from + m - start) + r mod 64" by (simp add: k_def)
  then have "(from + k - start) mod 64 = ((from + m - start) + r) mod 64"
    by (simp only: mod_add_right_eq)
  also have "\<dots> = i mod 64" by (simp add: r_def)
  finally have "(from + k - start) mod 64 = i mod 64" .
  then have "levelsOn start (from + k) = LEITNER_64_DAY_SCHEDULE ! nat i"
    using i by (simp add: levelsOn_def)
  moreover have "m \<le> k" "k \<le> m + 63"
    using pos_mod_bound [of 64 r] by (simp_all add: k_def)
  ultimately show ?thesis using i(3) by auto
qed


lemma find_upto:
  assumes "a \<le> w" "w \<le> b" "P w"
  shows "\<exists>k. find P [a..b] = Some k \<and> a \<le> k \<and> k \<le> b \<and> P k \<and> (\<forall>j. a \<le> j \<and> j < k \<longrightarrow> \<not> P j)"
  using assms
proof (induction a b rule: upto.induct)
  case (1 a b)
  show ?case
  proof (cases "P a")
    case True
    with 1 show ?thesis by (auto simp: upto_rec1)
  next
    case False
    with 1 have w: "a + 1 \<le> w" by (cases "w = a") auto
    with 1 obtain k where k: "find P [a + 1..b] = Some k" "a + 1 \<le> k" "k \<le> b" "P k"
      "\<forall>j. a + 1 \<le> j \<and> j < k \<longrightarrow> \<not> P j" by auto
    have "\<not> P j" if "a \<le> j" "j < k" for j
      using that k(5) False by (cases "j = a") auto
    with k False 1 w show ?thesis by (auto simp: upto_rec1)
  qed
qed

lemma getNextReviewDate_ok:
  assumes "tz_ok Z" "1 \<le> level" "level \<le> 7"
  shows "\<exists>k. (if today then 0 else 1) \<le> k \<and> k < 64 + (if today then 0 else 1) \<and>
    getNextReviewDate Z fromTs level pivot today = Inr (addDays Z (startOfDayTs Z fromTs) k) \<and>
    level \<in> set (levelsOn (localDay Z pivot) (localDay Z fromTs + k)) \<and>
    (\<forall>j. (if today then 0 else 1) \<le> j \<and> j < k \<longrightarrow>
       level \<notin> set (levelsOn (localDay Z pivot) (localDay Z fromTs + j)))"
proof -
  let ?m = "if today then 0 else 1 :: int"
  let ?from = "startOfDayTs Z fromTs"
  let ?on = "\<lambda>k. level \<in> set (levelsOn (localDay Z pivot) (localDay Z fromTs + k))"
  let ?P = "\<lambda>k. level \<in> set (LEITNER_64_DAY_SCHEDULE ! nat (jsRem (getCycleDay Z pivot ?from + k) 64))"
  have P: "?P k \<longleftrightarrow> ?on k" if "?m \<le> k" for k
  proof -
    have "0 \<le> getCycleDay Z pivot ?from + k"
      using that getCycleDay_bounds [of Z pivot ?from] by (auto split: if_splits)
    then have "jsRem (getCycleDay Z pivot ?from + k) 64 = (localDay Z fromTs + k - localDay Z pivot) mod 64"
      by (simp add: jsRem_def getCycleDay_eq [OF assms(1)] localDay_startOfDay [OF assms(1)] mod_simps algebra_simps)
    then show ?thesis by (simp add: levelsOn_def)
  qed
  obtain w where w: "?m \<le> w" "w \<le> ?m + 63" "?on w"
    using scheduled_in_window [OF assms(2,3), of ?m "localDay Z pivot" "localDay Z fromTs"] by blast
  then have "?P w" using P by blast
  with w obtain k where k: "find ?P [?m..?m + 63] = Some k" "?m \<le> k" "k \<le> ?m + 63" "?P k"
    "\<forall>j. ?m \<le> j \<and> j < k \<longrightarrow> \<not> ?P j" using find_upto [of ?m w "?m + 63" ?P] by blast
  have "getNextReviewDate Z fromTs level pivot today = Inr (addDays Z ?from k)"
    using k(1) by (cases today) (simp_all add: getNextReviewDate_def Let_def)
  moreover have "?on k" using k(2,4) P by blast
  moreover have "\<forall>j. ?m \<le> j \<and> j < k \<longrightarrow> \<not> ?on j" using k(5) P by blast
  ultimately show ?thesis using k(2,3) by (intro exI [of _ k]) simp
qed

lemma formatReviewDate_words:
  assumes "tz_ok Z"
  shows "localDay Z ts = localDay Z now \<Longrightarrow> formatReviewDate Z ts now = ''today''"
    and "localDay Z ts = localDay Z now + 1 \<Longrightarrow> formatReviewDate Z ts now = ''tomorrow''"
  using jsRound_days [OF midnights_apart [OF assms, of ts now]]
  by (simp_all add: formatReviewDate_def Let_def)

lemma not_scheduled_today:
  "today = (k = (0::int)) \<Longrightarrow> 0 \<le> k \<Longrightarrow> (\<forall>j. 0 \<le> j \<and> j < k \<longrightarrow> \<not> P j) \<Longrightarrow> P k \<Longrightarrow> P 0 = today"
  by auto

section \<open>Due cards\<close>

lemma graded_not_due:
  assumes "tz_ok Z" "localDay Z now = localDay Z then'" "then' \<noteq> 0"
  shows "\<not> isDue Z todayLevels now (applyGrade isCorrect then' c)"
  using assms by (simp add: isDue_def applyGrade_def gradeCard_def startOfDay_less)

section \<open>Properties\<close>

text \<open>
  C16. Refreshing a topic's week (\<open>updateWeek\<close>) always succeeds and stores seven days: day
  \<open>d\<close> falls on weekday \<open>d\<close> of the current week, Sunday first, with the levels the 64 day
  schedule gives that many days after the topic's start. The next update date lies in the
  future and has come exactly when the local calendar reaches the coming Sunday, so a topic is
  refreshed once a week, across clock changes.
\<close>

theorem week_refresh:
  assumes "tz_ok Z"
  shows "\<exists>days. updateWeek Z now t = Inr (t\<lparr>tpWeek := weekValue (map Some days),
        tpNextUpdateDate := of_int (getNextUpdateDate Z now), tpUpdatedAt := Some now\<rparr>)
    \<and> length days = 7
    \<and> (\<forall>d < 7. weekday Z (dyDate (days ! d)) = int d
        \<and> localDay Z (dyDate (days ! d)) = localDay Z now - weekday Z now + int d
        \<and> dyLevels (days ! d) = LEITNER_64_DAY_SCHEDULE !
            nat ((localDay Z (dyDate (days ! d)) - localDay Z (jsTrunc (tpPivot t))) mod 64)
        \<and> \<not> dyDone (days ! d))
    \<and> now < getNextUpdateDate Z now
    \<and> (\<forall>later. getNextUpdateDate Z now \<le> later \<longleftrightarrow>
         localDay Z now - weekday Z now + 7 \<le> localDay Z later)"
proof -
  let ?day = "\<lambda>d. scheduledDay Z (jsTrunc (tpPivot t)) (addDays Z now (d - weekday Z now))"
  have seven: "[0..6] = [0, 1, 2, 3, 4, 5, 6::int]" by (simp add: upto_rec1)
  have nth: "map ?day [0..6] ! d = ?day (int d)" if "d < 7" for d
    using that by simp
  have day: "weekday Z (dyDate (?day (int d))) = int d
      \<and> localDay Z (dyDate (?day (int d))) = localDay Z now - weekday Z now + int d" if "d < 7" for d
    using that by (simp add: scheduledDay_def week_days [OF assms] localDay_addDays [OF assms])
  have "now < getNextUpdateDate Z now"
    using nextUpdate_le [OF assms, of now now] weekday_bounds [of Z now] by linarith
  then show ?thesis
    using updateWeek_ok [OF assms, of now t] nextUpdate_le [OF assms, of now]
    by (intro exI [of _ "map ?day [0..6]"] conjI allI impI)
       (simp_all add: comp_def day nth, simp_all add: scheduledDay_def levelsOn_def localDay_addDays [OF assms] algebra_simps)
qed

definition sample_topic :: topic where
  "sample_topic = \<lparr>tpId = ''t1'', tpTitle = ''Latin'', tpPivot = 1774700000000, tpWeek = JArr [],
     tpNextUpdateDate = 0, tpUpdatedAt = Some 0, tpDeletedAt = None, tpIsArchived = None\<rparr>"

theorem week_refresh_witness:
  "\<exists>days. updateWeek dst_zone 1774740000000 sample_topic = Inr (sample_topic\<lparr>
        tpWeek := weekValue (map Some days), tpNextUpdateDate := 1775340000000,
        tpUpdatedAt := Some 1774740000000\<rparr>) \<and> length days = 7"
proof -
  have "getNextUpdateDate dst_zone 1774740000000 = 1775340000000" by code_simp
  with week_refresh [OF dst_zone_ok, of 1774740000000 sample_topic] show ?thesis
    by (simp only: of_int_numeral) blast
qed

text \<open>
  For every level of the schedule (1 to 7) the next review always exists: it is the local
  midnight of the first day from today on, or from tomorrow on once today is done, on which
  the schedule lists the level, and it is less than 65 days away. When that day is
  today or tomorrow the message shown says so.
\<close>

theorem next_review_first_day:
  assumes "tz_ok Z" "1 \<le> level" "level \<le> 7"
  shows "\<exists>k ts. getNextReviewDate Z now level pivot (\<not> isDone) = Inr ts
    \<and> localDay Z ts = localDay Z now + k
    \<and> (if isDone then 1 else 0) \<le> k \<and> k \<le> 64
    \<and> level \<in> set (levelsOn (localDay Z pivot) (localDay Z now + k))
    \<and> (\<forall>j. (if isDone then 1 else 0) \<le> j \<and> j < k \<longrightarrow>
         level \<notin> set (levelsOn (localDay Z pivot) (localDay Z now + j)))
    \<and> (k = 0 \<longrightarrow> getReviewMessage Z now pivot level isDone = Inr ''today'')
    \<and> (k = 1 \<longrightarrow> getReviewMessage Z now pivot level isDone = Inr ''tomorrow'')"
proof -
  from getNextReviewDate_ok [OF assms, of "\<not> isDone" now pivot] obtain k where
    k: "(if isDone then 1 else 0) \<le> k" "k \<le> 64"
      "getNextReviewDate Z now level pivot (\<not> isDone) = Inr (addDays Z (startOfDayTs Z now) k)"
      "level \<in> set (levelsOn (localDay Z pivot) (localDay Z now + k))"
      "\<forall>j. (if isDone then 1 else 0) \<le> j \<and> j < k \<longrightarrow>
         level \<notin> set (levelsOn (localDay Z pivot) (localDay Z now + j))"
    by (cases isDone) auto
  let ?ts = "addDays Z (startOfDayTs Z now) k"
  have day: "localDay Z ?ts = localDay Z now + k"
    by (simp add: localDay_addDays [OF assms(1)] localDay_startOfDay [OF assms(1)])
  have "getReviewMessage Z now pivot level isDone = Inr (formatReviewDate Z ?ts now)"
    using assms(2) k(3) by (simp add: getReviewMessage_def)
  then show ?thesis
    using k day formatReviewDate_words [OF assms(1), of ?ts now]
    by (intro exI [of _ k] exI [of _ ?ts]) simp
qed

theorem next_review_first_day_witness:
  "\<exists>k ts. getNextReviewDate dst_zone 1774740000000 7 1774700000000 True = Inr ts
    \<and> localDay dst_zone ts = localDay dst_zone 1774740000000 + k \<and> k \<le> 64"
proof -
  have "1 \<le> (7::int)" "(7::int) \<le> 7" by simp_all
  from next_review_first_day [OF dst_zone_ok this, of 1774740000000 1774700000000 False]
  show ?thesis by (simp only: not_False_eq_True) blast
qed

text \<open>
  C17. A study session ends: once every due card of the day has been graded, none of them is
  due again on that local day, whatever was answered and whatever levels the day studies; a
  card that was not due stays as it was.
\<close>

theorem graded_session_empties_queue:
  assumes "tz_ok Z"
    and "\<forall>c \<in> set (selectDueCards Z cs todayLevels now).
           localDay Z (gradedAt c) = localDay Z now \<and> gradedAt c \<noteq> 0"
    and "localDay Z later = localDay Z now"
  shows "selectDueCards Z
      (map (\<lambda>c. if isDue Z todayLevels now c then applyGrade (isCorrect c) (gradedAt c) c else c) cs)
      todayLevels later = []"
proof -
  have same: "isDue Z todayLevels later c = isDue Z todayLevels now c" for c
    using startOfDay_less [OF assms(1)] assms(3)
    by (simp add: isDue_def split: option.split)
  have "\<not> isDue Z todayLevels later (applyGrade (isCorrect c) (gradedAt c) c)"
    if "c \<in> set cs" "isDue Z todayLevels now c" for c
    using assms that by (intro graded_not_due) (auto simp: selectDueCards_def)
  then show ?thesis by (auto simp: selectDueCards_def filter_empty_conv same)
qed

theorem graded_session_empties_queue_witness:
  "selectDueCards dst_zone
     (map (\<lambda>c. if isDue dst_zone [1] 1774760000000 c then applyGrade False 1774765000000 c else c)
       [newCard ''c1'' JNull ''t1'' 1 0, newCard ''c2'' JNull ''t1'' 3 0]) [1] 1774770000000 = []
   \<and> length (selectDueCards dst_zone [newCard ''c1'' JNull ''t1'' 1 0, newCard ''c2'' JNull ''t1'' 3 0]
       [1] 1774760000000) = 1"
proof (intro conjI graded_session_empties_queue [OF dst_zone_ok])
  show "localDay dst_zone 1774770000000 = localDay dst_zone 1774760000000" by code_simp
  have "localDay dst_zone 1774765000000 = localDay dst_zone 1774760000000" by code_simp
  then show "\<forall>c \<in> set (selectDueCards dst_zone [newCard ''c1'' JNull ''t1'' 1 0, newCard ''c2'' JNull ''t1'' 3 0]
       [1] 1774760000000). localDay dst_zone 1774765000000 = localDay dst_zone 1774760000000
         \<and> (1774765000000::ms) \<noteq> 0" by simp
  show "length (selectDueCards dst_zone [newCard ''c1'' JNull ''t1'' 1 0, newCard ''c2'' JNull ''t1'' 3 0]
       [1] 1774760000000) = 1" by code_simp
qed

end
