(* ===== verification/ClientDb.thy ===== *)
theory ClientDb
  imports StudyCalendar Codec
begin

text \<open>
  apps/client/src: the durable store of the client (lib/db.ts) with its sync outbox
  (services/sync-queue.ts), its meta rows (services/sync-meta.ts) and the sync state shown to
  the user (services/sync-state.ts).

  An object store is a list of rows in key order; a transaction (\<open>withTransaction\<close>) is a
  function of the stores that either commits its result or leaves them as they were. Whether
  the browser aborts a transaction (quota, a closed connection) is the argument \<open>fault\<close>; the
  constraint errors of \<open>add\<close> and of the unique title index are computed by the model. Meta
  rows whose value is a JSON text (failed operations, media statistics) are typed fields,
  the others are rows of strings.
\<close>

section \<open>Errors\<close>

datatype client_error =
    ConstraintError
  | QuotaExceededError
  | QuotaExceededMessage
  | StorageError string
  | AppFailure string
  | ApiError string int
  | FetchTypeError

section \<open>Rows\<close>

record queue_item =
  qiId :: string
  qiOpId :: id
  qiTable :: sync_table
  qiRecordId :: id
  qiOperation :: sync_operation
  qiCreatedAt :: ms
  qiAttempts :: nat
  qiNextRetryAt :: rat

record enqueue_op =
  eqTable :: sync_table
  eqRecordId :: id
  eqOperation :: sync_operation

record failed_op =
  foOpId :: id
  foTable :: sync_table
  foRecordId :: id
  foCode :: string
  foMessage :: string
  foAt :: ms

record media_stats =
  msBytes :: int
  msImages :: int
  msAudio :: int

record client_db =
  cbTopics :: "topic list"
  cbCards :: "card list"
  cbQueue :: "queue_item list"
  cbMeta :: "(string \<times> string) list"
  cbFailedOps :: "failed_op list option"
  cbMediaStats :: "media_stats option"

section \<open>Transactions\<close>

definition isQuotaExceededError :: "client_error \<Rightarrow> bool" where
  "isQuotaExceededError e \<longleftrightarrow> (case e of QuotaExceededError \<Rightarrow> True | _ \<Rightarrow> False)"

definition mapTransactionError :: "client_error \<Rightarrow> client_error" where
  "mapTransactionError e = (if isQuotaExceededError e then QuotaExceededMessage else e)"

definition withTransaction ::
  "client_error option \<Rightarrow> (client_db \<Rightarrow> client_error + 'a \<times> client_db) \<Rightarrow> client_db
    \<Rightarrow> client_error + 'a \<times> client_db" where
  "withTransaction fault callback db =
     (case callback db of
        Inl e \<Rightarrow> Inl (mapTransactionError e)
      | Inr r \<Rightarrow> (case fault of Some e \<Rightarrow> Inl (mapTransactionError e) | None \<Rightarrow> Inr r))"

lemma withTransaction_Inr:
  "withTransaction fault f db = Inr r \<longleftrightarrow> fault = None \<and> f db = Inr r"
  by (auto simp: withTransaction_def split: sum.split option.split)

text \<open>\<open>IDBObjectStore.add\<close> and \<open>put\<close>: the topic store has a unique index on the title.\<close>

definition titleTaken :: "topic \<Rightarrow> topic list \<Rightarrow> bool" where
  "titleTaken t ts \<longleftrightarrow> list_ex (\<lambda>u. tpTitle u = tpTitle t \<and> tpId u \<noteq> tpId t) ts"

definition putTopicRow :: "topic \<Rightarrow> client_db \<Rightarrow> client_error + client_db" where
  "putTopicRow t db =
     (if titleTaken t (cbTopics db) then Inl ConstraintError
      else Inr (db\<lparr>cbTopics := idb_put tpId t (cbTopics db)\<rparr>))"

definition addTopicRow :: "topic \<Rightarrow> client_db \<Rightarrow> client_error + client_db" where
  "addTopicRow t db =
     (if tbl_get tpId (tpId t) (cbTopics db) \<noteq> None then Inl ConstraintError else putTopicRow t db)"

definition putCardRow :: "card \<Rightarrow> client_db \<Rightarrow> client_db" where
  "putCardRow c db = db\<lparr>cbCards := idb_put cdId c (cbCards db)\<rparr>"

definition addCardRow :: "card \<Rightarrow> client_db \<Rightarrow> client_error + client_db" where
  "addCardRow c db =
     (if tbl_get cdId (cdId c) (cbCards db) \<noteq> None then Inl ConstraintError
      else Inr (putCardRow c db))"

section \<open>The sync state\<close>

datatype sync_status = StIdle | StSyncing | StError | StOffline | StPaused | StRevoked | StUpdateRequired

datatype sync_connection = ConnIdle | ConnWs | ConnHttp | ConnOffline

record sync_state =
  ssStatus :: sync_status
  ssLastSyncedAt :: "ms option"
  ssConnection :: sync_connection
  ssQueueDepth :: nat
  ssDeviceId :: "id option"
  ssLastError :: "string option"
  ssFailedOps :: "failed_op list"

definition initialState :: sync_state where
  "initialState = \<lparr>ssStatus = StIdle, ssLastSyncedAt = None, ssConnection = ConnIdle,
     ssQueueDepth = 0, ssDeviceId = None, ssLastError = None, ssFailedOps = []\<rparr>"

section \<open>The outbox\<close>

fun tableName :: "sync_table \<Rightarrow> string" where
  "tableName Topics = ''topics''"
| "tableName Cards = ''cards''"

definition queueKey :: "sync_table \<Rightarrow> id \<Rightarrow> string" where
  "queueKey t r = tableName t @ '':'' @ r"

definition coalesceQueuedOperation ::
  "sync_operation option \<Rightarrow> sync_operation \<Rightarrow> bool \<Rightarrow> sync_operation option" where
  "coalesceQueuedOperation existing incoming isExistingInFlight =
     (if existing = Some Upsert \<and> incoming = Delete \<and> \<not> isExistingInFlight then None
      else Some incoming)"

definition backoffMs :: "nat \<Rightarrow> rat \<Rightarrow> rat" where
  "backoffMs attempts rnd = min 300000 (1000 * 2 ^ attempts) + rnd * 1000"

definition coalesceAndPutQueueItem ::
  "id set \<Rightarrow> ms \<Rightarrow> id \<Rightarrow> enqueue_op \<Rightarrow> queue_item list \<Rightarrow> queue_item list" where
  "coalesceAndPutQueueItem inFlight now uuid op q =
     (let queueId = queueKey (eqTable op) (eqRecordId op);
          existing = tbl_get qiId queueId q;
          flying = (case existing of None \<Rightarrow> False | Some x \<Rightarrow> qiOpId x \<in> inFlight)
      in case coalesceQueuedOperation (map_option qiOperation existing) (eqOperation op) flying of
           None \<Rightarrow> (case existing of None \<Rightarrow> q | Some x \<Rightarrow> tbl_del qiId queueId q)
         | Some nxt \<Rightarrow>
             (let createdAt = (case existing of None \<Rightarrow> now
                  | Some x \<Rightarrow> if qiOperation x = nxt \<and> \<not> flying then qiCreatedAt x else now)
              in idb_put qiId \<lparr>qiId = queueId, qiOpId = uuid, qiTable = eqTable op,
                   qiRecordId = eqRecordId op, qiOperation = nxt, qiCreatedAt = createdAt,
                   qiAttempts = 0, qiNextRetryAt = 0\<rparr> q))"

fun enqueueEach :: "id set \<Rightarrow> ms \<Rightarrow> (nat \<Rightarrow> id) \<Rightarrow> enqueue_op list \<Rightarrow> queue_item list \<Rightarrow> queue_item list" where
  "enqueueEach inFlight now uuid [] q = q"
| "enqueueEach inFlight now uuid (op # ops) q =
     enqueueEach inFlight now (\<lambda>i. uuid (Suc i)) ops
       (coalesceAndPutQueueItem inFlight now (uuid 0) op q)"

definition putSyncQueueOps ::
  "bool \<Rightarrow> id set \<Rightarrow> ms \<Rightarrow> (nat \<Rightarrow> id) \<Rightarrow> enqueue_op list \<Rightarrow> queue_item list \<Rightarrow> queue_item list" where
  "putSyncQueueOps backendConfigured inFlight now uuid ops q =
     (if \<not> backendConfigured \<or> ops = [] then q else enqueueEach inFlight now uuid ops q)"

definition getQueue :: "client_db \<Rightarrow> queue_item list" where
  "getQueue db = sort_key qiCreatedAt (cbQueue db)"

definition refreshSyncQueueDepth :: "bool \<Rightarrow> client_db \<Rightarrow> sync_state \<Rightarrow> sync_state" where
  "refreshSyncQueueDepth backendConfigured db s =
     (if \<not> backendConfigured then s else s\<lparr>ssQueueDepth := length (getQueue db)\<rparr>)"

definition enqueueSyncBulk ::
  "bool \<Rightarrow> id set \<Rightarrow> ms \<Rightarrow> (nat \<Rightarrow> id) \<Rightarrow> client_error option \<Rightarrow> enqueue_op list
    \<Rightarrow> client_db \<times> sync_state \<Rightarrow> client_error + client_db \<times> sync_state" where
  "enqueueSyncBulk backendConfigured inFlight now uuid fault ops s =
     (if \<not> backendConfigured \<or> ops = [] then Inr s
      else case withTransaction fault (\<lambda>db. Inr ((),
               db\<lparr>cbQueue := putSyncQueueOps backendConfigured inFlight now uuid ops (cbQueue db)\<rparr>)) (fst s) of
             Inl e \<Rightarrow> Inl e
           | Inr (_, db) \<Rightarrow> Inr (db, refreshSyncQueueDepth backendConfigured db (snd s)))"

definition enqueueSync ::
  "bool \<Rightarrow> id set \<Rightarrow> ms \<Rightarrow> (nat \<Rightarrow> id) \<Rightarrow> client_error option \<Rightarrow> sync_table \<Rightarrow> id \<Rightarrow> sync_operation
    \<Rightarrow> client_db \<times> sync_state \<Rightarrow> client_error + client_db \<times> sync_state" where
  "enqueueSync backendConfigured inFlight now uuid fault t r opn =
     enqueueSyncBulk backendConfigured inFlight now uuid fault
       [\<lparr>eqTable = t, eqRecordId = r, eqOperation = opn\<rparr>]"

definition removeQueueItem :: "string \<Rightarrow> queue_item list \<Rightarrow> queue_item list" where
  "removeQueueItem i q = tbl_del qiId i q"

definition removeQueueItemIfOp :: "queue_item \<Rightarrow> queue_item list \<Rightarrow> queue_item list" where
  "removeQueueItemIfOp item q =
     (case tbl_get qiId (qiId item) q of None \<Rightarrow> q
      | Some cur \<Rightarrow> if qiOpId cur = qiOpId item then tbl_del qiId (qiId item) q else q)"

definition bumpQueueAttempts :: "ms \<Rightarrow> rat \<Rightarrow> queue_item \<Rightarrow> queue_item list \<Rightarrow> queue_item list" where
  "bumpQueueAttempts now rnd item q =
     (let nxt = item\<lparr>qiAttempts := qiAttempts item + 1,
            qiNextRetryAt := of_int now + backoffMs (qiAttempts item + 1) rnd\<rparr>
      in case tbl_get qiId (qiId item) q of None \<Rightarrow> q
         | Some cur \<Rightarrow> if qiOpId cur \<noteq> qiOpId item then q else idb_put qiId nxt q)"

section \<open>Meta rows\<close>

definition DEVICE_ID_KEY :: string where "DEVICE_ID_KEY = ''deviceId''"
definition LAST_SYNC_AT_KEY :: string where "LAST_SYNC_AT_KEY = ''lastSyncAt''"
definition CURSOR_KEY :: string where "CURSOR_KEY = ''lastPulledAt''"
definition MAX_FAILED_OPS :: nat where "MAX_FAILED_OPS = 50"

definition getMeta :: "string \<Rightarrow> client_db \<Rightarrow> string option" where
  "getMeta k db = map_option snd (tbl_get fst k (cbMeta db))"

definition setMeta :: "string \<Rightarrow> string \<Rightarrow> client_db \<Rightarrow> client_db" where
  "setMeta k v db = db\<lparr>cbMeta := idb_put fst (k, v) (cbMeta db)\<rparr>"

definition getDeviceId :: "id \<Rightarrow> client_db \<Rightarrow> id \<times> client_db" where
  "getDeviceId uuid db =
     (case getMeta DEVICE_ID_KEY db of
        None \<Rightarrow> (uuid, setMeta DEVICE_ID_KEY uuid db)
      | Some d \<Rightarrow> if d = '''' then (uuid, setMeta DEVICE_ID_KEY uuid db) else (d, db))"

definition getCursor :: "client_db \<Rightarrow> string" where
  "getCursor db = (case getMeta CURSOR_KEY db of None \<Rightarrow> INITIAL_CURSOR | Some c \<Rightarrow> c)"

definition advanceCursor :: "string \<Rightarrow> client_db \<Rightarrow> client_db" where
  "advanceCursor watermark db =
     (case getMeta CURSOR_KEY db of
        None \<Rightarrow> setMeta CURSOR_KEY watermark db
      | Some cur \<Rightarrow> if isCursorAhead watermark cur then setMeta CURSOR_KEY watermark db else db)"

definition loadFailedOps :: "client_db \<Rightarrow> failed_op list" where
  "loadFailedOps db = (case cbFailedOps db of None \<Rightarrow> [] | Some ops \<Rightarrow> ops)"

definition lastN :: "nat \<Rightarrow> 'a list \<Rightarrow> 'a list" where
  "lastN n xs = drop (length xs - n) xs"

definition saveFailedOps :: "failed_op list \<Rightarrow> client_db \<times> sync_state \<Rightarrow> client_db \<times> sync_state" where
  "saveFailedOps ops s =
     (let kept = lastN MAX_FAILED_OPS ops
      in ((fst s)\<lparr>cbFailedOps := Some kept\<rparr>, (snd s)\<lparr>ssFailedOps := kept\<rparr>))"

definition addFailedOps :: "failed_op list \<Rightarrow> client_db \<times> sync_state \<Rightarrow> client_db \<times> sync_state" where
  "addFailedOps entries s =
     (if entries = [] then s
      else let added = foOpId ` set entries
           in saveFailedOps (filter (\<lambda>e. foOpId e \<notin> added) (loadFailedOps (fst s)) @ entries) s)"

end
