(* ===== verification/ClientQueue.thy ===== *)
theory ClientQueue
  imports ClientDb
begin

text \<open>
  The outbox of the client and its pull cursor: at most one operation is queued per record,
  it is what coalescing the record's operations in order gives, an operation that replaced
  one in flight survives the answer to the old one, and the cursor never goes back.
\<close>

section \<open>Shape of the outbox\<close>

definition queue_ok :: "queue_item list \<Rightarrow> bool" where
  "queue_ok q \<longleftrightarrow> idb_ok qiId q \<and> (\<forall>x \<in> set q. qiId x = queueKey (qiTable x) (qiRecordId x))"

definition queued :: "sync_table \<Rightarrow> id \<Rightarrow> queue_item list \<Rightarrow> queue_item option" where
  "queued t r q = tbl_get qiId (queueKey t r) q"

lemma queueKey_eq [simp]: "queueKey t r = queueKey u s \<longleftrightarrow> t = u \<and> r = s"
  by (cases t; cases u) (simp_all add: queueKey_def)

lemma queue_ok_Nil [simp]: "queue_ok []"
  by (simp add: queue_ok_def)

lemma queue_ok_put:
  "queue_ok q \<Longrightarrow> qiId x = queueKey (qiTable x) (qiRecordId x) \<Longrightarrow> queue_ok (idb_put qiId x q)"
  unfolding queue_ok_def using set_idb_put_subset [of qiId x q] by (auto simp: idb_ok_put)

lemma queue_ok_del: "queue_ok q \<Longrightarrow> queue_ok (tbl_del qiId k q)"
  unfolding queue_ok_def by (simp add: idb_ok_del set_tbl_del)

lemma queue_ok_idb: "queue_ok q \<Longrightarrow> idb_ok qiId q"
  by (simp add: queue_ok_def)

lemma queued_put:
  "queue_ok q \<Longrightarrow> qiId x = queueKey u s \<Longrightarrow>
   queued t r (idb_put qiId x q) = (if t = u \<and> r = s then Some x else queued t r q)"
  unfolding queued_def by (simp add: idb_get_put queue_ok_idb)

lemma queued_del:
  "queued t r (tbl_del qiId (queueKey u s) q) = (if t = u \<and> r = s then None else queued t r q)"
  unfolding queued_def by (simp add: tbl_get_del)

lemma queued_facts:
  assumes "queue_ok q" "queued t r q = Some x"
  shows "x \<in> set q" "qiTable x = t" "qiRecordId x = r" "qiId x = queueKey t r"
proof -
  show "x \<in> set q" "qiId x = queueKey t r"
    using assms(2) by (auto simp: queued_def dest: tbl_get_in tbl_get_key)
  then show "qiTable x = t" "qiRecordId x = r" using assms(1) by (auto simp: queue_ok_def)
qed

lemma queued_mem:
  assumes "queue_ok q" "x \<in> set q"
  shows "queued (qiTable x) (qiRecordId x) q = Some x"
proof -
  have "tbl_ok qiId q" using assms(1) by (simp add: queue_ok_def idb_ok_tbl_ok)
  then show ?thesis using assms by (simp add: queued_def tbl_get_iff queue_ok_def)
qed

section \<open>Enqueueing\<close>

definition pendingOp :: "sync_table \<Rightarrow> id \<Rightarrow> queue_item list \<Rightarrow> sync_operation option" where
  "pendingOp t r q = map_option qiOperation (queued t r q)"

definition flying :: "id set \<Rightarrow> sync_table \<Rightarrow> id \<Rightarrow> queue_item list \<Rightarrow> bool" where
  "flying inFlight t r q \<longleftrightarrow> (case queued t r q of None \<Rightarrow> False | Some x \<Rightarrow> qiOpId x \<in> inFlight)"

lemma coalesce_ok:
  assumes "queue_ok q"
  shows "queue_ok (coalesceAndPutQueueItem inFlight now uuid op q)"
  unfolding coalesceAndPutQueueItem_def Let_def
  by (auto intro!: queue_ok_put queue_ok_del assms simp: assms split: option.split)

lemma coalesce_queued:
  assumes "queue_ok q"
  shows "queued t r (coalesceAndPutQueueItem inFlight now uuid op q) =
    (if t = eqTable op \<and> r = eqRecordId op
     then map_option (\<lambda>nxt. \<lparr>qiId = queueKey t r, qiOpId = uuid, qiTable = t, qiRecordId = r,
            qiOperation = nxt,
            qiCreatedAt = (case queued t r q of None \<Rightarrow> now
              | Some x \<Rightarrow> if qiOperation x = nxt \<and> \<not> flying inFlight t r q then qiCreatedAt x else now),
            qiAttempts = 0, qiNextRetryAt = 0\<rparr>)
          (coalesceQueuedOperation (pendingOp t r q) (eqOperation op) (flying inFlight t r q))
     else queued t r q)"
proof (cases "queued (eqTable op) (eqRecordId op) q")
  case None
  then show ?thesis using assms
    by (simp add: coalesceAndPutQueueItem_def pendingOp_def flying_def queued_def [symmetric]
        queued_put coalesceQueuedOperation_def)
next
  case (Some x)
  then show ?thesis using assms
    by (simp add: coalesceAndPutQueueItem_def pendingOp_def flying_def queued_def [symmetric]
        queued_put queued_del Let_def split: option.split) blast?
qed

lemma coalesce_pending:
  assumes "queue_ok q"
  shows "pendingOp t r (coalesceAndPutQueueItem inFlight now uuid op q) =
    (if t = eqTable op \<and> r = eqRecordId op
     then coalesceQueuedOperation (pendingOp t r q) (eqOperation op) (flying inFlight t r q)
     else pendingOp t r q)"
  by (simp add: pendingOp_def coalesce_queued [OF assms] option.map_comp comp_def option.map_ident)

lemma coalesce_flying:
  assumes "queue_ok q" "uuid \<notin> inFlight"
  shows "flying inFlight t r (coalesceAndPutQueueItem inFlight now uuid op q)
    \<longleftrightarrow> \<not> (t = eqTable op \<and> r = eqRecordId op) \<and> flying inFlight t r q"
  using assms by (auto simp: flying_def coalesce_queued split: option.split)

text \<open>What a record's operations, in order, come to; \<open>f\<close> says the queued one is in flight.\<close>

fun netOp :: "bool \<Rightarrow> sync_operation option \<Rightarrow> sync_operation list \<Rightarrow> sync_operation option" where
  "netOp f cur [] = cur"
| "netOp f cur (op # ops) = netOp False (coalesceQueuedOperation cur op f) ops"

definition opsOn :: "sync_table \<Rightarrow> id \<Rightarrow> enqueue_op list \<Rightarrow> sync_operation list" where
  "opsOn t r ops = map eqOperation (filter (\<lambda>o'. eqTable o' = t \<and> eqRecordId o' = r) ops)"

lemma enqueueEach_ok: "queue_ok q \<Longrightarrow> queue_ok (enqueueEach inFlight now uuid ops q)"
  by (induction ops arbitrary: q uuid) (simp_all add: coalesce_ok)

lemma enqueueEach_pending:
  "queue_ok q \<Longrightarrow> (\<And>i. uuid i \<notin> inFlight) \<Longrightarrow>
   pendingOp t r (enqueueEach inFlight now uuid ops q)
     = netOp (flying inFlight t r q) (pendingOp t r q) (opsOn t r ops)"
proof (induction ops arbitrary: q uuid)
  case (Cons op ops)
  then show ?case
    by (simp add: coalesce_ok opsOn_def coalesce_pending coalesce_flying)
qed (simp add: opsOn_def)

lemma putSyncQueueOps_ok:
  "queue_ok q \<Longrightarrow> queue_ok (putSyncQueueOps b inFlight now uuid ops q)"
  by (simp add: putSyncQueueOps_def enqueueEach_ok)

lemma putSyncQueueOps_pending:
  "queue_ok q \<Longrightarrow> (\<And>i. uuid i \<notin> inFlight) \<Longrightarrow>
   pendingOp t r (putSyncQueueOps True inFlight now uuid ops q)
     = netOp (flying inFlight t r q) (pendingOp t r q) (opsOn t r ops)"
  by (simp add: putSyncQueueOps_def enqueueEach_pending) (simp add: opsOn_def)

text \<open>Every operation that comes out of an enqueue carries an id minted for it.\<close>

lemma enqueueEach_opIds:
  "queue_ok q \<Longrightarrow> queued t r (enqueueEach inFlight now uuid ops q) = Some x \<Longrightarrow>
   queued t r q = Some x \<and> opsOn t r ops = [] \<or> qiOpId x \<in> range uuid"
proof (induction ops arbitrary: q uuid)
  case (Cons op ops)
  have "queued t r (coalesceAndPutQueueItem inFlight now (uuid 0) op q) = Some x \<and> opsOn t r ops = []
      \<or> qiOpId x \<in> range (\<lambda>i. uuid (Suc i))"
    using Cons.prems(2) by (intro Cons.IH coalesce_ok [OF Cons.prems(1)]) simp
  with coalesce_queued [OF Cons.prems(1), of t r inFlight now "uuid 0" op]
  show ?case by (auto simp: opsOn_def split: if_splits)
qed (simp add: opsOn_def)

section \<open>Answers\<close>

lemma removeIfOp_ok: "queue_ok q \<Longrightarrow> queue_ok (removeQueueItemIfOp item q)"
  by (simp add: removeQueueItemIfOp_def queue_ok_del split: option.split)

lemma bump_ok:
  assumes "queue_ok q" "qiId item = queueKey (qiTable item) (qiRecordId item)"
  shows "queue_ok (bumpQueueAttempts now rnd item q)"
  using assms by (auto simp: bumpQueueAttempts_def Let_def split: option.split intro!: queue_ok_put)

lemma removeIfOp_queued:
  assumes "queue_ok q" "qiId item = queueKey (qiTable item) (qiRecordId item)"
  shows "queued t r (removeQueueItemIfOp item q) =
    (case queued t r q of None \<Rightarrow> None
     | Some x \<Rightarrow> if t = qiTable item \<and> r = qiRecordId item \<and> qiOpId x = qiOpId item then None else Some x)"
proof -
  have "tbl_get qiId (qiId item) q = queued (qiTable item) (qiRecordId item) q"
    by (simp add: queued_def assms(2))
  then show ?thesis
    by (auto simp: removeQueueItemIfOp_def assms(2) queued_del split: option.splits)
qed

lemma bump_queued:
  assumes "queue_ok q" "qiId item = queueKey (qiTable item) (qiRecordId item)"
  shows "queued t r (bumpQueueAttempts now rnd item q) =
    (case queued t r q of None \<Rightarrow> None
     | Some x \<Rightarrow> if t = qiTable item \<and> r = qiRecordId item \<and> qiOpId x = qiOpId item
         then Some (item\<lparr>qiAttempts := qiAttempts item + 1,
                qiNextRetryAt := of_int now + backoffMs (qiAttempts item + 1) rnd\<rparr>)
         else Some x)"
proof -
  have "tbl_get qiId (qiId item) q = queued (qiTable item) (qiRecordId item) q"
    by (simp add: queued_def assms(2))
  then show ?thesis using assms
    by (auto simp: bumpQueueAttempts_def Let_def queued_put split: option.splits)
qed

section \<open>The cursor and the failure list\<close>

lemma getMeta_setMeta:
  "idb_ok fst (cbMeta db) \<Longrightarrow> getMeta k (setMeta j v db) = (if k = j then Some v else getMeta k db)"
  by (simp add: getMeta_def setMeta_def idb_get_put)

lemma setMeta_ok: "idb_ok fst (cbMeta db) \<Longrightarrow> idb_ok fst (cbMeta (setMeta k v db))"
  by (simp add: setMeta_def idb_ok_put)

lemma advanceCursor_ok: "idb_ok fst (cbMeta db) \<Longrightarrow> idb_ok fst (cbMeta (advanceCursor w db))"
  by (simp add: advanceCursor_def setMeta_ok split: option.split)

lemma advanceCursor_max:
  "idb_ok fst (cbMeta db) \<Longrightarrow>
   parseCursor (getCursor (advanceCursor w db)) = max (parseCursor (getCursor db)) (parseCursor w)"
  using parseCursor_range [of w]
  by (auto simp: advanceCursor_def getCursor_def getMeta_setMeta isCursorAhead_def split: option.split)

lemma lastN_length: "length (lastN n xs) \<le> n"
  by (simp add: lastN_def)

lemma lastN_set: "set (lastN n xs) \<subseteq> set xs"
  by (simp add: lastN_def set_drop_subset)

lemma lastN_distinct: "distinct (map f xs) \<Longrightarrow> distinct (map f (lastN n xs))"
  by (simp add: lastN_def drop_map [symmetric] distinct_drop)

lemma backoff_bounds:
  assumes "0 \<le> rnd" "rnd < 1"
  shows "0 < backoffMs n rnd" "backoffMs n rnd < 301000"
  using assms by (auto simp: backoffMs_def min_def intro: add_pos_nonneg)

section \<open>Properties\<close>

definition sample_item :: "id \<Rightarrow> sync_operation \<Rightarrow> queue_item" where
  "sample_item opId opn = \<lparr>qiId = queueKey Cards ''c'', qiOpId = opId, qiTable = Cards, qiRecordId = ''c'',
     qiOperation = opn, qiCreatedAt = 5, qiAttempts = 2, qiNextRetryAt = 9\<rparr>"



text \<open>
  C14. Whatever watermarks arrive and in whatever order, the stored pull cursor ends at the
  largest sequence seen: it never goes back, and an unreadable or empty watermark moves
  nothing.
\<close>

theorem cursor_only_advances:
  assumes "idb_ok fst (cbMeta db)"
  shows "parseCursor (getCursor (fold advanceCursor ws db))
    = Max (insert (parseCursor (getCursor db)) (parseCursor ` set ws))"
  using assms
proof (induction ws arbitrary: db)
  case (Cons w ws)
  then have "parseCursor (getCursor (fold advanceCursor (w # ws) db))
      = Max (insert (max (parseCursor (getCursor db)) (parseCursor w)) (parseCursor ` set ws))"
    by (simp add: advanceCursor_ok advanceCursor_max)
  also have "\<dots> = Max (insert (parseCursor (getCursor db)) (parseCursor ` set (w # ws)))"
    by (cases "set ws = {}") (simp_all add: Max_insert max.assoc)
  finally show ?case .
qed simp

definition empty_db :: client_db where
  "empty_db = \<lparr>cbTopics = [], cbCards = [], cbQueue = [], cbMeta = [], cbFailedOps = None, cbMediaStats = None\<rparr>"

theorem cursor_only_advances_witness:
  "parseCursor (getCursor (fold advanceCursor [''7'', ''12'', '''', ''9''] empty_db)) = 12"
proof -
  have "idb_ok fst (cbMeta empty_db)" by (simp add: empty_db_def)
  note all = cursor_only_advances [OF this, of "[''7'', ''12'', '''', ''9'']"]
  have "map parseCursor [''7'', ''12'', '''', ''9''] = [7, 12, 0, 9]" "parseCursor (getCursor empty_db) = 0"
    by code_simp+
  then have "parseCursor ` set [''7'', ''12'', '''', ''9''] = {7, 12, 0, 9}"
    by (metis list.set_map list.set(1,2))
  with all show ?thesis by (simp only: \<open>parseCursor (getCursor empty_db) = 0\<close>) simp
qed

text \<open>
  C15. The list of failed operations shown to the user is the stored one, never holds more than
  50 entries, holds one entry per operation, and keeps the newest: recording up to 50 failures
  shows every one of them, replacing older entries of the same operations.
\<close>

theorem failed_ops_bounded:
  assumes "distinct (map foOpId (loadFailedOps (fst s)))" "distinct (map foOpId entries)" "entries \<noteq> []"
    and "s' = addFailedOps entries s"
  shows "length (loadFailedOps (fst s')) \<le> 50
    \<and> distinct (map foOpId (loadFailedOps (fst s')))
    \<and> ssFailedOps (snd s') = loadFailedOps (fst s')
    \<and> set (loadFailedOps (fst s')) \<subseteq> set entries \<union> set (loadFailedOps (fst s))
    \<and> (length entries \<le> 50 \<longrightarrow> set entries \<subseteq> set (loadFailedOps (fst s')))"
proof -
  let ?all = "filter (\<lambda>e. foOpId e \<notin> foOpId ` set entries) (loadFailedOps (fst s)) @ entries"
  have load: "loadFailedOps (fst s') = lastN 50 ?all" "ssFailedOps (snd s') = lastN 50 ?all"
    using assms(3) by (simp_all add: assms(4) addFailedOps_def saveFailedOps_def loadFailedOps_def
        MAX_FAILED_OPS_def Let_def)
  have "distinct (map foOpId ?all)"
    using assms(1,2) by (auto simp: distinct_map intro: inj_on_subset)
  then have "distinct (map foOpId (lastN 50 ?all))" by (rule lastN_distinct)
  moreover have "set entries \<subseteq> set (lastN 50 ?all)" if "length entries \<le> 50"
    using that by (auto simp: lastN_def)
  moreover have "set (lastN 50 ?all) \<subseteq> set entries \<union> set (loadFailedOps (fst s))"
    using lastN_set [of 50 ?all] by auto
  ultimately show ?thesis using lastN_length [of 50 ?all] by (simp add: load)
qed

theorem failed_ops_bounded_witness:
  "let e = \<lparr>foOpId = ''o'', foTable = Cards, foRecordId = ''c'', foCode = ''X'', foMessage = '''', foAt = 3\<rparr>;
       s' = addFailedOps [e] (empty_db\<lparr>cbFailedOps := Some [e\<lparr>foAt := 1\<rparr>]\<rparr>, initialState)
   in distinct (map foOpId (loadFailedOps (fst s'))) \<and> e \<in> set (loadFailedOps (fst s'))"
proof -
  define e where "e = \<lparr>foOpId = ''o'', foTable = Cards, foRecordId = ''c'', foCode = ''X'', foMessage = '''', foAt = 3\<rparr>"
  have "distinct (map foOpId (loadFailedOps (fst (empty_db\<lparr>cbFailedOps := Some [e\<lparr>foAt := 1\<rparr>]\<rparr>, initialState))))"
    "distinct (map foOpId [e])" "[e] \<noteq> []"
    by (simp_all add: loadFailedOps_def)
  from failed_ops_bounded [OF this refl] show ?thesis by (simp add: e_def [symmetric] Let_def)
qed

end
