(* ===== verification/Accounts.thy ===== *)
theory Accounts
  imports ServerDb Codec Lww
begin

text \<open>
  The account side of the server's database (prisma/schema.prisma): preferences, learning and
  notification settings, reminders, the subscription and its billing events; the lazily created
  defaults (ensure.service.ts) and what a plan entitles to (plan-entitlement.ts, plan.service.ts).

  \<open>account_env\<close> is the configuration (env.ts) an operation reads, with the clock of its call.
\<close>

section \<open>Rows\<close>

datatype theme = LIGHT | DARK | SYSTEM
datatype plan_tier = FREE | PRO | PRO_PLUS
datatype subscription_status = ACTIVE | TRIALING | PAST_DUE | CANCELED | EXPIRED | INCOMPLETE | PAUSED | UNPAID
datatype billing_provider = NONE | STRIPE | LEMON_SQUEEZY
datatype channel = PUSH | EMAIL

record account_user =
  auId :: id
  auEmail :: string
  auDisabledAt :: "ms option"

record preference_row =
  upUser :: id
  upTheme :: theme
  upLanguage :: string
  upTimezone :: string
  upUpdatedAt :: ms
  upDevice :: "id option"

record learning_row =
  ulUser :: id
  ulWeekStartsOn :: int
  ulDailyNewCardLimit :: "int option"
  ulUpdatedAt :: ms
  ulDevice :: "id option"

record notification_row =
  unUser :: id
  unEnabled :: bool
  unTimezone :: string
  unUpdatedAt :: ms
  unDevice :: "id option"

record reminder_row =
  nrId :: id
  nrUser :: id
  nrTimeLocal :: ms
  nrDaysOfWeek :: int
  nrChannel :: channel
  nrEnabled :: bool
  nrSortOrder :: int
  nrUpdatedAt :: ms

record subscription_row =
  suUser :: id
  suPlan :: plan_tier
  suStatus :: subscription_status
  suProvider :: billing_provider
  suCustomerId :: "string option"
  suSubscriptionId :: "string option"
  suVariantId :: "string option"
  suProviderUpdatedAt :: "ms option"
  suLastVerifiedAt :: "ms option"
  suPeriodStart :: "ms option"
  suPeriodEnd :: "ms option"
  suEndsAt :: "ms option"
  suTrialEndsAt :: "ms option"
  suCancelAtPeriodEnd :: bool
  suCanceledAt :: "ms option"
  suServerUpdatedAt :: ms

record billing_event =
  beKey :: string
  beType :: string
  beProcessedAt :: "ms option"

record checkout_intent =
  ciUser :: id
  ciCheckoutId :: string
  ciUrl :: string
  ciExpiresAt :: ms
  ciCreatedAt :: ms

record account_db =
  adUsers :: "account_user list"
  adPreferences :: "preference_row list"
  adLearning :: "learning_row list"
  adNotifications :: "notification_row list"
  adReminders :: "reminder_row list"
  adSubscriptions :: "subscription_row list"
  adEvents :: "billing_event list"
  adIntents :: "checkout_intent list"

record account_env =
  aeNow :: ms
  aeBetaOpenPro :: bool
  aeLocalBilling :: bool
  aeMonthlyVariant :: string
  aeYearlyVariant :: string
  aeStoreId :: string
  aeTestMode :: bool
  aeReturnUrl :: string

section \<open>Defaults (ensure.service.ts)\<close>

text \<open>Prisma's upsert with \<open>update: {}\<close>: a row of the user stays as it is.\<close>

definition createMissing :: "('r \<Rightarrow> id) \<Rightarrow> id \<Rightarrow> 'r \<Rightarrow> 'r list \<Rightarrow> 'r list" where
  "createMissing userOf u r rows = (case tbl_get userOf u rows of None \<Rightarrow> rows @ [r] | Some _ \<Rightarrow> rows)"

definition freshSubscription :: "id \<Rightarrow> plan_tier \<Rightarrow> ms \<Rightarrow> subscription_row" where
  "freshSubscription u plan now = \<lparr>suUser = u, suPlan = plan, suStatus = ACTIVE, suProvider = NONE,
     suCustomerId = None, suSubscriptionId = None, suVariantId = None, suProviderUpdatedAt = None,
     suLastVerifiedAt = None, suPeriodStart = None, suPeriodEnd = None, suEndsAt = None, suTrialEndsAt = None,
     suCancelAtPeriodEnd = False, suCanceledAt = None, suServerUpdatedAt = now\<rparr>"

definition ensureSubscription :: "account_env \<Rightarrow> id \<Rightarrow> subscription_row list \<Rightarrow> subscription_row list" where
  "ensureSubscription env u rows =
     (case tbl_get suUser u rows of
        None \<Rightarrow> rows @ [freshSubscription u (if aeBetaOpenPro env then PRO else FREE) (aeNow env)]
      | Some s \<Rightarrow>
          if aeBetaOpenPro env
          then tbl_put suUser (s\<lparr>suPlan := PRO, suStatus := ACTIVE, suProvider := NONE, suServerUpdatedAt := aeNow env\<rparr>) rows
          else rows)"

text \<open>The four upserts are one transaction; a user that does not exist violates their foreign keys.\<close>

definition ensureUserSettings :: "account_env \<Rightarrow> id \<Rightarrow> account_db \<Rightarrow> apply_error + account_db" where
  "ensureUserSettings env u d =
     (if tbl_get auId u (adUsers d) = None then Inl (OtherErr ''P2003'')
      else Inr (d\<lparr>
        adPreferences := createMissing upUser u
          \<lparr>upUser = u, upTheme = SYSTEM, upLanguage = ''en'', upTimezone = ''UTC'', upUpdatedAt = 0, upDevice = None\<rparr>
          (adPreferences d),
        adLearning := createMissing ulUser u
          \<lparr>ulUser = u, ulWeekStartsOn = 0, ulDailyNewCardLimit = None, ulUpdatedAt = 0, ulDevice = None\<rparr> (adLearning d),
        adNotifications := createMissing unUser u
          \<lparr>unUser = u, unEnabled = False, unTimezone = ''UTC'', unUpdatedAt = 0, unDevice = None\<rparr> (adNotifications d),
        adSubscriptions := ensureSubscription env u (adSubscriptions d)\<rparr>))"

section \<open>Entitlement (plan-entitlement.ts)\<close>

fun PLAN_RANK :: "plan_tier \<Rightarrow> nat" where
  "PLAN_RANK FREE = 0" | "PLAN_RANK PRO = 1" | "PLAN_RANK PRO_PLUS = 2"

definition ALWAYS_ENTITLED :: "subscription_status set" where
  "ALWAYS_ENTITLED = {ACTIVE, TRIALING, PAST_DUE}"

definition isSubscriptionEntitled :: "subscription_status \<Rightarrow> ms option \<Rightarrow> ms \<Rightarrow> bool" where
  "isSubscriptionEntitled status endsAt now \<longleftrightarrow>
     (if status \<in> ALWAYS_ENTITLED then True
      else if status = CANCELED then (case endsAt of None \<Rightarrow> False | Some e \<Rightarrow> e > now)
      else False)"

definition effectivePlan :: "plan_tier \<Rightarrow> subscription_status \<Rightarrow> ms option \<Rightarrow> ms \<Rightarrow> plan_tier" where
  "effectivePlan plan status endsAt now = (if isSubscriptionEntitled status endsAt now then plan else FREE)"

definition isPlanEntitled :: "plan_tier \<Rightarrow> subscription_status \<Rightarrow> plan_tier \<Rightarrow> ms option \<Rightarrow> ms \<Rightarrow> bool" where
  "isPlanEntitled plan status minimum endsAt now \<longleftrightarrow>
     PLAN_RANK (effectivePlan plan status endsAt now) \<ge> PLAN_RANK minimum"

text \<open>plan.service.ts\<close>

fun planName :: "plan_tier \<Rightarrow> string" where
  "planName FREE = ''FREE''" | "planName PRO = ''PRO''" | "planName PRO_PLUS = ''PRO_PLUS''"

fun statusName :: "subscription_status \<Rightarrow> string" where
  "statusName ACTIVE = ''ACTIVE''"
| "statusName TRIALING = ''TRIALING''"
| "statusName PAST_DUE = ''PAST_DUE''"
| "statusName CANCELED = ''CANCELED''"
| "statusName EXPIRED = ''EXPIRED''"
| "statusName INCOMPLETE = ''INCOMPLETE''"
| "statusName PAUSED = ''PAUSED''"
| "statusName UNPAID = ''UNPAID''"

definition getSubscription :: "account_env \<Rightarrow> id \<Rightarrow> account_db \<Rightarrow> apply_error + (subscription_row \<times> ms option) \<times> account_db" where
  "getSubscription env u d =
     (case ensureUserSettings env u d of
        Inl e \<Rightarrow> Inl e
      | Inr d1 \<Rightarrow>
          (case (tbl_get suUser u (adSubscriptions d1), tbl_get auId u (adUsers d1)) of
             (Some s, Some user) \<Rightarrow> Inr ((s, auDisabledAt user), d1)
           | _ \<Rightarrow> Inl (OtherErr ''P2025'')))"

definition planRequired :: "plan_tier \<Rightarrow> subscription_row \<Rightarrow> apply_error" where
  "planRequired minimum s = Forbidden (''Requires '' @ planName minimum @ '' plan (current: '' @ planName (suPlan s)
     @ ''/'' @ statusName (suStatus s) @ '')'') ''PLAN_REQUIRED''"

definition assertPlan :: "account_env \<Rightarrow> id \<Rightarrow> plan_tier \<Rightarrow> account_db \<Rightarrow> apply_error option \<times> account_db" where
  "assertPlan env u minimum d =
     (case getSubscription env u d of
        Inl e \<Rightarrow> (Some e, d)
      | Inr ((s, disabled), d1) \<Rightarrow>
          (if disabled \<noteq> None \<or> \<not> isPlanEntitled (suPlan s) (suStatus s) minimum (suEndsAt s) (aeNow env)
           then Some (planRequired minimum s) else None, d1))"

section \<open>Facts\<close>

named_theorems account_facts "lookups in the account tables after an operation"

lemma createMissing_get [account_facts]:
  "userOf r = u \<Longrightarrow> tbl_get userOf v (createMissing userOf u r rows)
     = (if v = u then Some (case tbl_get userOf u rows of None \<Rightarrow> r | Some x \<Rightarrow> x) else tbl_get userOf v rows)"
proof -
  have snoc: "tbl_get userOf v (rows @ [r]) = (case tbl_get userOf v rows of None \<Rightarrow>
      (if userOf r = v then Some r else None) | Some x \<Rightarrow> Some x)" for rows
    by (induction rows) auto
  show "userOf r = u \<Longrightarrow> ?thesis" by (auto simp: createMissing_def snoc split: option.splits)
qed

lemma tbl_get_snoc [account_facts]:
  "tbl_get key k (rows @ [r]) = (case tbl_get key k rows of None \<Rightarrow> (if key r = k then Some r else None) | Some x \<Rightarrow> Some x)"
  by (induction rows) auto

lemma ensureSubscription_get [account_facts]:
  "tbl_get suUser v (ensureSubscription env u rows) = (if v = u then Some (case tbl_get suUser u rows of
       None \<Rightarrow> freshSubscription u (if aeBetaOpenPro env then PRO else FREE) (aeNow env)
     | Some s \<Rightarrow> if aeBetaOpenPro env
         then s\<lparr>suPlan := PRO, suStatus := ACTIVE, suProvider := NONE, suServerUpdatedAt := aeNow env\<rparr> else s)
     else tbl_get suUser v rows)"
  by (auto simp: ensureSubscription_def tbl_get_put tbl_get_snoc freshSubscription_def dest: tbl_get_key
      split: option.splits)

text \<open>Away from the open beta, making sure of the defaults twice is making sure of them once.\<close>

lemma ensure_subscription_kept:
  "ensureUserSettings env u d = Inr d1 \<Longrightarrow> \<not> aeBetaOpenPro env \<Longrightarrow>
   tbl_get suUser v (adSubscriptions d) = Some s \<Longrightarrow> tbl_get suUser v (adSubscriptions d1) = Some s"
  by (auto simp: ensureUserSettings_def account_facts split: if_splits)

lemma ensure_idempotent:
  "ensureUserSettings env u d = Inr d1 \<Longrightarrow> \<not> aeBetaOpenPro env \<Longrightarrow> ensureUserSettings env' u d1
     = Inr (d1\<lparr>adSubscriptions := ensureSubscription env' u (adSubscriptions d1)\<rparr>)"
  by (auto simp: ensureUserSettings_def createMissing_def tbl_get_snoc split: if_splits option.splits)

lemma isPlanEntitled_free [simp]: "isPlanEntitled plan status FREE e now"
  by (simp add: isPlanEntitled_def)

lemma entitled_iff:
  "isPlanEntitled plan status PRO e now \<longleftrightarrow> plan \<noteq> FREE \<and> isSubscriptionEntitled status e now"
  by (cases plan) (auto simp: isPlanEntitled_def effectivePlan_def)

end
