(* ===== verification/SettingsService.thy ===== *)
theory SettingsService
  imports Accounts "HOL-Library.Product_Lexorder"
begin

text \<open>
  The settings of an account: mappers.ts with the last-write-wins rule of the settings, the
  request schemas (settings.schemas.ts) and settings.service.ts. Each section (preferences,
  learning, notifications) and each reminder is a register of its own.
\<close>

section \<open>Mappers\<close>

fun themeToJson :: "theme \<Rightarrow> string" where
  "themeToJson LIGHT = ''light''" | "themeToJson DARK = ''dark''" | "themeToJson SYSTEM = ''system''"

definition themeFromJson :: "string \<Rightarrow> apply_error + theme" where
  "themeFromJson s =
     (if s = ''light'' then Inr LIGHT else if s = ''dark'' then Inr DARK else if s = ''system'' then Inr SYSTEM
      else Inl (OtherErr (''Invalid theme: '' @ s)))"

fun channelToJson :: "channel \<Rightarrow> string" where
  "channelToJson PUSH = ''push''" | "channelToJson EMAIL = ''email''"

definition channelFromJson :: "string \<Rightarrow> apply_error + channel" where
  "channelFromJson s =
     (if s = ''push'' then Inr PUSH else if s = ''email'' then Inr EMAIL else Inl (OtherErr (''Invalid channel: '' @ s)))"

definition padStart2 :: "int \<Rightarrow> string" where
  "padStart2 n = (let s = natToString (nat n) in if length s < 2 then CHR ''0'' # s else s)"

definition timeToHhMmSs :: "ms \<Rightarrow> string" where
  "timeToHhMmSs t = padStart2 (t div 3600000 mod 24) @ '':'' @ padStart2 (t div 60000 mod 60)
     @ '':'' @ padStart2 (t div 1000 mod 60)"

text \<open>\<open>value.split(':')\<close>\<close>

fun splitColon :: "string \<Rightarrow> string list" where
  "splitColon [] = [[]]"
| "splitColon (c # cs) =
     (if c = CHR '':'' then [] # splitColon cs
      else case splitColon cs of [] \<Rightarrow> [[c]] | p # ps \<Rightarrow> (c # p) # ps)"

text \<open>
  \<open>Number\<close> of a part that is digits or empty; after the schema no other part occurs. The date is
  the time of the day on the first of January 1970.
\<close>

definition partNumber :: "string \<Rightarrow> int option" where
  "partNumber s = (if list_all isDigit s then Some (digitsVal s) else None)"

definition hhMmSsToTime :: "string \<Rightarrow> apply_error + ms" where
  "hhMmSsToTime value =
     (case those (map partNumber (splitColon value)) of
        Some (h # m # rest) \<Rightarrow> Inr (((h * 60 + m) * 60 + (case rest of [] \<Rightarrow> 0 | s # _ \<Rightarrow> s)) * 1000)
      | _ \<Rightarrow> Inl (OtherErr ''Invalid Date''))"

record preferences_dto =
  pdtTheme :: string
  pdtLanguage :: string
  pdtTimezone :: string
  pdtUpdatedAt :: ms
  pdtDevice :: "id option"
  pdtApplied :: "bool option"

record learning_dto =
  ldtWeekStartsOn :: int
  ldtDailyNewCardLimit :: "int option"
  ldtUpdatedAt :: ms
  ldtDevice :: "id option"
  ldtApplied :: "bool option"

record reminder_dto =
  rdtId :: id
  rdtTimeLocal :: string
  rdtDaysOfWeek :: int
  rdtChannel :: string
  rdtEnabled :: bool
  rdtSortOrder :: int
  rdtUpdatedAt :: ms

record notifications_dto =
  ndtEnabled :: bool
  ndtTimezone :: string
  ndtReminders :: "reminder_dto list"
  ndtUpdatedAt :: ms
  ndtDevice :: "id option"
  ndtApplied :: "bool option"

definition preferencesToDto :: "preference_row \<Rightarrow> bool option \<Rightarrow> preferences_dto" where
  "preferencesToDto r applied = \<lparr>pdtTheme = themeToJson (upTheme r), pdtLanguage = upLanguage r,
     pdtTimezone = upTimezone r, pdtUpdatedAt = upUpdatedAt r, pdtDevice = upDevice r, pdtApplied = applied\<rparr>"

definition learningToDto :: "learning_row \<Rightarrow> bool option \<Rightarrow> learning_dto" where
  "learningToDto r applied = \<lparr>ldtWeekStartsOn = ulWeekStartsOn r, ldtDailyNewCardLimit = ulDailyNewCardLimit r,
     ldtUpdatedAt = ulUpdatedAt r, ldtDevice = ulDevice r, ldtApplied = applied\<rparr>"

definition reminderToDto :: "reminder_row \<Rightarrow> reminder_dto" where
  "reminderToDto r = \<lparr>rdtId = nrId r, rdtTimeLocal = timeToHhMmSs (nrTimeLocal r), rdtDaysOfWeek = nrDaysOfWeek r,
     rdtChannel = channelToJson (nrChannel r), rdtEnabled = nrEnabled r, rdtSortOrder = nrSortOrder r,
     rdtUpdatedAt = nrUpdatedAt r\<rparr>"

text \<open>
  The sort by \<open>sortOrder\<close> and then \<open>localeCompare\<close> of the ids: an insertion that goes behind
  every row that does not compare greater.
\<close>

definition reminderAfter :: "host \<Rightarrow> reminder_row \<Rightarrow> reminder_row \<Rightarrow> bool" where
  "reminderAfter H a b \<longleftrightarrow> nrSortOrder a > nrSortOrder b
     \<or> nrSortOrder a = nrSortOrder b \<and> localeCompare H (nrId a) (nrId b) > 0"

fun insertReminder :: "host \<Rightarrow> reminder_row \<Rightarrow> reminder_row list \<Rightarrow> reminder_row list" where
  "insertReminder H r [] = [r]"
| "insertReminder H r (x # xs) = (if reminderAfter H r x then x # insertReminder H r xs else r # x # xs)"

definition notificationsToDto :: "host \<Rightarrow> notification_row \<Rightarrow> reminder_row list \<Rightarrow> bool option \<Rightarrow> notifications_dto" where
  "notificationsToDto H r reminders applied = \<lparr>ndtEnabled = unEnabled r, ndtTimezone = unTimezone r,
     ndtReminders = map reminderToDto (foldr (insertReminder H) reminders []), ndtUpdatedAt = unUpdatedAt r,
     ndtDevice = unDevice r, ndtApplied = applied\<rparr>"

definition shouldApplySettingsLww :: "host \<Rightarrow> ms option \<Rightarrow> id option \<Rightarrow> ms \<Rightarrow> id \<Rightarrow> bool" where
  "shouldApplySettingsLww H existingUpdatedAt existingDevice incomingUpdatedAt incomingDevice =
     (case existingUpdatedAt of
        None \<Rightarrow> True
      | Some e \<Rightarrow>
          if incomingUpdatedAt > e then True
          else if incomingUpdatedAt < e then False
          else localeCompare H incomingDevice (case existingDevice of None \<Rightarrow> '''' | Some d \<Rightarrow> d) > 0)"

section \<open>Requests\<close>

record preferences_patch =
  ppTheme :: "string option"
  ppLanguage :: "string option"
  ppTimezone :: "string option"
  ppUpdatedAt :: ms
  ppDevice :: id

record learning_patch =
  lpWeekStartsOn :: "int option"
  lpDailyNewCardLimit :: "int option option"
  lpUpdatedAt :: ms
  lpDevice :: id

record notifications_patch =
  npEnabled :: "bool option"
  npTimezone :: "string option"
  npReminders :: "reminder_dto list option"
  npUpdatedAt :: ms
  npDevice :: id

definition updatedAtSchema :: "jsv \<Rightarrow> int option" where
  "updatedAtSchema = decCheck (\<lambda>n. n \<ge> 0) decInt"

definition decEnum :: "string list \<Rightarrow> jsv \<Rightarrow> string option" where
  "decEnum ok = decCheck (\<lambda>s. s \<in> set ok) decStr"

definition timezoneSchema :: "jsv \<Rightarrow> string option" where
  "timezoneSchema = decCheck (\<lambda>s. 1 \<le> length s \<and> length s \<le> 64) decStr"

definition languageSchema :: "jsv \<Rightarrow> string option" where
  "languageSchema = decCheck (\<lambda>s. 2 \<le> length s \<and> length s \<le> 35) decStr"

text \<open>\<open>/^([01]\d|2[0-3]):[0-5]\d(:[0-5]\d)?$/\<close>\<close>

definition isSixty :: "char \<Rightarrow> char \<Rightarrow> bool" where
  "isSixty a b \<longleftrightarrow> isDigit a \<and> digitVal a \<le> 5 \<and> isDigit b"

fun isTimeLocal :: "string \<Rightarrow> bool" where
  "isTimeLocal (a # b # c # d # e # rest) \<longleftrightarrow>
     isDigit a \<and> isDigit b \<and> (digitVal a \<le> 1 \<or> digitVal a = 2 \<and> digitVal b \<le> 3)
     \<and> c = CHR '':'' \<and> isSixty d e
     \<and> (case rest of [] \<Rightarrow> True | [f, g, h] \<Rightarrow> f = CHR '':'' \<and> isSixty g h | _ \<Rightarrow> False)"
| "isTimeLocal _ \<longleftrightarrow> False"

definition reminderSchema :: "host \<Rightarrow> jsv \<Rightarrow> reminder_dto option" where
  "reminderSchema H v = (if \<not> isObject v then None else do {
     i \<leftarrow> ClientIdSchema H (getProp ''id'' v);
     t \<leftarrow> decCheck isTimeLocal decStr (getProp ''timeLocal'' v);
     days \<leftarrow> decCheck (\<lambda>n. 0 \<le> n \<and> n \<le> 127) decInt (getProp ''daysOfWeek'' v);
     ch \<leftarrow> decEnum [''push'', ''email''] (getProp ''channel'' v);
     en \<leftarrow> decBool (getProp ''enabled'' v);
     so \<leftarrow> decInt (getProp ''sortOrder'' v);
     upd \<leftarrow> updatedAtSchema (getProp ''updatedAt'' v);
     Some \<lparr>rdtId = i, rdtTimeLocal = t, rdtDaysOfWeek = days, rdtChannel = ch, rdtEnabled = en,
       rdtSortOrder = so, rdtUpdatedAt = upd\<rparr> })"

definition patchPreferencesSchema :: "host \<Rightarrow> jsv \<Rightarrow> preferences_patch option" where
  "patchPreferencesSchema H v = (if \<not> isObject v then None else do {
     th \<leftarrow> decOptional (decEnum [''light'', ''dark'', ''system'']) (getProp ''theme'' v);
     la \<leftarrow> decOptional languageSchema (getProp ''language'' v);
     tz \<leftarrow> decOptional timezoneSchema (getProp ''timezone'' v);
     upd \<leftarrow> updatedAtSchema (getProp ''updatedAt'' v);
     dev \<leftarrow> ClientIdSchema H (getProp ''deviceId'' v);
     (if th = None \<and> la = None \<and> tz = None then None
      else Some \<lparr>ppTheme = th, ppLanguage = la, ppTimezone = tz, ppUpdatedAt = upd, ppDevice = dev\<rparr>) })"

definition patchLearningSchema :: "host \<Rightarrow> jsv \<Rightarrow> learning_patch option" where
  "patchLearningSchema H v = (if \<not> isObject v then None else do {
     ws \<leftarrow> decOptional (decCheck (\<lambda>n. 0 \<le> n \<and> n \<le> 6) decInt) (getProp ''weekStartsOn'' v);
     lim \<leftarrow> decOptional (\<lambda>x. if x = JNull then Some None else map_option Some (decCheck (\<lambda>n. n > 0) decInt x))
       (getProp ''dailyNewCardLimit'' v);
     upd \<leftarrow> updatedAtSchema (getProp ''updatedAt'' v);
     dev \<leftarrow> ClientIdSchema H (getProp ''deviceId'' v);
     (if ws = None \<and> lim = None then None
      else Some \<lparr>lpWeekStartsOn = ws, lpDailyNewCardLimit = lim, lpUpdatedAt = upd, lpDevice = dev\<rparr>) })"

definition patchNotificationsSchema :: "host \<Rightarrow> jsv \<Rightarrow> notifications_patch option" where
  "patchNotificationsSchema H v = (if \<not> isObject v then None else do {
     en \<leftarrow> decOptional decBool (getProp ''enabled'' v);
     tz \<leftarrow> decOptional timezoneSchema (getProp ''timezone'' v);
     rs \<leftarrow> decOptional (decArr (reminderSchema H)) (getProp ''reminders'' v);
     upd \<leftarrow> updatedAtSchema (getProp ''updatedAt'' v);
     dev \<leftarrow> ClientIdSchema H (getProp ''deviceId'' v);
     (if en = None \<and> tz = None \<and> rs = None then None
      else Some \<lparr>npEnabled = en, npTimezone = tz, npReminders = rs, npUpdatedAt = upd, npDevice = dev\<rparr>) })"

definition putRemindersSchema :: "host \<Rightarrow> jsv \<Rightarrow> (reminder_dto list \<times> ms \<times> id) option" where
  "putRemindersSchema H v = (if \<not> isObject v then None else do {
     rs \<leftarrow> decArr (reminderSchema H) (getProp ''reminders'' v);
     upd \<leftarrow> updatedAtSchema (getProp ''updatedAt'' v);
     dev \<leftarrow> ClientIdSchema H (getProp ''deviceId'' v);
     Some (rs, upd, dev) })"

section \<open>Patches (settings.service.ts)\<close>

definition patchPreferences :: "host \<Rightarrow> account_env \<Rightarrow> id \<Rightarrow> preferences_patch \<Rightarrow> account_db
    \<Rightarrow> (apply_error + preferences_dto) \<times> account_db" where
  "patchPreferences H env u p d =
     (case ensureUserSettings env u d of
        Inl e \<Rightarrow> (Inl e, d)
      | Inr d1 \<Rightarrow>
          (case tbl_get upUser u (adPreferences d1) of
             None \<Rightarrow> (Inl (OtherErr ''P2025''), d1)
           | Some existing \<Rightarrow>
               if \<not> shouldApplySettingsLww H (Some (upUpdatedAt existing)) (upDevice existing) (ppUpdatedAt p) (ppDevice p)
               then (Inr (preferencesToDto existing (Some False)), d1)
               else (case (case ppTheme p of None \<Rightarrow> Inr (upTheme existing) | Some t \<Rightarrow> themeFromJson t) of
                       Inl e \<Rightarrow> (Inl e, d1)
                     | Inr th \<Rightarrow>
                         (case toDate (of_int (ppUpdatedAt p)) of
                            Inl e \<Rightarrow> (Inl e, d1)
                          | Inr upd \<Rightarrow>
                              (let row = existing\<lparr>upTheme := th,
                                     upLanguage := (case ppLanguage p of None \<Rightarrow> upLanguage existing | Some l \<Rightarrow> l),
                                     upTimezone := (case ppTimezone p of None \<Rightarrow> upTimezone existing | Some z \<Rightarrow> z),
                                     upUpdatedAt := upd, upDevice := Some (ppDevice p)\<rparr>
                               in (Inr (preferencesToDto row (Some True)),
                                   d1\<lparr>adPreferences := tbl_put upUser row (adPreferences d1)\<rparr>))))))"

definition patchLearning :: "host \<Rightarrow> account_env \<Rightarrow> id \<Rightarrow> learning_patch \<Rightarrow> account_db
    \<Rightarrow> (apply_error + learning_dto) \<times> account_db" where
  "patchLearning H env u p d =
     (case ensureUserSettings env u d of
        Inl e \<Rightarrow> (Inl e, d)
      | Inr d1 \<Rightarrow>
          (case tbl_get ulUser u (adLearning d1) of
             None \<Rightarrow> (Inl (OtherErr ''P2025''), d1)
           | Some existing \<Rightarrow>
               if \<not> shouldApplySettingsLww H (Some (ulUpdatedAt existing)) (ulDevice existing) (lpUpdatedAt p) (lpDevice p)
               then (Inr (learningToDto existing (Some False)), d1)
               else (case toDate (of_int (lpUpdatedAt p)) of
                       Inl e \<Rightarrow> (Inl e, d1)
                     | Inr upd \<Rightarrow>
                         (let row = existing\<lparr>
                                ulWeekStartsOn := (case lpWeekStartsOn p of None \<Rightarrow> ulWeekStartsOn existing | Some w \<Rightarrow> w),
                                ulDailyNewCardLimit := (case lpDailyNewCardLimit p of
                                    None \<Rightarrow> ulDailyNewCardLimit existing | Some l \<Rightarrow> l),
                                ulUpdatedAt := upd, ulDevice := Some (lpDevice p)\<rparr>
                          in (Inr (learningToDto row (Some True)),
                              d1\<lparr>adLearning := tbl_put ulUser row (adLearning d1)\<rparr>)))))"

text \<open>One reminder of the request against the reminders the user had.\<close>

definition upsertReminder :: "id \<Rightarrow> reminder_dto \<Rightarrow> reminder_row list \<Rightarrow> apply_error + reminder_row list" where
  "upsertReminder u r rows =
     (case hhMmSsToTime (rdtTimeLocal r) of Inl e \<Rightarrow> Inl e | Inr t \<Rightarrow>
     (case channelFromJson (rdtChannel r) of Inl e \<Rightarrow> Inl e | Inr ch \<Rightarrow>
     (case toDate (of_int (rdtUpdatedAt r)) of Inl e \<Rightarrow> Inl e | Inr upd \<Rightarrow>
        Inr (case tbl_get nrId (rdtId r) rows of
               None \<Rightarrow> rows @ [\<lparr>nrId = rdtId r, nrUser = u, nrTimeLocal = t, nrDaysOfWeek = rdtDaysOfWeek r,
                 nrChannel = ch, nrEnabled = rdtEnabled r, nrSortOrder = rdtSortOrder r, nrUpdatedAt = upd\<rparr>]
             | Some x \<Rightarrow> tbl_put nrId (x\<lparr>nrTimeLocal := t, nrDaysOfWeek := rdtDaysOfWeek r, nrChannel := ch,
                 nrEnabled := rdtEnabled r, nrSortOrder := rdtSortOrder r, nrUpdatedAt := upd\<rparr>) rows))))"

fun upsertReminders :: "host \<Rightarrow> id \<Rightarrow> id \<Rightarrow> reminder_row list \<Rightarrow> reminder_dto list \<Rightarrow> reminder_row list
    \<Rightarrow> apply_error + reminder_row list" where
  "upsertReminders H u dev existing [] rows = Inr rows"
| "upsertReminders H u dev existing (r # rs) rows =
     (if \<not> shouldApplySettingsLww H (map_option nrUpdatedAt (tbl_get nrId (rdtId r) existing)) None (rdtUpdatedAt r) dev
      then upsertReminders H u dev existing rs rows
      else (case upsertReminder u r rows of
              Inl e \<Rightarrow> Inl e
            | Inr rows1 \<Rightarrow> upsertReminders H u dev existing rs rows1))"

definition remindersOf :: "id \<Rightarrow> account_db \<Rightarrow> reminder_row list" where
  "remindersOf u d = filter (\<lambda>r. nrUser r = u) (adReminders d)"

definition replaceUserReminders :: "host \<Rightarrow> id \<Rightarrow> id \<Rightarrow> reminder_dto list \<Rightarrow> account_db \<Rightarrow> apply_error + account_db" where
  "replaceUserReminders H u dev rs d =
     (let existing = remindersOf u d;
          toDelete = filter (\<lambda>i. i \<notin> rdtId ` set rs) (map nrId existing)
      in case upsertReminders H u dev existing rs (adReminders d) of
           Inl e \<Rightarrow> Inl e
         | Inr rows \<Rightarrow> Inr (d\<lparr>adReminders := filter (\<lambda>r. \<not> (nrUser r = u \<and> nrId r \<in> set toDelete)) rows\<rparr>))"

definition updateNotificationRow :: "notifications_patch \<Rightarrow> notification_row \<Rightarrow> apply_error + notification_row" where
  "updateNotificationRow p existing =
     (case toDate (of_int (npUpdatedAt p)) of
        Inl e \<Rightarrow> Inl e
      | Inr upd \<Rightarrow> Inr (existing\<lparr>unEnabled := (case npEnabled p of None \<Rightarrow> unEnabled existing | Some b \<Rightarrow> b),
          unTimezone := (case npTimezone p of None \<Rightarrow> unTimezone existing | Some z \<Rightarrow> z),
          unUpdatedAt := upd, unDevice := Some (npDevice p)\<rparr>))"

text \<open>The transaction of a notification patch: the section row, then the reminders.\<close>

definition notificationTx :: "host \<Rightarrow> id \<Rightarrow> notifications_patch \<Rightarrow> bool \<Rightarrow> notification_row \<Rightarrow> account_db
    \<Rightarrow> apply_error + account_db" where
  "notificationTx H u p applyMaster existing d =
     (case (if applyMaster
            then (case updateNotificationRow p existing of Inl e \<Rightarrow> Inl e
                  | Inr row \<Rightarrow> Inr (d\<lparr>adNotifications := tbl_put unUser row (adNotifications d)\<rparr>))
            else Inr d) of
        Inl e \<Rightarrow> Inl e
      | Inr d1 \<Rightarrow> (case npReminders p of None \<Rightarrow> Inr d1 | Some rs \<Rightarrow> replaceUserReminders H u (npDevice p) rs d1))"

definition patchNotifications :: "host \<Rightarrow> account_env \<Rightarrow> id \<Rightarrow> notifications_patch \<Rightarrow> account_db
    \<Rightarrow> (apply_error + notifications_dto) \<times> account_db" where
  "patchNotifications H env u p d =
     (case ensureUserSettings env u d of
        Inl e \<Rightarrow> (Inl e, d)
      | Inr d1 \<Rightarrow>
          (case tbl_get unUser u (adNotifications d1) of
             None \<Rightarrow> (Inl (OtherErr ''P2025''), d1)
           | Some existing \<Rightarrow>
               (case (if (case npEnabled p of None \<Rightarrow> unEnabled existing | Some b \<Rightarrow> b)
                      then assertPlan env u PRO d1 else (None, d1)) of
                  (Some e, d2) \<Rightarrow> (Inl e, d2)
                | (None, d2) \<Rightarrow>
                    (let applyMaster = shouldApplySettingsLww H (Some (unUpdatedAt existing)) (unDevice existing)
                           (npUpdatedAt p) (npDevice p)
                     in case notificationTx H u p applyMaster existing d2 of
                          Inl e \<Rightarrow> (Inl e, d2)
                        | Inr d3 \<Rightarrow>
                            (case tbl_get unUser u (adNotifications d3) of
                               None \<Rightarrow> (Inl (OtherErr ''P2025''), d3)
                             | Some row \<Rightarrow> (Inr (notificationsToDto H row (remindersOf u d3) (Some applyMaster)), d3))))))"

definition replaceReminders :: "host \<Rightarrow> account_env \<Rightarrow> id \<Rightarrow> reminder_dto list \<Rightarrow> ms \<Rightarrow> id \<Rightarrow> account_db
    \<Rightarrow> (apply_error + notifications_dto) \<times> account_db" where
  "replaceReminders H env u rs upd dev d =
     patchNotifications H env u \<lparr>npEnabled = None, npTimezone = None, npReminders = Some rs,
       npUpdatedAt = upd, npDevice = dev\<rparr> d"

section \<open>The handlers (settings.handler.ts)\<close>

text \<open>A body that does not fit its schema is refused before anything is read.\<close>

definition withBody :: "(jsv \<Rightarrow> 'b option) \<Rightarrow> jsv \<Rightarrow> ('b \<Rightarrow> 's \<Rightarrow> (apply_error + 'r) \<times> 's) \<Rightarrow> 's
    \<Rightarrow> (apply_error + 'r) \<times> 's" where
  "withBody schema body f s =
     (case schema body of None \<Rightarrow> (Inl (BadRequest ''Invalid request body'' ''VALIDATION_ERROR''), s) | Some b \<Rightarrow> f b s)"

definition patchPreferencesHandler :: "host \<Rightarrow> account_env \<Rightarrow> id \<Rightarrow> jsv \<Rightarrow> account_db
    \<Rightarrow> (apply_error + preferences_dto) \<times> account_db" where
  "patchPreferencesHandler H env u body = withBody (patchPreferencesSchema H) body (patchPreferences H env u)"

definition patchLearningHandler :: "host \<Rightarrow> account_env \<Rightarrow> id \<Rightarrow> jsv \<Rightarrow> account_db
    \<Rightarrow> (apply_error + learning_dto) \<times> account_db" where
  "patchLearningHandler H env u body = withBody (patchLearningSchema H) body (patchLearning H env u)"

definition patchNotificationsHandler :: "host \<Rightarrow> account_env \<Rightarrow> id \<Rightarrow> jsv \<Rightarrow> account_db
    \<Rightarrow> (apply_error + notifications_dto) \<times> account_db" where
  "patchNotificationsHandler H env u body = withBody (patchNotificationsSchema H) body (patchNotifications H env u)"

definition putRemindersHandler :: "host \<Rightarrow> account_env \<Rightarrow> id \<Rightarrow> jsv \<Rightarrow> account_db
    \<Rightarrow> (apply_error + notifications_dto) \<times> account_db" where
  "putRemindersHandler H env u body = withBody (putRemindersSchema H) body
     (\<lambda>(rs, upd, dev). replaceReminders H env u rs upd dev)"

section \<open>Preferences as a register\<close>

type_synonym preferences_value = "theme \<times> string \<times> string \<times> id option"

definition preferencesAcc :: "host \<Rightarrow> (ms \<times> preferences_value) option \<Rightarrow> ms \<times> preferences_value \<Rightarrow> bool" where
  "preferencesAcc H cur w =
     (case w of (t, _, _, _, dev) \<Rightarrow>
        shouldApplySettingsLww H (map_option fst cur) (case cur of None \<Rightarrow> None | Some (_, _, _, _, d) \<Rightarrow> d) t
          (case dev of None \<Rightarrow> '''' | Some d \<Rightarrow> d))"

interpretation settings_lww: lww_register "preferencesAcc H" for H
  by unfold_locales (auto simp: preferencesAcc_def shouldApplySettingsLww_def split: prod.splits)

definition preferencesState :: "id \<Rightarrow> account_db \<Rightarrow> (ms \<times> preferences_value) option" where
  "preferencesState u d = map_option (\<lambda>r. (upUpdatedAt r, upTheme r, upLanguage r, upTimezone r, upDevice r))
     (tbl_get upUser u (adPreferences d))"

text \<open>A patch that names every preference, with a time the database can store.\<close>

definition fullPatch :: "preferences_patch \<Rightarrow> bool" where
  "fullPatch p \<longleftrightarrow> (\<exists>t. ppTheme p = Some (themeToJson t)) \<and> ppLanguage p \<noteq> None \<and> ppTimezone p \<noteq> None
     \<and> isValidDate (of_int (ppUpdatedAt p))"

definition patchWrite :: "preferences_patch \<Rightarrow> ms \<times> preferences_value" where
  "patchWrite p = (ppUpdatedAt p, (case themeFromJson (the (ppTheme p)) of Inl _ \<Rightarrow> SYSTEM | Inr t \<Rightarrow> t),
     the (ppLanguage p), the (ppTimezone p), Some (ppDevice p))"

lemma themeFromJson_toJson [simp]: "themeFromJson (themeToJson t) = Inr t"
  by (cases t) (simp_all add: themeFromJson_def)

definition settled_account :: "id \<Rightarrow> account_db \<Rightarrow> bool" where
  "settled_account u d \<longleftrightarrow> tbl_get auId u (adUsers d) \<noteq> None \<and> tbl_get upUser u (adPreferences d) \<noteq> None"

lemma patch_preferences_refines:
  assumes "settled_account u d" "fullPatch p"
  shows "settled_account u (snd (patchPreferences H env u p d))
    \<and> preferencesState u (snd (patchPreferences H env u p d))
      = reg_step (preferencesAcc H) (patchWrite p) (preferencesState u d)"
proof -
  obtain row where row: "tbl_get upUser u (adPreferences d) = Some row" "upUser row = u"
    using assms(1) tbl_get_key unfolding settled_account_def by fastforce
  obtain t where t: "ppTheme p = Some (themeToJson t)" using assms(2) by (auto simp: fullPatch_def)
  obtain l z where lz: "ppLanguage p = Some l" "ppTimezone p = Some z" using assms(2) by (auto simp: fullPatch_def)
  have "toDate (of_int (ppUpdatedAt p)) = Inr (ppUpdatedAt p)" using assms(2) by (simp add: toDate_def fullPatch_def)
  then show ?thesis
    using assms(1) row t lz
    by (auto simp: patchPreferences_def ensureUserSettings_def createMissing_def settled_account_def
        preferencesState_def reg_step_def preferencesAcc_def patchWrite_def Let_def tbl_get_put)
qed

definition runPatches :: "host \<Rightarrow> id \<Rightarrow> (account_env \<times> preferences_patch) list \<Rightarrow> account_db \<Rightarrow> account_db" where
  "runPatches H u ps d = fold (\<lambda>(env, p) d. snd (patchPreferences H env u p d)) ps d"

lemma patch_run:
  assumes "settled_account u d" "\<And>p. p \<in> set ps \<Longrightarrow> fullPatch (snd p)"
  shows "preferencesState u (runPatches H u ps d)
    = reg_run (preferencesAcc H) (map (patchWrite \<circ> snd) ps) (preferencesState u d)"
  using assms
proof (induction ps arbitrary: d)
  case (Cons p ps)
  have "fullPatch (snd p)" by (rule Cons.prems(2)) simp
  note one = patch_preferences_refines [OF Cons.prems(1) this, of H "fst p"]
  with Cons.IH [of "snd (patchPreferences H (fst p) u (snd p) d)"] Cons.prems(2) show ?case
    by (simp add: runPatches_def case_prod_beta)
qed (simp add: runPatches_def)

text \<open>
  C30. The preferences of an account converge. If devices patch all preferences at distinct times
  that differ from the stored one, the row that remains is the same whatever order the server
  receives the patches in, and it is the newest of what was stored and what was sent.
\<close>

theorem preferences_converge:
  assumes "settled_account u d" "set ps = set qs" "\<And>p. p \<in> set ps \<Longrightarrow> fullPatch (snd p)"
    and "inj_on (ppUpdatedAt \<circ> snd) (set ps)"
    and "preferencesState u d = Some c" "fst c \<notin> (ppUpdatedAt \<circ> snd) ` set ps"
  shows "preferencesState u (runPatches H u ps d) = preferencesState u (runPatches H u qs d)
    \<and> (\<exists>w. preferencesState u (runPatches H u ps d) = Some w \<and> w \<in> insert c ((patchWrite \<circ> snd) ` set ps)
         \<and> (\<forall>v \<in> insert c ((patchWrite \<circ> snd) ` set ps). fst v \<le> fst w))"
proof -
  let ?ws = "\<lambda>ps. c # map (patchWrite \<circ> snd) ps"
  have run: "preferencesState u (runPatches H u rs d) = reg_run (preferencesAcc H) (?ws rs) None"
    if "set rs = set ps" for rs
    using patch_run [OF assms(1), of rs H] that assms(3,5)
    by (simp only: settings_lww.run_from)
  have "inj_on (fst \<circ> (patchWrite \<circ> snd)) (set ps)"
    using assms(4) by (simp add: inj_on_def patchWrite_def)
  then have "inj_on fst ((patchWrite \<circ> snd) ` set ps)" by (rule inj_on_imageI)
  moreover have "fst c \<notin> fst ` ((patchWrite \<circ> snd) ` set ps)"
    using assms(6) by (simp add: image_image patchWrite_def)
  ultimately have "inj_on fst (set (?ws ps))" by (simp, blast)
  then have "reg_run (preferencesAcc H) (?ws ps) None = reg_run (preferencesAcc H) (?ws qs) None"
    by (intro settings_lww.run_order_independent) (simp_all add: assms(2) [symmetric])
  moreover obtain w where w: "reg_run (preferencesAcc H) (?ws ps) None = Some w"
    using settings_lww.run_some by blast
  note settings_lww.run_newest [OF w]
  ultimately show ?thesis using run [OF refl] run [of qs] assms(2) w by auto
qed

section \<open>Replacing reminders\<close>

text \<open>The row an accepted reminder leaves: its fields, and the owner the row already had.\<close>

definition reminderWrite :: "id \<Rightarrow> reminder_dto \<Rightarrow> reminder_row option \<Rightarrow> reminder_row" where
  "reminderWrite u r old = \<lparr>nrId = rdtId r, nrUser = (case old of None \<Rightarrow> u | Some x \<Rightarrow> nrUser x),
     nrTimeLocal = projr (hhMmSsToTime (rdtTimeLocal r)), nrDaysOfWeek = rdtDaysOfWeek r,
     nrChannel = projr (channelFromJson (rdtChannel r)), nrEnabled = rdtEnabled r,
     nrSortOrder = rdtSortOrder r, nrUpdatedAt = rdtUpdatedAt r\<rparr>"

lemma upsertReminder_get:
  assumes "upsertReminder u r rows = Inr rows'" "tbl_ok nrId rows"
  shows "tbl_get nrId k rows' = (if k = rdtId r then Some (reminderWrite u r (tbl_get nrId k rows)) else tbl_get nrId k rows)"
    "tbl_ok nrId rows'"
proof -
  obtain t ch upd where ok: "hhMmSsToTime (rdtTimeLocal r) = Inr t" "channelFromJson (rdtChannel r) = Inr ch"
      "toDate (of_int (rdtUpdatedAt r)) = Inr upd"
    using assms(1) by (auto simp: upsertReminder_def split: sum.splits)
  have upd: "upd = rdtUpdatedAt r" using ok(3) by (simp add: toDate_def split: if_splits)
  show "tbl_get nrId k rows' = (if k = rdtId r then Some (reminderWrite u r (tbl_get nrId k rows)) else tbl_get nrId k rows)"
    using assms(1) ok
    by (auto simp: upsertReminder_def upd reminderWrite_def account_facts tbl_get_put split: option.splits dest: tbl_get_key)
  have "tbl_get nrId (rdtId r) rows = None \<Longrightarrow> rdtId r \<notin> nrId ` set rows" by (simp add: tbl_get_None)
  then show "tbl_ok nrId rows'"
    using assms ok by (auto simp: upsertReminder_def tbl_ok_put split: option.splits)
qed

definition reminderAccepted :: "host \<Rightarrow> id \<Rightarrow> reminder_row option \<Rightarrow> reminder_dto \<Rightarrow> bool" where
  "reminderAccepted H dev own r \<longleftrightarrow> shouldApplySettingsLww H (map_option nrUpdatedAt own) None (rdtUpdatedAt r) dev"

lemma upsertReminders_get:
  "upsertReminders H u dev existing rs rows = Inr rows' \<Longrightarrow> distinct (map rdtId rs) \<Longrightarrow> tbl_ok nrId rows \<Longrightarrow>
   tbl_ok nrId rows' \<and> tbl_get nrId k rows' = (case tbl_get rdtId k rs of
       None \<Rightarrow> tbl_get nrId k rows
     | Some r \<Rightarrow> if reminderAccepted H dev (tbl_get nrId k existing) r
                then Some (reminderWrite u r (tbl_get nrId k rows)) else tbl_get nrId k rows)"
proof (induction rs arbitrary: rows)
  case (Cons r rs)
  have out: "tbl_get rdtId (rdtId r) rs = None" using Cons.prems(2) by (simp add: tbl_get_None)
  show ?case
  proof (cases "reminderAccepted H dev (tbl_get nrId (rdtId r) existing) r")
    case True
    then obtain rows1 where one: "upsertReminder u r rows = Inr rows1"
        "upsertReminders H u dev existing rs rows1 = Inr rows'"
      using Cons.prems(1) by (auto simp: reminderAccepted_def split: sum.splits)
    note get = upsertReminder_get [OF one(1) Cons.prems(3)]
    from Cons.IH [OF one(2)] Cons.prems(2) get(2) have
      "tbl_ok nrId rows' \<and> tbl_get nrId k rows' = (case tbl_get rdtId k rs of
         None \<Rightarrow> tbl_get nrId k rows1
       | Some r \<Rightarrow> if reminderAccepted H dev (tbl_get nrId k existing) r
                then Some (reminderWrite u r (tbl_get nrId k rows1)) else tbl_get nrId k rows1)" by simp
    then show ?thesis using out True get(1) by (auto split: option.splits)
  next
    case False
    with Cons show ?thesis using out by (auto simp: reminderAccepted_def split: option.splits)
  qed
qed simp

lemma replaceUserReminders_get:
  assumes "replaceUserReminders H u dev rs d = Inr d'" "distinct (map rdtId rs)" "tbl_ok nrId (adReminders d)"
  shows "tbl_get nrId k (adReminders d') = (case tbl_get rdtId k rs of
       None \<Rightarrow> (case tbl_get nrId k (adReminders d) of None \<Rightarrow> None | Some x \<Rightarrow> if nrUser x = u then None else Some x)
     | Some r \<Rightarrow> if reminderAccepted H dev (case tbl_get nrId k (adReminders d) of None \<Rightarrow> None | Some x \<Rightarrow> if nrUser x = u then Some x else None) r
                then Some (reminderWrite u r (tbl_get nrId k (adReminders d))) else tbl_get nrId k (adReminders d))"
proof -
  let ?old = "tbl_get nrId k (adReminders d)"
  let ?ex = "remindersOf u d" and ?del = "filter (\<lambda>i. i \<notin> rdtId ` set rs) (map nrId (remindersOf u d))"
  obtain rows where rows: "upsertReminders H u dev ?ex rs (adReminders d) = Inr rows"
    and d': "d' = d\<lparr>adReminders := filter (\<lambda>r. \<not> (nrUser r = u \<and> nrId r \<in> set ?del)) rows\<rparr>"
    using assms(1) by (auto simp: replaceUserReminders_def Let_def split: sum.splits)
  have get: "tbl_ok nrId rows \<and> tbl_get nrId k rows = (case tbl_get rdtId k rs of
       None \<Rightarrow> ?old
     | Some r \<Rightarrow> if reminderAccepted H dev (tbl_get nrId k ?ex) r then Some (reminderWrite u r ?old) else ?old)"
    using upsertReminders_get [OF rows assms(2,3)] by blast
  have own: "tbl_get nrId k ?ex = (case ?old of None \<Rightarrow> None | Some x \<Rightarrow> if nrUser x = u then Some x else None)"
    using assms(3) by (simp add: remindersOf_def tbl_get_filter)
  have del: "k \<in> set ?del \<longleftrightarrow> tbl_get rdtId k rs = None \<and> (\<exists>x. ?old = Some x \<and> nrUser x = u)"
    using assms(3) tbl_get_iff [of nrId "adReminders d" k]
    by (auto simp: tbl_get_None remindersOf_def)
  define D where "D = set ?del"
  have "tbl_get nrId k (adReminders d') = (case tbl_get nrId k rows of None \<Rightarrow> None
      | Some x \<Rightarrow> if nrUser x = u \<and> k \<in> D then None else Some x)"
    unfolding d' D_def [symmetric]
    using conjunct1 [OF get] by (cases "tbl_get nrId k rows") (auto simp: tbl_get_filter dest: tbl_get_key)
  then show ?thesis using get own del [folded D_def] by (auto split: option.splits)
qed

text \<open>
  C31. A notification patch that carries reminders replaces the user's reminders: one the request
  does not name is gone, whatever the time of the request; one it names takes the request's
  fields if it is new or the request's time wins, and is unchanged otherwise. A reminder of
  another user is unchanged unless the request names its id; then it takes the fields and stays
  that user's.
\<close>

theorem reminders_replaced:
  assumes "patchNotifications H env u p d = (Inr dto, d')" "npReminders p = Some rs"
    and "distinct (map rdtId rs)" "tbl_ok nrId (adReminders d)"
  shows "tbl_get nrId k (adReminders d') =
    (case (tbl_get rdtId k rs, tbl_get nrId k (adReminders d)) of
       (None, None) \<Rightarrow> None
     | (None, Some x) \<Rightarrow> if nrUser x = u then None else Some x
     | (Some r, None) \<Rightarrow> Some (reminderWrite u r None)
     | (Some r, Some x) \<Rightarrow>
         if nrUser x \<noteq> u \<or> reminderAccepted H (npDevice p) (Some x) r then Some (reminderWrite u r (Some x)) else Some x)"
proof -
  obtain d1 where d1: "ensureUserSettings env u d = Inr d1"
    using assms(1) by (auto simp: patchNotifications_def split: sum.splits)
  have r1: "adReminders d1 = adReminders d" using d1 by (auto simp: ensureUserSettings_def split: if_splits)
  have asserted: "adReminders (snd (assertPlan env u PRO d1)) = adReminders d1"
    by (auto simp: assertPlan_def getSubscription_def ensureUserSettings_def split: sum.splits option.splits if_splits)
  obtain m existing d2 where d2: "notificationTx H u p m existing d2 = Inr d'" "adReminders d2 = adReminders d"
    using assms(1) d1 r1 asserted
    by (auto simp: patchNotifications_def Let_def split: option.splits sum.splits prod.splits if_splits)
  then obtain d3 where d3: "replaceUserReminders H u (npDevice p) rs d3 = Inr d'" "adReminders d3 = adReminders d"
    using assms(2) by (auto simp: notificationTx_def split: sum.splits if_splits)
  have none: "reminderAccepted H (npDevice p) None r" for r
    by (simp add: reminderAccepted_def shouldApplySettingsLww_def)
  show ?thesis
    using replaceUserReminders_get [OF d3(1) assms(3), of k] assms(4) none
    by (auto simp: d3(2) split: option.splits)
qed

section \<open>Samples\<close>

definition plain_account_env :: account_env where
  "plain_account_env = \<lparr>aeNow = 5000, aeBetaOpenPro = False, aeLocalBilling = False, aeMonthlyVariant = ''1'',
     aeYearlyVariant = ''2'', aeStoreId = ''9'', aeTestMode = False, aeReturnUrl = ''back''\<rparr>"

definition two_users :: account_db where
  "two_users = \<lparr>adUsers = [\<lparr>auId = ''u'', auEmail = ''u@x'', auDisabledAt = None\<rparr>,
       \<lparr>auId = ''v'', auEmail = ''v@x'', auDisabledAt = None\<rparr>],
     adPreferences = [\<lparr>upUser = ''u'', upTheme = SYSTEM, upLanguage = ''en'', upTimezone = ''UTC'', upUpdatedAt = 0, upDevice = None\<rparr>],
     adLearning = [], adNotifications = [],
     adReminders = [\<lparr>nrId = ''r'', nrUser = ''v'', nrTimeLocal = 28800000, nrDaysOfWeek = 127, nrChannel = PUSH,
       nrEnabled = True, nrSortOrder = 0, nrUpdatedAt = 900\<rparr>],
     adSubscriptions = [], adEvents = [], adIntents = []\<rparr>"

definition dark_patch :: preferences_patch where
  "dark_patch = \<lparr>ppTheme = Some ''dark'', ppLanguage = Some ''fr'', ppTimezone = Some ''UTC'', ppUpdatedAt = 7, ppDevice = ''a''\<rparr>"

definition light_patch :: preferences_patch where
  "light_patch = \<lparr>ppTheme = Some ''light'', ppLanguage = Some ''de'', ppTimezone = Some ''UTC'', ppUpdatedAt = 9, ppDevice = ''b''\<rparr>"

lemma preferences_converge_witness:
  "preferencesState ''u'' (runPatches sample_host ''u'' [(plain_account_env, light_patch), (plain_account_env, dark_patch)] two_users)
     = Some (9, LIGHT, ''de'', ''UTC'', Some ''b'')
   \<and> preferencesState ''u'' (runPatches sample_host ''u'' [(plain_account_env, dark_patch), (plain_account_env, light_patch)] two_users)
     = Some (9, LIGHT, ''de'', ''UTC'', Some ''b'')"
proof -
  let ?ps = "[(plain_account_env, light_patch), (plain_account_env, dark_patch)]"
    and ?qs = "[(plain_account_env, dark_patch), (plain_account_env, light_patch)]"
  have full: "fullPatch (snd p)" if "p \<in> set ?ps" for p
    using that by (auto simp: fullPatch_def dark_patch_def light_patch_def isValidDate_def
        intro: exI [of _ DARK] exI [of _ LIGHT])
  have "preferencesState ''u'' (runPatches sample_host ''u'' ?ps two_users)
      = preferencesState ''u'' (runPatches sample_host ''u'' ?qs two_users)"
    by (rule conjunct1 [OF preferences_converge [where c = "(0, SYSTEM, ''en'', ''UTC'', None)"]])
       (use full in \<open>auto simp: settled_account_def two_users_def preferencesState_def dark_patch_def light_patch_def\<close>)
  moreover have "preferencesState ''u'' (runPatches sample_host ''u'' ?ps two_users) = Some (9, LIGHT, ''de'', ''UTC'', Some ''b'')"
    by code_simp
  ultimately show ?thesis by simp
qed

definition reminder_request :: notifications_patch where
  "reminder_request = \<lparr>npEnabled = None, npTimezone = None, npReminders = Some
     [\<lparr>rdtId = ''r'', rdtTimeLocal = ''21:30'', rdtDaysOfWeek = 0, rdtChannel = ''email'', rdtEnabled = False,
       rdtSortOrder = 3, rdtUpdatedAt = 5\<rparr>], npUpdatedAt = 5, npDevice = ''a''\<rparr>"

lemma reminders_replaced_witness:
  "\<exists>dto d'. patchNotifications sample_host plain_account_env ''u'' reminder_request two_users = (Inr dto, d')
     \<and> tbl_get nrId ''r'' (adReminders d') = Some \<lparr>nrId = ''r'', nrUser = ''v'', nrTimeLocal = 77400000,
          nrDaysOfWeek = 0, nrChannel = EMAIL, nrEnabled = False, nrSortOrder = 3, nrUpdatedAt = 5\<rparr>"
proof -
  have "case patchNotifications sample_host plain_account_env ''u'' reminder_request two_users of (Inr _, _) \<Rightarrow> True | _ \<Rightarrow> False"
    by code_simp
  then obtain dto d' where p: "patchNotifications sample_host plain_account_env ''u'' reminder_request two_users = (Inr dto, d')"
    by (auto split: prod.splits sum.splits)
  have w: "reminderWrite ''u'' (hd (the (npReminders reminder_request))) (Some (hd (adReminders two_users)))
      = \<lparr>nrId = ''r'', nrUser = ''v'', nrTimeLocal = 77400000,
          nrDaysOfWeek = 0, nrChannel = EMAIL, nrEnabled = False, nrSortOrder = 3, nrUpdatedAt = 5\<rparr>"
    by code_simp
  have "npReminders reminder_request = Some [hd (the (npReminders reminder_request))]"
    by (simp add: reminder_request_def)
  from reminders_replaced [OF p this, of "''r''"] w p show ?thesis
    by (auto simp: two_users_def reminder_request_def)
qed

end
