(* ===== verification/RateLimit.thy ===== *)
theory RateLimit
  imports ServerDb
begin

text \<open>
  shared/lib/redis.ts: counters with a fixed window, cooldowns and the leader lock, all in Redis.
  \<open>limiter\<close> is what Redis holds for them: a count with the time it expires, or a flag. A key
  that has expired is as if it were not there. When Redis cannot be reached the limits refuse
  and the lock is not taken.
\<close>

record limiter =
  liOpen :: bool
  liCounts :: "(string \<times> nat \<times> ms) list"
  liFlags :: "(string \<times> ms) list"

abbreviation TooManyRequests :: "string \<Rightarrow> apply_error" where
  "TooManyRequests message \<equiv> AppErr 429 ''RATE_LIMITED'' message"

definition UNAVAILABLE :: apply_error where
  "UNAVAILABLE = TooManyRequests ''Service temporarily unavailable. Please try again later.''"

definition liveCount :: "string \<Rightarrow> ms \<Rightarrow> limiter \<Rightarrow> (nat \<times> ms) option" where
  "liveCount key now l = (case tbl_get fst key (liCounts l) of
     None \<Rightarrow> None | Some (_, n, e) \<Rightarrow> if now < e then Some (n, e) else None)"

text \<open>The script: \<open>INCR\<close>, and \<open>EXPIRE\<close> when the count is one.\<close>

definition incrWindow :: "string \<Rightarrow> nat \<Rightarrow> ms \<Rightarrow> limiter \<Rightarrow> nat \<times> limiter" where
  "incrWindow key windowSeconds now l =
     (case liveCount key now l of
        None \<Rightarrow> (1, l\<lparr>liCounts := tbl_put fst (key, 1, now + int windowSeconds * 1000) (liCounts l)\<rparr>)
      | Some (n, e) \<Rightarrow> (Suc n, l\<lparr>liCounts := tbl_put fst (key, Suc n, e) (liCounts l)\<rparr>))"

definition enforceRateLimit :: "string \<Rightarrow> nat \<Rightarrow> nat \<Rightarrow> string \<Rightarrow> ms \<Rightarrow> limiter \<Rightarrow> apply_error option \<times> limiter" where
  "enforceRateLimit key limit windowSeconds message now l =
     (if \<not> liOpen l then (Some UNAVAILABLE, l)
      else case incrWindow key windowSeconds now l of
        (n, l1) \<Rightarrow> (if n > limit then Some (TooManyRequests message) else None, l1))"

definition setNx :: "string \<Rightarrow> nat \<Rightarrow> ms \<Rightarrow> limiter \<Rightarrow> bool \<times> limiter" where
  "setNx key seconds now l =
     (case tbl_get fst key (liFlags l) of
        Some (_, e) \<Rightarrow> if now < e then (False, l)
          else (True, l\<lparr>liFlags := tbl_put fst (key, now + int seconds * 1000) (liFlags l)\<rparr>)
      | None \<Rightarrow> (True, l\<lparr>liFlags := tbl_put fst (key, now + int seconds * 1000) (liFlags l)\<rparr>))"

definition enforceCooldown :: "string \<Rightarrow> nat \<Rightarrow> string \<Rightarrow> ms \<Rightarrow> limiter \<Rightarrow> apply_error option \<times> limiter" where
  "enforceCooldown key seconds message now l =
     (if \<not> liOpen l then (Some UNAVAILABLE, l)
      else case setNx key seconds now l of
        (ok, l1) \<Rightarrow> (if ok then None else Some (TooManyRequests message), l1))"

definition tryAcquireLeaderLock :: "string \<Rightarrow> nat \<Rightarrow> ms \<Rightarrow> limiter \<Rightarrow> bool \<times> limiter" where
  "tryAcquireLeaderLock key ttlSeconds now l = (if \<not> liOpen l then (False, l) else setNx key ttlSeconds now l)"

definition DEFAULT_LIMIT_MESSAGE :: string where
  "DEFAULT_LIMIT_MESSAGE = ''Too many requests. Please try again later.''"

text \<open>push-rate-limit.ts: one budget per user for HTTP and socket pushes.\<close>

definition enforcePushRateLimit :: "id \<Rightarrow> ms \<Rightarrow> limiter \<Rightarrow> apply_error option \<times> limiter" where
  "enforcePushRateLimit userId now l =
     enforceRateLimit (''sync:push:'' @ userId) 500 60 ''Sync rate limit exceeded'' now l"

section \<open>What a window lets through\<close>

text \<open>Calls of one limit at the given times: how many pass.\<close>

fun passed :: "string \<Rightarrow> nat \<Rightarrow> nat \<Rightarrow> string \<Rightarrow> ms list \<Rightarrow> limiter \<Rightarrow> nat" where
  "passed key limit window message [] l = 0"
| "passed key limit window message (t # ts) l =
     (case enforceRateLimit key limit window message t l of
        (e, l1) \<Rightarrow> (if e = None then 1 else 0) + passed key limit window message ts l1)"

lemma live_incr:
  assumes "incrWindow key window now l = (n, l1)"
  shows "liveCount key t l1 = (case liveCount key now l of
      None \<Rightarrow> if t < now + int window * 1000 then Some (1, now + int window * 1000) else None
    | Some (m, e) \<Rightarrow> if t < e then Some (Suc m, e) else None)"
    "n = (case liveCount key now l of None \<Rightarrow> 1 | Some (m, e) \<Rightarrow> Suc m)" "liOpen l1 = liOpen l"
  using assms by (auto simp: incrWindow_def liveCount_def tbl_get_put split: option.splits prod.splits)

lemma passed_closed: "\<not> liOpen l \<Longrightarrow> passed key limit window message ts l = 0"
  by (induction ts) (simp_all add: enforceRateLimit_def)

text \<open>Within one window only what is left of its budget passes.\<close>

lemma passed_in_window:
  assumes "\<And>t. t \<in> set ts \<Longrightarrow> liveCount key t l = Some (n, e)"
  shows "passed key limit window message ts l \<le> limit - n"
  using assms
proof (induction ts arbitrary: l n)
  case (Cons t ts)
  have now: "liveCount key t l = Some (n, e)" by (rule Cons.prems) simp
  obtain m l1 where i: "incrWindow key window t l = (m, l1)" by fastforce
  note f = live_incr [OF i, unfolded now, simplified]
  have "liveCount key s l1 = Some (Suc n, e)" if "s \<in> set ts" for s
  proof -
    have "liveCount key s l = Some (n, e)" using Cons.prems that by simp
    then have "s < e" by (auto simp: liveCount_def split: option.splits if_splits)
    then show ?thesis using f(1) by simp
  qed
  from Cons.IH [OF this] have IH: "passed key limit window message ts l1 \<le> limit - Suc n" .
  show ?case
  proof (cases "liOpen l")
    case True
    with i IH f(2) show ?thesis by (auto simp: enforceRateLimit_def)
  qed (simp add: passed_closed del: passed.simps)
qed simp

lemma passed_two_windows:
  assumes "sorted ts" "\<And>t. t \<in> set ts \<Longrightarrow> a \<le> t \<and> t < a + int window * 1000"
  shows "passed key limit window message ts l
    \<le> (case ts of [] \<Rightarrow> 0 | t # _ \<Rightarrow> (case liveCount key t l of None \<Rightarrow> 0 | Some (n, e) \<Rightarrow> limit - n)) + limit"
  using assms
proof (induction ts arbitrary: l)
  case (Cons t ts)
  obtain m l1 where i: "incrWindow key window t l = (m, l1)" by fastforce
  note f = live_incr [OF i]
  show ?case
  proof (cases "liOpen l")
    case True
    note open' = this
    show ?thesis
    proof (cases "liveCount key t l")
      case None
      have "liveCount key s l1 = Some (1, t + int window * 1000)" if "s \<in> set ts" for s
        using f(1) [of s] None Cons.prems(2) [of s] Cons.prems(2) [of t] that by simp
      then have "passed key limit window message ts l1 \<le> limit - 1" by (rule passed_in_window)
      then show ?thesis using open' i f(2) None by (auto simp: enforceRateLimit_def)
    next
      case (Some ne)
      obtain n e where ne: "ne = (n, e)" by fastforce
      have IH: "passed key limit window message ts l1
          \<le> (case ts of [] \<Rightarrow> 0 | t # _ \<Rightarrow> (case liveCount key t l1 of None \<Rightarrow> 0 | Some (n, e) \<Rightarrow> limit - n)) + limit"
        using Cons by auto
      have "(case ts of [] \<Rightarrow> 0 | s # _ \<Rightarrow> (case liveCount key s l1 of None \<Rightarrow> 0 | Some (n, e) \<Rightarrow> limit - n))
          \<le> limit - Suc n"
        using f(1) Some ne by (auto split: list.splits)
      with IH show ?thesis using open' i f(2) Some ne by (auto simp: enforceRateLimit_def)
    qed
  qed (simp add: passed_closed del: passed.simps)
qed simp

text \<open>
  C32. A rate limit bounds what passes: of any calls on one key that fall within one window length
  of each other, whatever happened before, at most twice the limit passes (a window may end
  between them), and none while Redis is out of reach.
\<close>

theorem rate_limit_bound:
  assumes "sorted ts" "\<And>t. t \<in> set ts \<Longrightarrow> a \<le> t \<and> t < a + int window * 1000"
  shows "passed key limit window message ts l \<le> (if liOpen l then 2 * limit else 0)"
proof -
  have "(case ts of [] \<Rightarrow> 0 | t # _ \<Rightarrow> (case liveCount key t l of None \<Rightarrow> 0 | Some (n, e) \<Rightarrow> limit - n)) \<le> limit"
    by (auto split: list.splits option.splits)
  then show ?thesis
    using passed_two_windows [OF assms, of key limit message l] passed_closed [of l] by auto
qed

lemma rate_limit_bound_witness:
  "let l = \<lparr>liOpen = True, liCounts = [(''k'', 0, 10)], liFlags = []\<rparr>
   in passed ''k'' 2 60 ''no'' [3, 4, 11, 12, 13] l \<le> 4 \<and> passed ''k'' 2 60 ''no'' [3, 4, 11, 12, 13] l = 4"
proof -
  let ?l = "\<lparr>liOpen = True, liCounts = [(''k'', 0, 10)], liFlags = []\<rparr>"
  have "passed ''k'' 2 60 ''no'' [3, 4, 11, 12, 13] ?l \<le> (if liOpen ?l then 2 * 2 else 0)"
    by (rule rate_limit_bound [where a = 0]) auto
  moreover have "passed ''k'' 2 60 ''no'' [3, 4, 11, 12, 13] ?l = 4" by code_simp
  ultimately show ?thesis by simp
qed

end
