(* ===== verification/Billing.thy ===== *)
theory Billing
  imports SettingsService RateLimit
begin

text \<open>
  settings/billing/billing.service.ts: checkout, the webhook of the billing provider and the
  reconciliation of subscriptions that were not verified for a day.

  \<open>lemon\<close> is what is not under src/ or belongs to the runtime: the provider's API
  (lemon-squeezy.ts only shapes its requests), the keyed hash of the webhook, \<open>Date\<close>'s reading
  of a text and \<open>String\<close> of a number. \<open>billing\<close> is the state: the account tables, the limits,
  and the subscriptions the provider was told to cancel.
\<close>

section \<open>Provider data\<close>

record lemon_attributes =
  laStoreId :: rat
  laCustomerId :: rat
  laVariantId :: rat
  laStatus :: string
  laCancelled :: bool
  laTrialEndsAt :: "string option"
  laRenewsAt :: "string option"
  laEndsAt :: "string option"
  laCreatedAt :: string
  laUpdatedAt :: string
  laTestMode :: bool
  laPortal :: "string option"

record lemon =
  lmRetrieve :: "string \<Rightarrow> apply_error + string \<times> lemon_attributes"
  lmCancel :: "string \<Rightarrow> apply_error option"
  lmCheckout :: "id \<Rightarrow> string \<Rightarrow> string \<Rightarrow> ms \<Rightarrow> apply_error + string \<times> string"
  lmHmacHex :: "string \<Rightarrow> string"
  lmSecretSet :: bool
  lmParseDate :: "string \<Rightarrow> ms option"
  lmNumText :: "rat \<Rightarrow> string"

record billing =
  blDb :: account_db
  blLimits :: limiter
  blCanceled :: "string list"

definition STATUS_MAP :: "string \<Rightarrow> subscription_status option" where
  "STATUS_MAP s =
     (if s = ''active'' then Some ACTIVE else if s = ''on_trial'' then Some TRIALING
      else if s = ''past_due'' then Some PAST_DUE else if s = ''cancelled'' then Some CANCELED
      else if s = ''expired'' then Some EXPIRED else if s = ''paused'' then Some PAUSED
      else if s = ''unpaid'' then Some UNPAID else None)"

definition PAYMENT_EVENTS :: "string set" where
  "PAYMENT_EVENTS = {''subscription_payment_failed'', ''subscription_payment_success'',
     ''subscription_payment_recovered'', ''subscription_payment_refunded''}"

definition SUBSCRIPTION_EVENTS :: "string set" where
  "SUBSCRIPTION_EVENTS = {''subscription_created'', ''subscription_updated'', ''subscription_cancelled'',
     ''subscription_resumed'', ''subscription_expired'', ''subscription_paused'', ''subscription_unpaused''}"

definition SUBSCRIPTION_STALE_MS :: int where "SUBSCRIPTION_STALE_MS = 24 * 60 * 60 * 1000"
definition CHECKOUT_TTL_MS :: int where "CHECKOUT_TTL_MS = 60 * 60 * 1000"
definition MS_DAY :: int where "MS_DAY = 24 * 60 * 60 * 1000"

definition variantPlan :: "account_env \<Rightarrow> lemon \<Rightarrow> rat \<Rightarrow> plan_tier option" where
  "variantPlan env L variantId =
     (let i = lmNumText L variantId
      in if i = aeMonthlyVariant env \<or> i = aeYearlyVariant env then Some PRO else None)"

text \<open>A \<open>Date\<close> may be invalid (\<open>None\<close>); \<open>date\<close> makes none of an empty text.\<close>

definition dateOf :: "lemon \<Rightarrow> string option \<Rightarrow> ms option option" where
  "dateOf L v = (case v of None \<Rightarrow> None | Some s \<Rightarrow> if s = '''' then None else Some (lmParseDate L s))"

text \<open>A date as the entitlement check sees it: an invalid one never lies ahead.\<close>

definition endsFor :: "ms option option \<Rightarrow> ms option" where
  "endsFor v = (case v of None \<Rightarrow> None | Some t \<Rightarrow> t)"

text \<open>Prisma refuses an invalid date.\<close>

definition storeDate :: "ms option option \<Rightarrow> apply_error + ms option" where
  "storeDate v = (case v of None \<Rightarrow> Inr None | Some None \<Rightarrow> Inl (OtherErr ''Invalid Date'') | Some (Some t) \<Rightarrow> Inr (Some t))"

section \<open>Applying a subscription\<close>

definition isOlderSubscription :: "host \<Rightarrow> lemon \<Rightarrow> string \<times> string \<Rightarrow> string \<times> string \<Rightarrow> bool" where
  "isOlderSubscription H L left right =
     (case (lmParseDate L (snd left), lmParseDate L (snd right)) of
        (Some a, Some b) \<Rightarrow> a < b \<or> a = b \<and> localeCompare H (fst left) (fst right) < 0
      | _ \<Rightarrow> False)"

text \<open>Which of two subscriptions stays; the other one is cancelled at the provider.\<close>

definition resolveDuplicate :: "host \<Rightarrow> lemon \<Rightarrow> string \<Rightarrow> string \<Rightarrow> lemon_attributes \<Rightarrow> billing
    \<Rightarrow> (apply_error + bool) \<times> billing" where
  "resolveDuplicate H L existingId incomingId incoming b =
     (case lmRetrieve L existingId of
        Inl e \<Rightarrow> (Inl e, b)
      | Inr (remoteId, remote) \<Rightarrow>
          (let keepIncoming = isOlderSubscription H L (incomingId, laCreatedAt incoming) (remoteId, laCreatedAt remote);
               duplicateId = (if keepIncoming then existingId else incomingId)
           in case lmCancel L duplicateId of
                Some e \<Rightarrow> (Inl e, b)
              | None \<Rightarrow> (Inr keepIncoming, b\<lparr>blCanceled := blCanceled b @ [duplicateId]\<rparr>)))"

definition putSubscription :: "subscription_row \<Rightarrow> billing \<Rightarrow> apply_error option \<times> billing" where
  "putSubscription row b =
     (let d = blDb b in
      if suSubscriptionId row \<noteq> None \<and> list_ex (\<lambda>s. suUser s \<noteq> suUser row \<and> suProvider s = suProvider row
           \<and> suSubscriptionId s = suSubscriptionId row) (adSubscriptions d)
      then (Some (OtherErr ''P2002''), b)
      else (None, b\<lparr>blDb := d\<lparr>adSubscriptions := tbl_put suUser row (adSubscriptions d)\<rparr>\<rparr>))"

definition subscriptionFrom :: "account_env \<Rightarrow> lemon \<Rightarrow> plan_tier \<Rightarrow> subscription_status \<Rightarrow> string \<Rightarrow> lemon_attributes
    \<Rightarrow> subscription_row \<Rightarrow> apply_error + subscription_row" where
  "subscriptionFrom env L plan status subscriptionId a current =
     (case storeDate (Some (lmParseDate L (laUpdatedAt a))) of Inl e \<Rightarrow> Inl e | Inr upd \<Rightarrow>
     (case storeDate (dateOf L (laRenewsAt a)) of Inl e \<Rightarrow> Inl e | Inr renews \<Rightarrow>
     (case storeDate (dateOf L (laEndsAt a)) of Inl e \<Rightarrow> Inl e | Inr ends \<Rightarrow>
     (case storeDate (dateOf L (laTrialEndsAt a)) of Inl e \<Rightarrow> Inl e | Inr trial \<Rightarrow>
        Inr (current\<lparr>suPlan := plan, suStatus := status, suProvider := LEMON_SQUEEZY,
          suCustomerId := Some (lmNumText L (laCustomerId a)), suSubscriptionId := Some subscriptionId,
          suVariantId := Some (lmNumText L (laVariantId a)), suProviderUpdatedAt := upd,
          suLastVerifiedAt := Some (aeNow env), suPeriodEnd := renews, suEndsAt := ends, suTrialEndsAt := trial,
          suCancelAtPeriodEnd := laCancelled a,
          suCanceledAt := (if status = CANCELED then Some (aeNow env) else None),
          suServerUpdatedAt := aeNow env\<rparr>)))))"

definition writeSubscription :: "account_env \<Rightarrow> lemon \<Rightarrow> plan_tier \<Rightarrow> subscription_status \<Rightarrow> string \<Rightarrow> lemon_attributes
    \<Rightarrow> subscription_row \<Rightarrow> billing \<Rightarrow> apply_error option \<times> billing" where
  "writeSubscription env L plan status subscriptionId a current b =
     (case subscriptionFrom env L plan status subscriptionId a current of
        Inl e \<Rightarrow> (Some e, b)
      | Inr row \<Rightarrow> putSubscription row b)"

text \<open>Another subscription of the provider that still grants access; and an update not newer than the last.\<close>

definition competes :: "account_env \<Rightarrow> string \<Rightarrow> subscription_row \<Rightarrow> bool" where
  "competes env subscriptionId current \<longleftrightarrow> suProvider current = LEMON_SQUEEZY
     \<and> (case suSubscriptionId current of None \<Rightarrow> False | Some i \<Rightarrow> i \<noteq> '''' \<and> i \<noteq> subscriptionId)
     \<and> isSubscriptionEntitled (suStatus current) (suEndsAt current) (aeNow env)"

definition notNewer :: "lemon \<Rightarrow> string \<Rightarrow> lemon_attributes \<Rightarrow> subscription_row \<Rightarrow> bool" where
  "notNewer L subscriptionId a current \<longleftrightarrow> suSubscriptionId current = Some subscriptionId
     \<and> (case (suProviderUpdatedAt current, lmParseDate L (laUpdatedAt a)) of (Some p, Some t) \<Rightarrow> t \<le> p | _ \<Rightarrow> False)"

definition applySubscription :: "host \<Rightarrow> account_env \<Rightarrow> lemon \<Rightarrow> id \<Rightarrow> string \<Rightarrow> lemon_attributes \<Rightarrow> bool \<Rightarrow> billing
    \<Rightarrow> apply_error option \<times> billing" where
  "applySubscription H env L u subscriptionId a touch b =
     (if lmNumText L (laStoreId a) \<noteq> aeStoreId env then (Some (Forbidden ''Webhook store mismatch'' ''FORBIDDEN''), b)
      else if laTestMode a \<noteq> aeTestMode env then (Some (Forbidden ''Webhook mode mismatch'' ''FORBIDDEN''), b)
      else case (variantPlan env L (laVariantId a), STATUS_MAP (laStatus a)) of
        (Some plan, Some status) \<Rightarrow>
          (case ensureUserSettings env u (blDb b) of
             Inl e \<Rightarrow> (Some e, b)
           | Inr d \<Rightarrow>
               (let b1 = b\<lparr>blDb := d\<rparr> in
                case tbl_get suUser u (adSubscriptions d) of
                  None \<Rightarrow> (Some (OtherErr ''P2025''), b1)
                | Some current \<Rightarrow>
                    if competes env subscriptionId current then
                      (if \<not> isSubscriptionEntitled status (endsFor (dateOf L (laEndsAt a))) (aeNow env) then (None, b1)
                       else case resolveDuplicate H L (the (suSubscriptionId current)) subscriptionId a b1 of
                         (Inl e, b2) \<Rightarrow> (Some e, b2)
                       | (Inr False, b2) \<Rightarrow> (None, b2)
                       | (Inr True, b2) \<Rightarrow> writeSubscription env L plan status subscriptionId a current b2)
                    else if notNewer L subscriptionId a current then
                      (if touch then putSubscription (current\<lparr>suLastVerifiedAt := Some (aeNow env),
                                       suServerUpdatedAt := aeNow env\<rparr>) b1
                       else (None, b1))
                    else writeSubscription env L plan status subscriptionId a current b1))
      | _ \<Rightarrow> (None, b))"

section \<open>Reconciliation\<close>

definition isSubscriptionVerificationStale :: "ms option \<Rightarrow> ms \<Rightarrow> bool" where
  "isSubscriptionVerificationStale lastVerifiedAt now \<longleftrightarrow>
     (case lastVerifiedAt of None \<Rightarrow> True | Some t \<Rightarrow> t \<le> now - SUBSCRIPTION_STALE_MS)"

definition reconcileSubscription :: "host \<Rightarrow> account_env \<Rightarrow> lemon \<Rightarrow> id \<Rightarrow> string \<Rightarrow> billing \<Rightarrow> apply_error option \<times> billing" where
  "reconcileSubscription H env L u subscriptionId b =
     (case lmRetrieve L subscriptionId of
        Inl e \<Rightarrow> (Some e, b)
      | Inr (remoteId, attrs) \<Rightarrow> applySubscription H env L u remoteId attrs True b)"

definition needsVerification :: "ms \<Rightarrow> subscription_row \<Rightarrow> bool" where
  "needsVerification now s \<longleftrightarrow> suProvider s = LEMON_SQUEEZY \<and> suSubscriptionId s \<noteq> None \<and> suStatus s \<noteq> EXPIRED
     \<and> isSubscriptionVerificationStale (suLastVerifiedAt s) now"

text \<open>A subscription that fails is logged and the scan goes on.\<close>

fun reconcileEach :: "host \<Rightarrow> account_env \<Rightarrow> lemon \<Rightarrow> (id \<times> string) list \<Rightarrow> billing \<Rightarrow> billing" where
  "reconcileEach H env L [] b = b"
| "reconcileEach H env L ((u, i) # xs) b =
     reconcileEach H env L xs (if i = '''' then b else snd (reconcileSubscription H env L u i b))"

definition reconcileStaleSubscriptions :: "host \<Rightarrow> account_env \<Rightarrow> lemon \<Rightarrow> billing \<Rightarrow> billing" where
  "reconcileStaleSubscriptions H env L b =
     reconcileEach H env L
       (map (\<lambda>s. (suUser s, the (suSubscriptionId s))) (filter (needsVerification (aeNow env)) (adSubscriptions (blDb b)))) b"

definition runBillingReconciliation :: "host \<Rightarrow> account_env \<Rightarrow> lemon \<Rightarrow> bool \<Rightarrow> billing \<Rightarrow> billing" where
  "runBillingReconciliation H env L running b =
     (if running then b
      else case tryAcquireLeaderLock ''leader:billing'' (25 * 60 * 60) (aeNow env) (blLimits b) of
        (leader, l) \<Rightarrow> (let b1 = b\<lparr>blLimits := l\<rparr> in if leader then reconcileStaleSubscriptions H env L b1 else b1))"

text \<open>settings.service.ts: the subscription as it is shown, verified when it is stale.\<close>

definition getVerifiedSubscriptionRow :: "host \<Rightarrow> account_env \<Rightarrow> lemon \<Rightarrow> id \<Rightarrow> billing
    \<Rightarrow> (apply_error + subscription_row) \<times> billing" where
  "getVerifiedSubscriptionRow H env L u b =
     (case tbl_get suUser u (adSubscriptions (blDb b)) of
        None \<Rightarrow> (Inl (OtherErr ''P2025''), b)
      | Some row \<Rightarrow>
          (case suSubscriptionId row of
             Some i \<Rightarrow>
               if suProvider row = LEMON_SQUEEZY \<and> i \<noteq> '''' \<and> isSubscriptionVerificationStale (suLastVerifiedAt row) (aeNow env)
               then (case reconcileSubscription H env L u i b of
                       (Some e, b1) \<Rightarrow> (Inr row, b1)
                     | (None, b1) \<Rightarrow> (Inr (case tbl_get suUser u (adSubscriptions (blDb b1)) of
                                         None \<Rightarrow> row | Some r \<Rightarrow> r), b1))
               else (Inr row, b)
           | None \<Rightarrow> (Inr row, b)))"

section \<open>Checkout and portal\<close>

definition grantLocalPro :: "account_env \<Rightarrow> id \<Rightarrow> bool \<Rightarrow> billing \<Rightarrow> (apply_error + string) \<times> billing" where
  "grantLocalPro env u monthly b =
     (if tbl_get auId u (adUsers (blDb b)) = None then (Inl (AppErr 404 ''NOT_FOUND'' ''User not found''), b)
      else case ensureUserSettings env u (blDb b) of
        Inl e \<Rightarrow> (Inl e, b)
      | Inr d \<Rightarrow>
          (case tbl_get suUser u (adSubscriptions d) of
             None \<Rightarrow> (Inl (OtherErr ''P2025''), b\<lparr>blDb := d\<rparr>)
           | Some s \<Rightarrow>
               (let now = aeNow env; row = s\<lparr>suPlan := PRO, suStatus := ACTIVE, suProvider := NONE,
                      suPeriodStart := Some now, suPeriodEnd := Some (now + (if monthly then 30 else 365) * MS_DAY),
                      suLastVerifiedAt := Some now, suEndsAt := None, suTrialEndsAt := None,
                      suCancelAtPeriodEnd := False, suCanceledAt := None, suServerUpdatedAt := now\<rparr>
                in (Inr (aeReturnUrl env), b\<lparr>blDb := d\<lparr>adSubscriptions := tbl_put suUser row (adSubscriptions d)\<rparr>\<rparr>))))"

definition billingVariant :: "account_env \<Rightarrow> bool \<Rightarrow> apply_error + string" where
  "billingVariant env monthly =
     (let v = (if monthly then aeMonthlyVariant env else aeYearlyVariant env)
      in if v = '''' then Inl (OtherErr ''Lemon Squeezy variant is not configured'') else Inr v)"

text \<open>The newest intent of the user that has not expired is offered again.\<close>

definition openIntent :: "id \<Rightarrow> ms \<Rightarrow> checkout_intent list \<Rightarrow> checkout_intent option" where
  "openIntent u now rows =
     (case rev (sort_key ciCreatedAt (filter (\<lambda>c. ciUser c = u \<and> ciExpiresAt c > now) rows)) of
        [] \<Rightarrow> None | c # _ \<Rightarrow> Some c)"

definition createCheckout :: "account_env \<Rightarrow> lemon \<Rightarrow> id \<Rightarrow> bool \<Rightarrow> billing \<Rightarrow> (apply_error + string) \<times> billing" where
  "createCheckout env L u monthly b =
     (case enforceRateLimit (''billing:checkout:'' @ u) 5 60 DEFAULT_LIMIT_MESSAGE (aeNow env) (blLimits b) of
        (Some e, l) \<Rightarrow> (Inl e, b\<lparr>blLimits := l\<rparr>)
      | (None, l) \<Rightarrow>
          (let b1 = b\<lparr>blLimits := l\<rparr> in
           if aeLocalBilling env then grantLocalPro env u monthly b1
           else case billingVariant env monthly of
             Inl e \<Rightarrow> (Inl e, b1)
           | Inr variant \<Rightarrow>
               (case tbl_get auId u (adUsers (blDb b1)) of
                  None \<Rightarrow> (Inl (AppErr 404 ''NOT_FOUND'' ''User not found''), b1)
                | Some user \<Rightarrow>
                    (case openIntent u (aeNow env) (adIntents (blDb b1)) of
                       Some c \<Rightarrow> (Inr (ciUrl c), b1)
                     | None \<Rightarrow>
                         (case lmCheckout L u (auEmail user) variant (aeNow env + CHECKOUT_TTL_MS) of
                            Inl e \<Rightarrow> (Inl e, b1)
                          | Inr (checkoutId, url) \<Rightarrow>
                              (Inr url, b1\<lparr>blDb := (blDb b1)\<lparr>adIntents := adIntents (blDb b1) @
                                 [\<lparr>ciUser = u, ciCheckoutId = checkoutId, ciUrl = url,
                                   ciExpiresAt = aeNow env + CHECKOUT_TTL_MS, ciCreatedAt = aeNow env\<rparr>]\<rparr>\<rparr>))))))"

definition getPortalUrl :: "account_env \<Rightarrow> lemon \<Rightarrow> id \<Rightarrow> billing \<Rightarrow> (apply_error + string) \<times> billing" where
  "getPortalUrl env L u b =
     (case enforceRateLimit (''billing:portal:'' @ u) 10 60 DEFAULT_LIMIT_MESSAGE (aeNow env) (blLimits b) of
        (Some e, l) \<Rightarrow> (Inl e, b\<lparr>blLimits := l\<rparr>)
      | (None, l) \<Rightarrow>
          (let b1 = b\<lparr>blLimits := l\<rparr> in
           case tbl_get suUser u (adSubscriptions (blDb b1)) of
             None \<Rightarrow> (Inl (BadRequest ''No Lemon Squeezy subscription'' ''NO_SUBSCRIPTION''), b1)
           | Some s \<Rightarrow>
               (case suSubscriptionId s of
                  Some i \<Rightarrow>
                    if i = '''' \<or> suProvider s \<noteq> LEMON_SQUEEZY
                    then (Inl (BadRequest ''No Lemon Squeezy subscription'' ''NO_SUBSCRIPTION''), b1)
                    else (case lmRetrieve L i of
                            Inl e \<Rightarrow> (Inl e, b1)
                          | Inr (_, remote) \<Rightarrow>
                              (case laPortal remote of
                                 Some url \<Rightarrow> if url = '''' then (Inl (BadRequest ''Customer portal unavailable'' ''BAD_REQUEST''), b1)
                                            else (Inr url, b1)
                               | None \<Rightarrow> (Inl (BadRequest ''Customer portal unavailable'' ''BAD_REQUEST''), b1)))
                | None \<Rightarrow> (Inl (BadRequest ''No Lemon Squeezy subscription'' ''NO_SUBSCRIPTION''), b1))))"

section \<open>The webhook\<close>

definition isHexAny :: "char \<Rightarrow> bool" where
  "isHexAny c \<longleftrightarrow> isHexLower c \<or> (CHR ''A'' \<le> c \<and> c \<le> CHR ''F'')"

definition lowerHex :: "char \<Rightarrow> char" where
  "lowerHex c = (if CHR ''A'' \<le> c \<and> c \<le> CHR ''F'' then char_of (of_char c + 32 :: nat) else c)"

text \<open>Equal bytes are equal hexadecimal texts up to the case of their letters.\<close>

definition verifyLemonSignature :: "lemon \<Rightarrow> string \<Rightarrow> string \<Rightarrow> bool" where
  "verifyLemonSignature L body signature \<longleftrightarrow>
     length signature = 64 \<and> list_all isHexAny signature \<and> lmSecretSet L \<and> map lowerHex signature = lmHmacHex L body"

record webhook =
  whEvent :: string
  whUserId :: "string option"
  whType :: string
  whId :: string
  whAttributes :: jsv

definition userIdText :: "lemon \<Rightarrow> jsv \<Rightarrow> string option" where
  "userIdText L v = (case v of JStr s \<Rightarrow> Some s | JNum r \<Rightarrow> Some (lmNumText L r) | _ \<Rightarrow> None)"

definition webhookSchema :: "lemon \<Rightarrow> jsv \<Rightarrow> webhook option" where
  "webhookSchema L v = (let m = getProp ''meta'' v; dt = getProp ''data'' v in
     if \<not> isObject v \<or> \<not> isObject m \<or> \<not> isObject dt then None else do {
     event \<leftarrow> decStr (getProp ''event_name'' m);
     uid \<leftarrow> decOptional (\<lambda>c. if \<not> isObject c then None else userIdText L (getProp ''user_id'' c)) (getProp ''custom_data'' m);
     ty \<leftarrow> decStr (getProp ''type'' dt);
     i \<leftarrow> decStr (getProp ''id'' dt);
     attrs \<leftarrow> (if isObject (getProp ''attributes'' dt) then Some (getProp ''attributes'' dt) else None);
     Some \<lparr>whEvent = event, whUserId = uid, whType = ty, whId = i, whAttributes = attrs\<rparr> })"

definition decNullable :: "(jsv \<Rightarrow> 'a option) \<Rightarrow> jsv \<Rightarrow> 'a option option" where
  "decNullable f v = (if v = JNull then Some None else map_option Some (f v))"

definition subscriptionAttributesSchema :: "jsv \<Rightarrow> lemon_attributes option" where
  "subscriptionAttributesSchema v = (if \<not> isObject v then None else do {
     store \<leftarrow> decNum (getProp ''store_id'' v);
     customer \<leftarrow> decNum (getProp ''customer_id'' v);
     variant \<leftarrow> decNum (getProp ''variant_id'' v);
     status \<leftarrow> decStr (getProp ''status'' v);
     cancelled \<leftarrow> decBool (getProp ''cancelled'' v);
     trial \<leftarrow> decNullable decStr (getProp ''trial_ends_at'' v);
     renews \<leftarrow> decNullable decStr (getProp ''renews_at'' v);
     ends \<leftarrow> decNullable decStr (getProp ''ends_at'' v);
     created \<leftarrow> decStr (getProp ''created_at'' v);
     updated \<leftarrow> decStr (getProp ''updated_at'' v);
     test \<leftarrow> decBool (getProp ''test_mode'' v);
     Some \<lparr>laStoreId = store, laCustomerId = customer, laVariantId = variant, laStatus = status,
       laCancelled = cancelled, laTrialEndsAt = trial, laRenewsAt = renews, laEndsAt = ends,
       laCreatedAt = created, laUpdatedAt = updated, laTestMode = test, laPortal = None\<rparr> })"

definition applyWebhook :: "host \<Rightarrow> account_env \<Rightarrow> lemon \<Rightarrow> id \<Rightarrow> webhook \<Rightarrow> billing \<Rightarrow> apply_error option \<times> billing" where
  "applyWebhook H env L u p b =
     (if whType p = ''subscriptions'' \<and> whEvent p \<in> SUBSCRIPTION_EVENTS then
        (case subscriptionAttributesSchema (whAttributes p) of
           None \<Rightarrow> (Some (BadRequest ''Invalid subscription webhook payload'' ''BAD_REQUEST''), b)
         | Some a \<Rightarrow> applySubscription H env L u (whId p) a False b)
      else if whEvent p \<in> PAYMENT_EVENTS then
        (case (case getProp ''subscription_id'' (whAttributes p) of
                 JStr s \<Rightarrow> if s = '''' then None else Some s | JNum r \<Rightarrow> Some (lmNumText L r) | _ \<Rightarrow> None) of
           None \<Rightarrow> (Some (BadRequest ''Missing payment subscription_id'' ''BAD_REQUEST''), b)
         | Some i \<Rightarrow> (case lmRetrieve L i of
             Inl e \<Rightarrow> (Some e, b)
           | Inr (remoteId, a) \<Rightarrow> applySubscription H env L u remoteId a False b))
      else (None, b))"

definition markProcessed :: "string \<Rightarrow> ms \<Rightarrow> billing \<Rightarrow> billing" where
  "markProcessed key now b = b\<lparr>blDb := (blDb b)\<lparr>adEvents :=
     map (\<lambda>e. if beKey e = key then e\<lparr>beProcessedAt := Some now\<rparr> else e) (adEvents (blDb b))\<rparr>\<rparr>"

definition processLemonWebhook :: "host \<Rightarrow> account_env \<Rightarrow> lemon \<Rightarrow> string \<Rightarrow> string \<Rightarrow> billing \<Rightarrow> apply_error option \<times> billing" where
  "processLemonWebhook H env L body signature b =
     (if \<not> verifyLemonSignature L body signature
      then (Some (AppErr 401 ''UNAUTHORIZED'' ''Invalid webhook signature''), b)
      else case jsonParse H body of
        None \<Rightarrow> (Some (BadRequest ''Malformed webhook JSON'' ''BAD_REQUEST''), b)
      | Some json \<Rightarrow>
          (case webhookSchema L json of
             None \<Rightarrow> (Some (BadRequest ''Invalid webhook payload'' ''BAD_REQUEST''), b)
           | Some p \<Rightarrow>
               (let key = sha256Hex H body; existing = tbl_get beKey key (adEvents (blDb b)) in
                if (case existing of None \<Rightarrow> False | Some e \<Rightarrow> beProcessedAt e \<noteq> None) then (None, b)
                else
                  (let b1 = (if existing = None
                        then b\<lparr>blDb := (blDb b)\<lparr>adEvents := adEvents (blDb b) @
                               [\<lparr>beKey = key, beType = whEvent p, beProcessedAt = None\<rparr>]\<rparr>\<rparr>
                        else b)
                   in case (case whUserId p of
                              None \<Rightarrow> (None, b1)
                            | Some u \<Rightarrow> if u = '''' \<or> \<not> isUuid H u \<or> tbl_get auId u (adUsers (blDb b1)) = None then (None, b1)
                                else applyWebhook H env L u p b1) of
                        (Some e, b2) \<Rightarrow> (Some e, b2)
                      | (None, b2) \<Rightarrow> (None, markProcessed key (aeNow env) b2)))))"

end
