(* ===== verification/BillingProps.thy ===== *)
theory BillingProps
  imports Billing
begin

text \<open>
  What the webhook guarantees: a delivered event that was processed changes nothing when it comes
  again, and the events of one subscription leave the newest of them in whatever order they come.
\<close>

section \<open>Replays\<close>

lemma events_put: "adEvents (blDb (snd (putSubscription row b))) = adEvents (blDb b)"
  by (simp add: putSubscription_def Let_def)

lemma events_write: "adEvents (blDb (snd (writeSubscription env L p st i a c b))) = adEvents (blDb b)"
  by (simp add: writeSubscription_def events_put split: sum.split)

lemma events_resolve: "resolveDuplicate H L x i a b = (r, b2) \<Longrightarrow> adEvents (blDb b2) = adEvents (blDb b)"
  by (auto simp: resolveDuplicate_def Let_def split: sum.splits option.splits prod.splits)

lemma events_ensure: "ensureUserSettings env u d = Inr d' \<Longrightarrow> adEvents d' = adEvents d"
  by (auto simp: ensureUserSettings_def split: if_splits)

lemma events_apply: "adEvents (blDb (snd (applySubscription H env L u i a touch b))) = adEvents (blDb b)"
  by (auto simp: applySubscription_def Let_def events_put events_write
      split: option.splits sum.splits prod.splits bool.splits dest!: events_ensure dest: events_resolve)

lemma events_webhook: "adEvents (blDb (snd (applyWebhook H env L u p b))) = adEvents (blDb b)"
  by (auto simp: applyWebhook_def events_apply split: option.splits sum.splits)

lemma processed_mark:
  assumes "tbl_get beKey key (adEvents (blDb b)) \<noteq> None"
  shows "case tbl_get beKey key (adEvents (blDb (markProcessed key now b))) of
    None \<Rightarrow> False | Some e \<Rightarrow> beProcessedAt e \<noteq> None"
proof -
  have "case tbl_get beKey key (map (\<lambda>e. if beKey e = key then e\<lparr>beProcessedAt := Some now\<rparr> else e) es) of
    None \<Rightarrow> False | Some e \<Rightarrow> beProcessedAt e \<noteq> None" if "tbl_get beKey key es \<noteq> None" for es
    using that by (induction es) auto
  then show ?thesis using assms by (simp add: markProcessed_def)
qed

text \<open>
  C33. The billing webhook is idempotent. Once a delivery was processed, the same body delivered
  again, at any time and with whatever the provider's API answers by then, is acknowledged and
  changes nothing: no table, no limit, and no subscription is cancelled a second time.
\<close>

theorem webhook_replay_changes_nothing:
  assumes "processLemonWebhook H env L body signature b = (None, b')"
  shows "processLemonWebhook H env' (L\<lparr>lmRetrieve := retrieve, lmCancel := cancel\<rparr>) body signature b' = (None, b')"
proof -
  let ?key = "sha256Hex H body"
  have ver: "verifyLemonSignature L body signature"
    using assms by (auto simp: processLemonWebhook_def split: if_splits)
  then have ver': "verifyLemonSignature (L\<lparr>lmRetrieve := retrieve, lmCancel := cancel\<rparr>) body signature"
    by (simp add: verifyLemonSignature_def)
  obtain json where json: "jsonParse H body = Some json"
    using assms ver by (auto simp: processLemonWebhook_def split: option.splits)
  obtain p where p: "webhookSchema L json = Some p"
    using assms ver json by (auto simp: processLemonWebhook_def split: option.splits)
  have "userIdText (L\<lparr>lmRetrieve := retrieve, lmCancel := cancel\<rparr>) = userIdText L"
    by (intro ext) (simp add: userIdText_def split: jsv.split)
  then have "webhookSchema (L\<lparr>lmRetrieve := retrieve, lmCancel := cancel\<rparr>) json = webhookSchema L json"
    by (simp only: webhookSchema_def)
  note p' = this [unfolded p]
  have done': "case tbl_get beKey ?key (adEvents (blDb b')) of None \<Rightarrow> False | Some e \<Rightarrow> beProcessedAt e \<noteq> None"
  proof (cases "case tbl_get beKey ?key (adEvents (blDb b)) of None \<Rightarrow> False | Some e \<Rightarrow> beProcessedAt e \<noteq> None")
    case True
    then have "b' = b" using assms ver json p by (simp add: processLemonWebhook_def Let_def)
    with True show ?thesis by simp
  next
    case False
    let ?b1 = "if tbl_get beKey ?key (adEvents (blDb b)) = None
                        then b\<lparr>blDb := (blDb b)\<lparr>adEvents := adEvents (blDb b) @
                               [\<lparr>beKey = ?key, beType = whEvent p, beProcessedAt = None\<rparr>]\<rparr>\<rparr> else b"
    have b1: "tbl_get beKey ?key (adEvents (blDb ?b1)) \<noteq> None" by (auto simp: tbl_get_snoc)
    let ?r = "case whUserId p of None \<Rightarrow> (None, ?b1)
        | Some u \<Rightarrow> if u = '''' \<or> \<not> isUuid H u \<or> tbl_get auId u (adUsers (blDb ?b1)) = None then (None, ?b1)
            else applyWebhook H env L u p ?b1"
    have r: "adEvents (blDb (snd ?r)) = adEvents (blDb ?b1)"
      by (simp add: events_webhook split: option.split)
    have "fst ?r = None \<and> b' = markProcessed ?key (aeNow env) (snd ?r)"
      using assms ver json p False
      by (cases ?r; cases "fst ?r") (simp_all only: processLemonWebhook_def Let_def; simp)+
    then show ?thesis using processed_mark [of ?key "snd ?r"] b1 r by simp
  qed
  then show ?thesis using ver' json p' by (simp add: processLemonWebhook_def Let_def)
qed

section \<open>One subscription as a register\<close>

type_synonym subscription_value =
  "plan_tier \<times> subscription_status \<times> string option \<times> string option \<times> ms option \<times> ms option \<times> ms option \<times> bool"

definition providerAcc :: "(ms \<times> subscription_value) option \<Rightarrow> ms \<times> subscription_value \<Rightarrow> bool" where
  "providerAcc cur w \<longleftrightarrow> (case cur of None \<Rightarrow> True | Some c \<Rightarrow> fst c < fst w)"

interpretation provider_lww: lww_register providerAcc
  by unfold_locales (auto simp: providerAcc_def)

definition subscriptionValue :: "subscription_row \<Rightarrow> subscription_value" where
  "subscriptionValue s = (suPlan s, suStatus s, suCustomerId s, suVariantId s, suPeriodEnd s, suEndsAt s,
     suTrialEndsAt s, suCancelAtPeriodEnd s)"

definition subscriptionState :: "string \<Rightarrow> id \<Rightarrow> billing \<Rightarrow> (ms \<times> subscription_value) option" where
  "subscriptionState i u b =
     (case tbl_get suUser u (adSubscriptions (blDb b)) of
        None \<Rightarrow> None
      | Some s \<Rightarrow> if suSubscriptionId s = Some i
          then map_option (\<lambda>t. (t, subscriptionValue s)) (suProviderUpdatedAt s) else None)"

definition billing_ready :: "string \<Rightarrow> id \<Rightarrow> billing \<Rightarrow> bool" where
  "billing_ready i u b \<longleftrightarrow> tbl_get auId u (adUsers (blDb b)) \<noteq> None
     \<and> (\<forall>s. tbl_get suUser u (adSubscriptions (blDb b)) = Some s \<longrightarrow>
          suSubscriptionId s = None \<or> suSubscriptionId s = Some i \<and> suProviderUpdatedAt s \<noteq> None)
     \<and> (\<forall>s \<in> set (adSubscriptions (blDb b)). suUser s \<noteq> u \<longrightarrow>
          \<not> (suProvider s = LEMON_SQUEEZY \<and> suSubscriptionId s = Some i))"

definition event_ok :: "account_env \<Rightarrow> lemon \<Rightarrow> lemon_attributes \<Rightarrow> bool" where
  "event_ok env L a \<longleftrightarrow> \<not> aeBetaOpenPro env \<and> lmNumText L (laStoreId a) = aeStoreId env \<and> laTestMode a = aeTestMode env
     \<and> variantPlan env L (laVariantId a) \<noteq> None \<and> STATUS_MAP (laStatus a) \<noteq> None
     \<and> lmParseDate L (laUpdatedAt a) \<noteq> None
     \<and> \<not> isl (storeDate (dateOf L (laRenewsAt a))) \<and> \<not> isl (storeDate (dateOf L (laEndsAt a)))
     \<and> \<not> isl (storeDate (dateOf L (laTrialEndsAt a)))"

definition eventWrite :: "account_env \<Rightarrow> lemon \<Rightarrow> lemon_attributes \<Rightarrow> ms \<times> subscription_value" where
  "eventWrite env L a = (the (lmParseDate L (laUpdatedAt a)),
     (the (variantPlan env L (laVariantId a)), the (STATUS_MAP (laStatus a)), Some (lmNumText L (laCustomerId a)),
      Some (lmNumText L (laVariantId a)), projr (storeDate (dateOf L (laRenewsAt a))),
      projr (storeDate (dateOf L (laEndsAt a))), projr (storeDate (dateOf L (laTrialEndsAt a))), laCancelled a))"

lemma write_event:
  assumes "event_ok env L a" "billing_ready i u b" "suUser s = u"
    "variantPlan env L (laVariantId a) = Some plan" "STATUS_MAP (laStatus a) = Some status"
  shows "fst (writeSubscription env L plan status i a s b) = None
    \<and> billing_ready i u (snd (writeSubscription env L plan status i a s b))
    \<and> subscriptionState i u (snd (writeSubscription env L plan status i a s b)) = Some (eventWrite env L a)"
proof -
  obtain t where t: "lmParseDate L (laUpdatedAt a) = Some t" using assms(1) by (auto simp: event_ok_def)
  obtain r e tr where rest: "storeDate (dateOf L (laRenewsAt a)) = Inr r" "storeDate (dateOf L (laEndsAt a)) = Inr e"
      "storeDate (dateOf L (laTrialEndsAt a)) = Inr tr"
    using assms(1) by (auto simp: event_ok_def isl_def) (metis sum.exhaust)+
  obtain row where row: "subscriptionFrom env L plan status i a s = Inr row" "suUser row = u" "suProvider row = LEMON_SQUEEZY"
      "suSubscriptionId row = Some i" "suProviderUpdatedAt row = Some t" "(t, subscriptionValue row) = eventWrite env L a"
    using t rest assms(3-5)
    by (simp add: subscriptionFrom_def storeDate_def [of "Some (Some t)"] subscriptionValue_def eventWrite_def)
  have free: "\<not> list_ex (\<lambda>x. suUser x \<noteq> u \<and> suProvider x = LEMON_SQUEEZY \<and> suSubscriptionId x = Some i)
      (adSubscriptions (blDb b))"
    using assms(2) by (auto simp: billing_ready_def list_ex_iff)
  let ?b = "b\<lparr>blDb := (blDb b)\<lparr>adSubscriptions := tbl_put suUser row (adSubscriptions (blDb b))\<rparr>\<rparr>"
  have w: "writeSubscription env L plan status i a s b = (None, ?b)"
    using row(1-4) free by (simp add: writeSubscription_def putSubscription_def Let_def)
  have "billing_ready i u ?b"
    using assms(2) row(2,4,5) set_tbl_put_subset [of suUser row "adSubscriptions (blDb b)"]
    by (auto simp: billing_ready_def tbl_get_put)
  moreover have "subscriptionState i u ?b = Some (eventWrite env L a)"
    using row(2,4,5,6) by (simp add: subscriptionState_def tbl_get_put)
  ultimately show ?thesis using w by simp
qed

lemma apply_event_refines:
  assumes "event_ok env L a" "billing_ready i u b"
  shows "fst (applySubscription H env L u i a False b) = None
    \<and> billing_ready i u (snd (applySubscription H env L u i a False b))
    \<and> subscriptionState i u (snd (applySubscription H env L u i a False b))
      = reg_step providerAcc (eventWrite env L a) (subscriptionState i u b)"
proof -
  obtain plan status where ps: "variantPlan env L (laVariantId a) = Some plan" "STATUS_MAP (laStatus a) = Some status"
    using assms(1) by (auto simp: event_ok_def)
  obtain d where d: "ensureUserSettings env u (blDb b) = Inr d"
    using assms(2) by (auto simp: ensureUserSettings_def billing_ready_def)
  let ?b = "b\<lparr>blDb := d\<rparr>"
  have subs: "adSubscriptions d = ensureSubscription env u (adSubscriptions (blDb b))" "adUsers d = adUsers (blDb b)"
    using d by (auto simp: ensureUserSettings_def split: if_splits)
  have beta: "\<not> aeBetaOpenPro env" using assms(1) by (simp add: event_ok_def)
  have get: "tbl_get suUser u (adSubscriptions d) = Some (case tbl_get suUser u (adSubscriptions (blDb b)) of
      None \<Rightarrow> freshSubscription u FREE (aeNow env) | Some s \<Rightarrow> s)"
    using beta by (simp add: subs ensureSubscription_get split: option.split)
  have same: "subscriptionState i u ?b = subscriptionState i u b"
    using get by (auto simp: subscriptionState_def freshSubscription_def split: option.splits)
  have "set (adSubscriptions d) \<subseteq> insert (freshSubscription u FREE (aeNow env)) (set (adSubscriptions (blDb b)))"
    using beta by (auto simp: subs ensureSubscription_def split: option.splits)
  then have ready: "billing_ready i u ?b"
    using assms(2) get by (auto simp: billing_ready_def subs freshSubscription_def split: option.splits)
  obtain s where s: "tbl_get suUser u (adSubscriptions d) = Some s" "suUser s = u"
    using get tbl_get_key by fastforce
  have "\<not> competes env i s" using ready s(1) by (auto simp: billing_ready_def competes_def)
  then have step: "applySubscription H env L u i a False b
      = (if notNewer L i a s then (None, ?b) else writeSubscription env L plan status i a s ?b)"
    using assms(1) ps d s(1) by (simp add: applySubscription_def event_ok_def Let_def)
  show ?thesis
  proof (cases "notNewer L i a s")
    case True
    then have "\<not> providerAcc (subscriptionState i u ?b) (eventWrite env L a)"
      using s(1) by (auto simp: notNewer_def providerAcc_def subscriptionState_def eventWrite_def split: option.splits)
    then show ?thesis using step True ready same by (simp add: reg_step_def)
  next
    case False
    have "providerAcc (subscriptionState i u ?b) (eventWrite env L a)"
      using False s(1) assms(1)
      by (auto simp: notNewer_def providerAcc_def subscriptionState_def eventWrite_def event_ok_def split: option.splits)
    then show ?thesis using step False write_event [OF assms(1) ready s(2) ps] same by (simp add: reg_step_def)
  qed
qed

definition applyEvents :: "host \<Rightarrow> lemon \<Rightarrow> id \<Rightarrow> string \<Rightarrow> (account_env \<times> lemon_attributes) list \<Rightarrow> billing \<Rightarrow> billing" where
  "applyEvents H L u i es b = fold (\<lambda>(env, a) b. snd (applySubscription H env L u i a False b)) es b"

lemma apply_events_run:
  assumes "billing_ready i u b" "\<And>e. e \<in> set es \<Longrightarrow> event_ok (fst e) L (snd e)"
  shows "subscriptionState i u (applyEvents H L u i es b)
    = reg_run providerAcc (map (\<lambda>(env, a). eventWrite env L a) es) (subscriptionState i u b)"
  using assms
proof (induction es arbitrary: b)
  case (Cons e es)
  have "event_ok (fst e) L (snd e)" by (rule Cons.prems(2)) simp
  note one = apply_event_refines [OF this Cons.prems(1), of H]
  with Cons.IH [of "snd (applySubscription H (fst e) L u i (snd e) False b)"] Cons.prems(2)
  show ?case by (simp add: applyEvents_def case_prod_beta)
qed (simp add: applyEvents_def)

text \<open>
  C34. The events of a subscription converge. For an account without a subscription, the events
  of one subscription, with distinct times at the provider, leave the same plan, status and
  dates whatever order the webhooks arrive in: those of the newest event.
\<close>

theorem subscription_events_converge:
  assumes "billing_ready i u b" "subscriptionState i u b = None" "set es = set es'" "es \<noteq> []"
    and "\<And>e. e \<in> set es \<Longrightarrow> event_ok (fst e) L (snd e)"
    and "inj_on (\<lambda>e. the (lmParseDate L (laUpdatedAt (snd e)))) (set es)"
  shows "subscriptionState i u (applyEvents H L u i es b) = subscriptionState i u (applyEvents H L u i es' b)
    \<and> (\<exists>e \<in> set es. subscriptionState i u (applyEvents H L u i es b) = Some (eventWrite (fst e) L (snd e))
         \<and> (\<forall>e' \<in> set es. the (lmParseDate L (laUpdatedAt (snd e'))) \<le> the (lmParseDate L (laUpdatedAt (snd e)))))"
proof -
  let ?w = "\<lambda>(env, a). eventWrite env L a"
  have run: "subscriptionState i u (applyEvents H L u i rs b) = reg_run providerAcc (map ?w rs) None"
    if "set rs = set es" for rs
    using apply_events_run [OF assms(1), of rs L H] that assms(2,5) by simp
  have "inj_on (fst \<circ> ?w) (set es)" using assms(6) by (simp add: comp_def case_prod_unfold eventWrite_def)
  then have "inj_on fst (set (map ?w es))" by (simp add: inj_on_imageI)
  then have "reg_run providerAcc (map ?w es) None = reg_run providerAcc (map ?w es') None"
    by (intro provider_lww.run_order_independent) (simp_all add: assms(3))
  moreover obtain w where w: "reg_run providerAcc (map ?w es) None = Some w"
    using provider_lww.run_some [of "map ?w es" None] assms(4) by blast
  note newest = provider_lww.run_newest [OF w]
  then obtain e where e: "e \<in> set es" "w = ?w e" by auto
  have "fst (?w e') \<le> fst (?w e)" if "e' \<in> set es" for e' using newest e(2) that by auto
  then have "\<forall>e' \<in> set es. the (lmParseDate L (laUpdatedAt (snd e'))) \<le> the (lmParseDate L (laUpdatedAt (snd e)))"
    by (simp add: eventWrite_def case_prod_beta)
  ultimately show ?thesis using run [OF refl] run [of es'] assms(3) w e
    by (intro conjI bexI [of _ e]) (simp_all add: case_prod_unfold)
qed

section \<open>Samples\<close>

definition sample_lemon :: lemon where
  "sample_lemon = \<lparr>lmRetrieve = (\<lambda>i. Inr (i, \<lparr>laStoreId = 9, laCustomerId = 4, laVariantId = 1, laStatus = ''cancelled'',
       laCancelled = True, laTrialEndsAt = None, laRenewsAt = None, laEndsAt = Some ''9999'', laCreatedAt = ''10'',
       laUpdatedAt = ''20'', laTestMode = False, laPortal = None\<rparr>)),
     lmCancel = (\<lambda>_. None), lmCheckout = (\<lambda>_ _ _ _. Inr (''c'', ''url'')), lmHmacHex = (\<lambda>_. replicate 64 (CHR ''a'')),
     lmSecretSet = True, lmParseDate = (\<lambda>s. Some (digitsVal s)), lmNumText = (\<lambda>r. natToString (nat \<lfloor>r\<rfloor>))\<rparr>"

definition lemon_event :: "string \<Rightarrow> string \<Rightarrow> lemon_attributes" where
  "lemon_event status updated = \<lparr>laStoreId = 9, laCustomerId = 4, laVariantId = 1, laStatus = status,
     laCancelled = False, laTrialEndsAt = None, laRenewsAt = None, laEndsAt = None, laCreatedAt = ''500'',
     laUpdatedAt = updated, laTestMode = False, laPortal = None\<rparr>"

definition new_account :: billing where
  "new_account = \<lparr>blDb = two_users, blLimits = \<lparr>liOpen = True, liCounts = [], liFlags = []\<rparr>, blCanceled = []\<rparr>"

lemma subscription_events_converge_witness:
  "let old = (plain_account_env, lemon_event ''active'' ''30''); new = (plain_account_env, lemon_event ''past_due'' ''40'')
   in map_option (fst \<circ> snd \<circ> snd) (subscriptionState ''77'' ''u'' (applyEvents sample_host sample_lemon ''u'' ''77'' [old, new] new_account))
        = Some PAST_DUE
    \<and> map_option (fst \<circ> snd \<circ> snd) (subscriptionState ''77'' ''u'' (applyEvents sample_host sample_lemon ''u'' ''77'' [new, old] new_account))
        = Some PAST_DUE"
proof -
  let ?old = "(plain_account_env, lemon_event ''active'' ''30'')" and ?new = "(plain_account_env, lemon_event ''past_due'' ''40'')"
  have e1: "event_ok plain_account_env sample_lemon (lemon_event ''active'' ''30'')" by code_simp
  have e2: "event_ok plain_account_env sample_lemon (lemon_event ''past_due'' ''40'')" by code_simp
  have n: "the (lmParseDate sample_lemon (laUpdatedAt (lemon_event ''active'' ''30'')))
      \<noteq> the (lmParseDate sample_lemon (laUpdatedAt (lemon_event ''past_due'' ''40'')))" by code_simp
  have "subscriptionState ''77'' ''u'' (applyEvents sample_host sample_lemon ''u'' ''77'' [?old, ?new] new_account)
      = subscriptionState ''77'' ''u'' (applyEvents sample_host sample_lemon ''u'' ''77'' [?new, ?old] new_account)"
    by (rule conjunct1 [OF subscription_events_converge])
       (use e1 e2 n in \<open>auto simp: billing_ready_def new_account_def two_users_def subscriptionState_def inj_on_def\<close>)
  moreover have "map_option (fst \<circ> snd \<circ> snd) (subscriptionState ''77'' ''u''
      (applyEvents sample_host sample_lemon ''u'' ''77'' [?old, ?new] new_account)) = Some PAST_DUE"
    by code_simp
  ultimately show ?thesis by (simp add: Let_def)
qed

text \<open>
  A user who cancelled (paid through to a later date) and subscribes again: the new subscription
  is taken for a duplicate of the old one, and it is the new one that is cancelled.
\<close>

definition canceled_account :: billing where
  "canceled_account = new_account\<lparr>blDb := two_users\<lparr>adSubscriptions := [(freshSubscription ''u'' PRO 0)\<lparr>
     suStatus := CANCELED, suProvider := LEMON_SQUEEZY, suSubscriptionId := Some ''66'', suProviderUpdatedAt := Some 20,
     suEndsAt := Some 9999\<rparr>]\<rparr>\<rparr>"

lemma resubscription_is_canceled:
  "case applySubscription sample_host plain_account_env sample_lemon ''u'' ''77'' (lemon_event ''active'' ''30'') False canceled_account
   of (e, b) \<Rightarrow> e = None \<and> blCanceled b = [''77'']
     \<and> map (\<lambda>s. (suStatus s, suSubscriptionId s)) (adSubscriptions (blDb b)) = [(CANCELED, Some ''66'')]"
  by code_simp

text \<open>During the open beta a read of the settings takes a paying account off its provider.\<close>

lemma open_beta_drops_provider:
  "case ensureUserSettings (plain_account_env\<lparr>aeBetaOpenPro := True\<rparr>) ''u'' (blDb canceled_account) of
     Inr d \<Rightarrow> map (\<lambda>s. (suProvider s, suStatus s)) (adSubscriptions d) = [(NONE, ACTIVE)] | Inl _ \<Rightarrow> False"
  by code_simp

definition signed_body :: string where
  "signed_body = ''{}''"

definition webhook_host :: host where
  "webhook_host = sample_host\<lparr>jsonParse := (\<lambda>_. Some (JObj [(''meta'', JObj [(''event_name'', JStr ''order_created'')]),
     (''data'', JObj [(''type'', JStr ''orders''), (''id'', JStr ''1''), (''attributes'', JObj [])])])),
     sha256Hex := (\<lambda>_. ''k'')\<rparr>"

lemma webhook_replay_changes_nothing_witness:
  "\<exists>b'. processLemonWebhook webhook_host plain_account_env sample_lemon signed_body (replicate 64 (CHR ''A'')) new_account = (None, b')
     \<and> length (adEvents (blDb b')) = 1
     \<and> processLemonWebhook webhook_host plain_account_env sample_lemon signed_body (replicate 64 (CHR ''A'')) b' = (None, b')"
proof -
  let ?go = "processLemonWebhook webhook_host plain_account_env sample_lemon signed_body (replicate 64 (CHR ''A''))"
  have "fst (?go new_account) = None \<and> length (adEvents (blDb (snd (?go new_account)))) = 1" by code_simp
  then obtain b' where b': "?go new_account = (None, b')" "length (adEvents (blDb b')) = 1" by (cases "?go new_account") auto
  have "sample_lemon\<lparr>lmRetrieve := lmRetrieve sample_lemon, lmCancel := lmCancel sample_lemon\<rparr> = sample_lemon" by simp
  with webhook_replay_changes_nothing [OF b'(1), where env' = plain_account_env and retrieve = "lmRetrieve sample_lemon"
      and cancel = "lmCancel sample_lemon"] b'
  show ?thesis by auto
qed

end
