(* ===== verification/Sessions.thy ===== *)
theory Sessions
  imports Accounts
begin

text \<open>
  Sessions and refresh tokens (session.service.ts, token.service.ts) and the gate every
  authenticated route goes through (require-auth.ts).

  \<open>auth_env\<close> is the call's clock and configuration, the random values it draws, and what is not
  under src/: SHA-256 of a token, signing and
  checking of access tokens (jose; \<open>avVerify\<close> gives the claims of a token whose signature and expiry hold). Rotating a token
  reads first and writes in a transaction later; the two parts are definitions of their own, so
  that requests can interleave between them.
\<close>

section \<open>Rows\<close>

datatype auth_method = EMAIL_OTP | PASSKEY | OAUTH

datatype security_event =
    OTP_REQUESTED | OTP_FAILED | OTP_SUCCEEDED | PASSKEY_REGISTERED | PASSKEY_REVOKED | PASSKEY_ASSERT_FAILED
  | PASSKEY_ASSERTED | SESSION_CREATED | SESSION_REVOKED | REFRESH_SUCCEEDED | REFRESH_REUSE_DETECTED | USER_DISABLED

record session_row =
  seId :: id
  seUser :: id
  seMethod :: auth_method
  seExpiresAt :: ms
  seRevokedAt :: "ms option"
  seLastActiveAt :: ms

record refresh_row =
  rtId :: id
  rtSession :: id
  rtHash :: string
  rtExpiresAt :: ms
  rtRevokedAt :: "ms option"
  rtReplacedBy :: "id option"

record auth_db =
  atUsers :: "account_user list"
  atSessions :: "session_row list"
  atTokens :: "refresh_row list"
  atEvents :: "(security_event \<times> id option \<times> id option) list"

record jwt_payload =
  jpTyp :: "string option"
  jpSub :: "id option"
  jpSid :: "id option"

record auth_env =
  avNow :: ms
  avSessionTtl :: nat
  avRefreshTtl :: nat
  avAccessTtl :: nat
  avHash :: "string \<Rightarrow> string"
  avSessionId :: id
  avTokenId :: id
  avRawToken :: string
  avSign :: "id \<Rightarrow> id \<Rightarrow> string"
  avVerify :: "string \<Rightarrow> jwt_payload option"

record token_pair =
  tpAccess :: string
  tpRefresh :: string
  tpExpiresIn :: nat
  tpUser :: account_user

abbreviation Unauthorized :: "string \<Rightarrow> string \<Rightarrow> apply_error" where
  "Unauthorized message code \<equiv> AppErr 401 code message"

definition secondsFromNow :: "auth_env \<Rightarrow> nat \<Rightarrow> ms" where
  "secondsFromNow env s = avNow env + int s * 1000"

definition logEvent :: "security_event \<Rightarrow> id option \<Rightarrow> id option \<Rightarrow> auth_db \<Rightarrow> auth_db" where
  "logEvent e u s d = d\<lparr>atEvents := atEvents d @ [(e, u, s)]\<rparr>"

section \<open>Creating a session\<close>

definition newToken :: "auth_env \<Rightarrow> id \<Rightarrow> refresh_row" where
  "newToken env sessionId = \<lparr>rtId = avTokenId env, rtSession = sessionId, rtHash = avHash env (avRawToken env),
     rtExpiresAt = secondsFromNow env (avRefreshTtl env), rtRevokedAt = None, rtReplacedBy = None\<rparr>"

definition tokenPair :: "auth_env \<Rightarrow> id \<Rightarrow> account_user \<Rightarrow> token_pair" where
  "tokenPair env sessionId user = \<lparr>tpAccess = avSign env (auId user) sessionId, tpRefresh = avRawToken env,
     tpExpiresIn = avAccessTtl env, tpUser = user\<rparr>"

definition createSessionWithTokens :: "auth_env \<Rightarrow> id \<Rightarrow> auth_method \<Rightarrow> auth_db
    \<Rightarrow> (apply_error + token_pair) \<times> auth_db" where
  "createSessionWithTokens env userId authMethod d =
     (case tbl_get auId userId (atUsers d) of
        None \<Rightarrow> (Inl (Unauthorized ''User not found'' ''UNAUTHORIZED''), d)
      | Some user \<Rightarrow>
          if auDisabledAt user \<noteq> None then (Inl (Forbidden ''Account disabled'' ''FORBIDDEN''), d)
          else (Inr (tokenPair env (avSessionId env) user),
            logEvent SESSION_CREATED (Some userId) (Some (avSessionId env))
              (d\<lparr>atSessions := atSessions d @ [\<lparr>seId = avSessionId env, seUser = userId, seMethod = authMethod,
                   seExpiresAt = secondsFromNow env (avSessionTtl env), seRevokedAt = None, seLastActiveAt = avNow env\<rparr>],
                 atTokens := atTokens d @ [newToken env (avSessionId env)]\<rparr>)))"

section \<open>Rotating a refresh token\<close>

definition revokeSessionRow :: "id \<Rightarrow> ms \<Rightarrow> session_row list \<Rightarrow> session_row list" where
  "revokeSessionRow i now = map (\<lambda>s. if seId s = i then s\<lparr>seRevokedAt := Some now\<rparr> else s)"

definition revokeTokens :: "id \<Rightarrow> ms \<Rightarrow> refresh_row list \<Rightarrow> refresh_row list" where
  "revokeTokens i now = map (\<lambda>t. if rtSession t = i \<and> rtRevokedAt t = None then t\<lparr>rtRevokedAt := Some now\<rparr> else t)"

definition revokeSessionForReuse :: "auth_env \<Rightarrow> refresh_row \<Rightarrow> auth_db \<Rightarrow> (apply_error + token_pair) \<times> auth_db" where
  "revokeSessionForReuse env existing d =
     (case tbl_get seId (rtSession existing) (atSessions d) of
        None \<Rightarrow> (Inl (OtherErr ''P2025''), d)
      | Some s \<Rightarrow> (Inl (Unauthorized ''Refresh token reuse detected'' ''REFRESH_REUSE''),
          logEvent REFRESH_REUSE_DETECTED (Some (seUser s)) (Some (seId s))
            (d\<lparr>atSessions := revokeSessionRow (seId s) (avNow env) (atSessions d),
               atTokens := revokeTokens (seId s) (avNow env) (atTokens d)\<rparr>)))"

text \<open>What the reads decide: a refusal, the replay of a token, or a token to retire.\<close>

datatype rotation = Refuse apply_error | Replay refresh_row | Retire refresh_row account_user

definition rotateCheck :: "auth_env \<Rightarrow> string \<Rightarrow> auth_db \<Rightarrow> rotation" where
  "rotateCheck env raw d =
     (case tbl_get rtHash (avHash env raw) (atTokens d) of
        None \<Rightarrow> Refuse (Unauthorized ''Invalid refresh token'' ''UNAUTHORIZED'')
      | Some t \<Rightarrow>
          if rtReplacedBy t \<noteq> None then Replay t
          else if rtRevokedAt t \<noteq> None then Refuse (Unauthorized ''Session revoked or expired'' ''UNAUTHORIZED'')
          else if rtExpiresAt t \<le> avNow env then Refuse (Unauthorized ''Refresh token expired'' ''UNAUTHORIZED'')
          else (case tbl_get seId (rtSession t) (atSessions d) of
                  None \<Rightarrow> Refuse (OtherErr ''P2025'')
                | Some s \<Rightarrow>
                    if seRevokedAt s \<noteq> None \<or> seExpiresAt s \<le> avNow env
                    then Refuse (Unauthorized ''Session revoked or expired'' ''UNAUTHORIZED'')
                    else (case tbl_get auId (seUser s) (atUsers d) of
                            None \<Rightarrow> Refuse (OtherErr ''P2025'')
                          | Some u \<Rightarrow> if auDisabledAt u \<noteq> None then Refuse (Forbidden ''Account disabled'' ''FORBIDDEN'')
                                      else Retire t u)))"

text \<open>The transaction: the new token, the compare-and-swap on the old one, or the reuse path when it is lost.\<close>

definition rotateCommit :: "auth_env \<Rightarrow> refresh_row \<Rightarrow> account_user \<Rightarrow> auth_db \<Rightarrow> (apply_error + token_pair) \<times> auth_db" where
  "rotateCommit env existing user d =
     (let wins = (\<lambda>t. rtId t = rtId existing \<and> rtRevokedAt t = None \<and> rtReplacedBy t = None) in
      if length (filter wins (atTokens d)) \<noteq> 1 then revokeSessionForReuse env existing d
      else case tbl_get seId (rtSession existing) (atSessions d) of
        None \<Rightarrow> (Inl (OtherErr ''P2025''), d)
      | Some s \<Rightarrow>
          (Inr (tokenPair env (rtSession existing) user),
           logEvent REFRESH_SUCCEEDED (Some (auId user)) (Some (rtSession existing))
             (d\<lparr>atTokens := map (\<lambda>t. if wins t then t\<lparr>rtRevokedAt := Some (avNow env), rtReplacedBy := Some (avTokenId env)\<rparr> else t)
                  (atTokens d) @ [newToken env (rtSession existing)],
                atSessions := map (\<lambda>x. if seId x = rtSession existing then x\<lparr>seLastActiveAt := avNow env\<rparr> else x)
                  (atSessions d)\<rparr>)))"

definition rotateRefreshToken :: "auth_env \<Rightarrow> string \<Rightarrow> auth_db \<Rightarrow> (apply_error + token_pair) \<times> auth_db" where
  "rotateRefreshToken env raw d =
     (case rotateCheck env raw d of
        Refuse e \<Rightarrow> (Inl e, d)
      | Replay t \<Rightarrow> revokeSessionForReuse env t d
      | Retire t u \<Rightarrow> rotateCommit env t u d)"

definition revokeSession :: "auth_env \<Rightarrow> id \<Rightarrow> id \<Rightarrow> auth_db \<Rightarrow> auth_db" where
  "revokeSession env sessionId userId d =
     (case find (\<lambda>s. seId s = sessionId \<and> seUser s = userId) (atSessions d) of
        None \<Rightarrow> d
      | Some s \<Rightarrow> logEvent SESSION_REVOKED (Some userId) (Some sessionId)
          (d\<lparr>atSessions := (if seRevokedAt s = None then revokeSessionRow sessionId (avNow env) (atSessions d) else atSessions d),
             atTokens := revokeTokens sessionId (avNow env) (atTokens d)\<rparr>))"

section \<open>The gate (require-auth.ts)\<close>

definition sessionLive :: "ms \<Rightarrow> id \<Rightarrow> id \<Rightarrow> auth_db \<Rightarrow> bool" where
  "sessionLive now sessionId userId d \<longleftrightarrow> list_ex (\<lambda>s. seId s = sessionId \<and> seUser s = userId
     \<and> seRevokedAt s = None \<and> seExpiresAt s > now) (atSessions d)"

definition verifyAccessToken :: "auth_env \<Rightarrow> string \<Rightarrow> apply_error + id \<times> id" where
  "verifyAccessToken env token =
     (case avVerify env token of
        None \<Rightarrow> Inl (Unauthorized ''Invalid or expired access token'' ''UNAUTHORIZED'')
      | Some p \<Rightarrow>
          (case (jpTyp p = Some ''access'', jpSub p, jpSid p) of
             (True, Some u, Some s) \<Rightarrow> Inr (u, s)
           | _ \<Rightarrow> Inl (Unauthorized ''Invalid access token'' ''UNAUTHORIZED'')))"

definition bearerPrefix :: string where "bearerPrefix = ''Bearer ''"

definition isSpace :: "char \<Rightarrow> bool" where
  "isSpace c \<longleftrightarrow> c \<in> set [CHR '' '', CHR 0x09, CHR 0x0A, CHR 0x0B, CHR 0x0C, CHR 0x0D]"

definition trimmed :: "string \<Rightarrow> string" where
  "trimmed s = rev (dropWhile isSpace (rev (dropWhile isSpace s)))"

definition requireAuth :: "auth_env \<Rightarrow> string option \<Rightarrow> auth_db \<Rightarrow> apply_error + id \<times> id" where
  "requireAuth env header d =
     (case header of
        None \<Rightarrow> Inl (Unauthorized ''Missing bearer token'' ''UNAUTHORIZED'')
      | Some h \<Rightarrow>
          if take 7 h \<noteq> bearerPrefix \<or> trimmed (drop 7 h) = ''''
          then Inl (Unauthorized ''Missing bearer token'' ''UNAUTHORIZED'')
          else (case verifyAccessToken env (trimmed (drop 7 h)) of
                  Inl e \<Rightarrow> Inl e
                | Inr (u, s) \<Rightarrow>
                    if \<not> sessionLive (avNow env) s u d then
                      (if tbl_get auId u (atUsers d) = None then Inl (AppErr 404 ''NOT_FOUND'' ''Account not found'')
                       else Inl (Unauthorized ''Session revoked or expired'' ''UNAUTHORIZED''))
                    else (case tbl_get auId u (atUsers d) of
                            None \<Rightarrow> Inl (AppErr 404 ''NOT_FOUND'' ''Account not found'')
                          | Some user \<Rightarrow> if auDisabledAt user \<noteq> None then Inl (Forbidden ''Account disabled'' ''FORBIDDEN'')
                              else Inr (u, s))))"

end
