(* ===== verification/SessionProps.thy ===== *)
theory SessionProps
  imports Sessions
begin

text \<open>
  Requests on sessions as a machine: logins, the two halves of a rotation, replays and logouts in
  any order. Two requests may have read the same token before either retires it.
\<close>

definition live :: "refresh_row \<Rightarrow> bool" where
  "live t \<longleftrightarrow> rtRevokedAt t = None \<and> rtReplacedBy t = None"

text \<open>Random ids and tokens do not repeat.\<close>

definition fresh_draws :: "auth_env \<Rightarrow> auth_db \<Rightarrow> bool" where
  "fresh_draws env d \<longleftrightarrow> avTokenId env \<notin> rtId ` set (atTokens d) \<and> avHash env (avRawToken env) \<notin> rtHash ` set (atTokens d)
     \<and> avSessionId env \<notin> seId ` set (atSessions d)"

type_synonym auth_state = "auth_db \<times> (refresh_row \<times> account_user) set"

inductive auth_step :: "auth_state \<Rightarrow> auth_state \<Rightarrow> bool" where
  login: "fresh_draws env d \<Longrightarrow> auth_step (d, P) (snd (createSessionWithTokens env u m d), P)"
| check: "rotateCheck env raw d = Retire t u \<Longrightarrow> auth_step (d, P) (d, insert (t, u) P)"
| replay: "rotateCheck env raw d = Replay t \<Longrightarrow> auth_step (d, P) (snd (revokeSessionForReuse env t d), P)"
| commit: "(t, u) \<in> P \<Longrightarrow> fresh_draws env d \<Longrightarrow> auth_step (d, P) (snd (rotateCommit env t u d), P)"
| logout: "auth_step (d, P) (revokeSession env s u d, P)"

inductive_cases auth_stepE: "auth_step (d, P) s'"

definition auth_ok :: "auth_state \<Rightarrow> bool" where
  "auth_ok s \<longleftrightarrow> (case s of (d, P) \<Rightarrow>
     tbl_ok rtId (atTokens d) \<and> tbl_ok rtHash (atTokens d) \<and> tbl_ok seId (atSessions d)
     \<and> (\<forall>t \<in> set (atTokens d). rtSession t \<in> seId ` set (atSessions d))
     \<and> (\<forall>t \<in> set (atTokens d). \<forall>t' \<in> set (atTokens d). live t \<and> live t' \<and> rtSession t = rtSession t' \<longrightarrow> t = t')
     \<and> (\<forall>(t, u) \<in> P. \<exists>t' \<in> set (atTokens d). rtId t' = rtId t \<and> rtSession t' = rtSession t))"

text \<open>A session that is over: revoked, with no live token.\<close>

definition session_over :: "id \<Rightarrow> auth_db \<Rightarrow> bool" where
  "session_over i d \<longleftrightarrow> i \<in> seId ` set (atSessions d)
     \<and> (\<forall>s \<in> set (atSessions d). seId s = i \<longrightarrow> seRevokedAt s \<noteq> None)
     \<and> (\<forall>t \<in> set (atTokens d). rtSession t = i \<longrightarrow> \<not> live t)"

lemmas auth_defs = auth_ok_def session_over_def live_def logEvent_def revokeTokens_def revokeSessionRow_def

lemma auth_okI:
  assumes "tbl_ok rtId (atTokens d)" "tbl_ok rtHash (atTokens d)" "tbl_ok seId (atSessions d)"
    and "\<And>t. t \<in> set (atTokens d) \<Longrightarrow> rtSession t \<in> seId ` set (atSessions d)"
    and "\<And>t t'. t \<in> set (atTokens d) \<Longrightarrow> t' \<in> set (atTokens d) \<Longrightarrow> live t \<Longrightarrow> live t' \<Longrightarrow> rtSession t = rtSession t' \<Longrightarrow> t = t'"
    and "\<And>t u. (t, u) \<in> P \<Longrightarrow> \<exists>t' \<in> set (atTokens d). rtId t' = rtId t \<and> rtSession t' = rtSession t"
  shows "auth_ok (d, P)"
  using assms unfolding auth_ok_def by auto

lemma auth_okD:
  assumes "auth_ok (d, P)"
  shows "tbl_ok rtId (atTokens d)" "tbl_ok rtHash (atTokens d)" "tbl_ok seId (atSessions d)"
    and "t \<in> set (atTokens d) \<Longrightarrow> rtSession t \<in> seId ` set (atSessions d)"
    and "t \<in> set (atTokens d) \<Longrightarrow> t' \<in> set (atTokens d) \<Longrightarrow> live t \<Longrightarrow> live t' \<Longrightarrow> rtSession t = rtSession t' \<Longrightarrow> t = t'"
    and "(t, u) \<in> P \<Longrightarrow> \<exists>t' \<in> set (atTokens d). rtId t' = rtId t \<and> rtSession t' = rtSession t"
  using assms unfolding auth_ok_def by fast+

section \<open>Each operation keeps the shape\<close>

text \<open>Changing the rows of a table in place, by a change that keeps ids and sessions and revives no token.\<close>

definition quiet_change :: "auth_db \<Rightarrow> auth_db \<Rightarrow> bool" where
  "quiet_change d d' \<longleftrightarrow> (\<exists>f g. atTokens d' = map f (atTokens d) \<and> atSessions d' = map g (atSessions d)
     \<and> (\<forall>t. rtId (f t) = rtId t \<and> rtHash (f t) = rtHash t \<and> rtSession (f t) = rtSession t
          \<and> (live (f t) \<longrightarrow> f t = t) \<and> (rtReplacedBy t \<noteq> None \<longrightarrow> rtReplacedBy (f t) = rtReplacedBy t) \<and> (rtRevokedAt t \<noteq> None \<longrightarrow> rtRevokedAt (f t) \<noteq> None))
     \<and> (\<forall>s. seId (g s) = seId s \<and> (seRevokedAt s \<noteq> None \<longrightarrow> seRevokedAt (g s) \<noteq> None)))"

lemma quiet_refl: "quiet_change d d"
  unfolding quiet_change_def by (intro exI [of _ id]) simp

lemma quiet_ok:
  assumes "quiet_change d d'" "auth_ok (d, P)"
  shows "auth_ok (d', P)"
proof -
  obtain f g where fg: "atTokens d' = map f (atTokens d) \<and> atSessions d' = map g (atSessions d)
     \<and> (\<forall>t. rtId (f t) = rtId t \<and> rtHash (f t) = rtHash t \<and> rtSession (f t) = rtSession t
          \<and> (live (f t) \<longrightarrow> f t = t) \<and> (rtReplacedBy t \<noteq> None \<longrightarrow> rtReplacedBy (f t) = rtReplacedBy t) \<and> (rtRevokedAt t \<noteq> None \<longrightarrow> rtRevokedAt (f t) \<noteq> None))
     \<and> (\<forall>s. seId (g s) = seId s \<and> (seRevokedAt s \<noteq> None \<longrightarrow> seRevokedAt (g s) \<noteq> None))"
    using assms(1) unfolding quiet_change_def by blast
  have f: "atTokens d' = map f (atTokens d)" "atSessions d' = map g (atSessions d)"
    "\<And>t. rtId (f t) = rtId t" "\<And>t. rtHash (f t) = rtHash t" "\<And>t. rtSession (f t) = rtSession t"
    "\<And>t. live (f t) \<Longrightarrow> f t = t" "\<And>t. rtReplacedBy t \<noteq> None \<Longrightarrow> rtReplacedBy (f t) = rtReplacedBy t"
    "\<And>t. rtRevokedAt t \<noteq> None \<Longrightarrow> rtRevokedAt (f t) \<noteq> None" "\<And>s. seId (g s) = seId s"
    using fg by simp_all
  note ok = auth_okD [OF assms(2)]
  have ids: "seId ` set (map g ss) = seId ` set ss" for ss by (simp add: image_image f(9))
  have keys: "rtId \<circ> f = rtId" "rtHash \<circ> f = rtHash" "seId \<circ> g = seId" by (simp_all add: fun_eq_iff f(3,4,9))
  show ?thesis
  proof (rule auth_okI)
    show "tbl_ok rtId (atTokens d')" "tbl_ok rtHash (atTokens d')" "tbl_ok seId (atSessions d')"
      using ok(1-3) by (simp_all add: f(1,2) keys)
    show "rtSession t \<in> seId ` set (atSessions d')" if t: "t \<in> set (atTokens d')" for t
    proof -
      obtain x where "x \<in> set (atTokens d)" "t = f x" using t f(1) by auto
      then show ?thesis using ok(4) [of x] by (simp add: f(2,5) ids [simplified])
    qed
    show "t = t'" if t: "t \<in> set (atTokens d')" "t' \<in> set (atTokens d')" "live t" "live t'" "rtSession t = rtSession t'" for t t'
    proof -
      obtain x y where "x \<in> set (atTokens d)" "t = f x" "y \<in> set (atTokens d)" "t' = f y" using t(1,2) f(1) by auto
      then show ?thesis using t(3-5) f(6) ok(5) by metis
    qed
    show "\<exists>t' \<in> set (atTokens d'). rtId t' = rtId t \<and> rtSession t' = rtSession t" if tu: "(t, u) \<in> P" for t u
    proof -
      obtain x where "x \<in> set (atTokens d)" "rtId x = rtId t" "rtSession x = rtSession t" using ok(6) [OF tu] by blast
      then show ?thesis by (intro bexI [of _ "f x"]) (simp_all add: f(1,3,5))
    qed
  qed
qed

lemma quiet_over:
  assumes "quiet_change d d'" "session_over i d"
  shows "session_over i d'"
  using assms unfolding quiet_change_def session_over_def
  by (auto simp: image_iff) metis+

lemma quiet_reuse: "quiet_change d (snd (revokeSessionForReuse env t d))"
proof (cases "tbl_get seId (rtSession t) (atSessions d)")
  case None
  then show ?thesis by (simp add: revokeSessionForReuse_def quiet_refl)
next
  case (Some s)
  then show ?thesis
    unfolding quiet_change_def revokeSessionForReuse_def
    by (intro exI [of _ "\<lambda>x. if rtSession x = seId s \<and> rtRevokedAt x = None then x\<lparr>rtRevokedAt := Some (avNow env)\<rparr> else x"]
          exI [of _ "\<lambda>x. if seId x = seId s then x\<lparr>seRevokedAt := Some (avNow env)\<rparr> else x"])
       (auto simp: logEvent_def revokeTokens_def revokeSessionRow_def live_def)
qed

lemma quiet_logout: "quiet_change d (revokeSession env i u d)"
proof (cases "find (\<lambda>s. seId s = i \<and> seUser s = u) (atSessions d)")
  case None
  then show ?thesis by (simp add: revokeSession_def quiet_refl)
next
  case (Some s)
  then show ?thesis
    unfolding quiet_change_def revokeSession_def
    by (intro exI [of _ "\<lambda>x. if rtSession x = i \<and> rtRevokedAt x = None then x\<lparr>rtRevokedAt := Some (avNow env)\<rparr> else x"]
          exI [of _ "\<lambda>x. if seRevokedAt s = None \<and> seId x = i then x\<lparr>seRevokedAt := Some (avNow env)\<rparr> else x"])
       (auto simp: logEvent_def revokeTokens_def revokeSessionRow_def live_def)
qed

text \<open>A new token with a session of its own, or the successor of the only live token of its session.\<close>

lemma add_token_ok:
  assumes "auth_ok (d, P)" "rtId n \<notin> rtId ` set (atTokens d)" "rtHash n \<notin> rtHash ` set (atTokens d)"
    and "atTokens d' = atTokens d @ [n]" "tbl_ok seId (atSessions d')" "seId ` set (atSessions d) \<subseteq> seId ` set (atSessions d')"
    and "rtSession n \<in> seId ` set (atSessions d')"
    and "\<And>t. t \<in> set (atTokens d) \<Longrightarrow> live t \<Longrightarrow> rtSession t \<noteq> rtSession n"
  shows "auth_ok (d', P)"
proof (rule auth_okI)
  note ok = auth_okD [OF assms(1)]
  show "tbl_ok rtId (atTokens d')" "tbl_ok rtHash (atTokens d')" using ok(1,2) assms(2-4) by simp_all
  show "tbl_ok seId (atSessions d')" by (rule assms(5))
  show "rtSession t \<in> seId ` set (atSessions d')" if "t \<in> set (atTokens d')" for t
    using that ok(4) [of t] assms(4,6,7) by auto
  show "t = t'" if "t \<in> set (atTokens d')" "t' \<in> set (atTokens d')" "live t" "live t'" "rtSession t = rtSession t'" for t t'
  proof (cases "t = n"; cases "t' = n")
    assume "t \<noteq> n" "t' \<noteq> n"
    then show ?thesis using that ok(5) [of t t'] by (simp add: assms(4))
  qed (use that assms(8) [of t] assms(8) [of t'] in \<open>simp_all add: assms(4)\<close>)
  show "\<exists>t' \<in> set (atTokens d'). rtId t' = rtId t \<and> rtSession t' = rtSession t" if "(t, u) \<in> P" for t u
    using ok(6) [OF that] assms(4) by auto
qed

lemma login_ok:
  assumes "auth_ok (d, P)" "fresh_draws env d"
  shows "auth_ok (snd (createSessionWithTokens env u m d), P)
    \<and> (session_over i d \<longrightarrow> session_over i (snd (createSessionWithTokens env u m d)))"
proof -
  let ?d = "snd (createSessionWithTokens env u m d)"
  note ok = auth_okD [OF assms(1)]
  have fresh: "avTokenId env \<notin> rtId ` set (atTokens d)" "avHash env (avRawToken env) \<notin> rtHash ` set (atTokens d)"
    "avSessionId env \<notin> seId ` set (atSessions d)" using assms(2) by (auto simp: fresh_draws_def)
  consider "?d = d" | s where "atTokens ?d = atTokens d @ [newToken env (avSessionId env)]"
      "atSessions ?d = atSessions d @ [s]" "seId s = avSessionId env"
  proof (cases "tbl_get auId u (atUsers d)")
    case None
    then have "?d = d" by (simp add: createSessionWithTokens_def)
    then show ?thesis by (rule that(1))
  next
    case (Some user)
    show ?thesis
    proof (cases "auDisabledAt user")
      case None
      show ?thesis
        by (rule that(2) [of "\<lparr>seId = avSessionId env, seUser = u, seMethod = m,
              seExpiresAt = secondsFromNow env (avSessionTtl env), seRevokedAt = None, seLastActiveAt = avNow env\<rparr>"])
           (simp_all add: createSessionWithTokens_def logEvent_def Some None)
    next
      case (Some x)
      with \<open>tbl_get auId u (atUsers d) = Some user\<close> have "?d = d" by (simp add: createSessionWithTokens_def)
      then show ?thesis by (rule that(1))
    qed
  qed
  then show ?thesis
  proof cases
    case 1
    with assms(1) show ?thesis by simp
  next
    case 2
    have "rtSession t \<noteq> avSessionId env" if "t \<in> set (atTokens d)" for t using ok(4) [OF that] fresh(3) by auto
    then have "auth_ok (?d, P)"
      by (intro add_token_ok [OF assms(1) _ _ 2(1)]) (use fresh ok(3) 2(2,3) in \<open>auto simp: newToken_def\<close>)
    moreover have "session_over i ?d" if "session_over i d"
      using that fresh(3) 2 by (auto simp: session_over_def newToken_def)
    ultimately show ?thesis by blast
  qed
qed

lemma commit_cases:
  assumes "rotateCommit env t u d = r"
  obtains "snd r = snd (revokeSessionForReuse env t d)" | "snd r = d"
  | w s where "filter (\<lambda>x. rtId x = rtId t \<and> live x) (atTokens d) = [w]"
      "tbl_get seId (rtSession t) (atSessions d) = Some s"
      "atTokens (snd r) = map (\<lambda>x. if rtId x = rtId t \<and> live x
          then x\<lparr>rtRevokedAt := Some (avNow env), rtReplacedBy := Some (avTokenId env)\<rparr> else x) (atTokens d)
        @ [newToken env (rtSession t)]"
      "atSessions (snd r) = map (\<lambda>x. if seId x = rtSession t then x\<lparr>seLastActiveAt := avNow env\<rparr> else x) (atSessions d)"
proof -
  let ?wins = "\<lambda>x. rtId x = rtId t \<and> live x"
  have eq: "rotateCommit env t u d = (if length (filter ?wins (atTokens d)) \<noteq> 1 then revokeSessionForReuse env t d
      else case tbl_get seId (rtSession t) (atSessions d) of
        None \<Rightarrow> (Inl (OtherErr ''P2025''), d)
      | Some s \<Rightarrow>
          (Inr (tokenPair env (rtSession t) u),
           logEvent REFRESH_SUCCEEDED (Some (auId u)) (Some (rtSession t))
             (d\<lparr>atTokens := map (\<lambda>x. if ?wins x then x\<lparr>rtRevokedAt := Some (avNow env), rtReplacedBy := Some (avTokenId env)\<rparr> else x)
                  (atTokens d) @ [newToken env (rtSession t)],
                atSessions := map (\<lambda>x. if seId x = rtSession t then x\<lparr>seLastActiveAt := avNow env\<rparr> else x)
                  (atSessions d)\<rparr>)))"
    unfolding rotateCommit_def Let_def live_def by (rule refl)
  show thesis
  proof (cases "length (filter ?wins (atTokens d)) = 1")
    case False
    then show thesis using eq assms that(1) by simp
  next
    case one: True
    then obtain w where w: "filter ?wins (atTokens d) = [w]" by (auto simp: length_Suc_conv)
    show thesis
    proof (cases "tbl_get seId (rtSession t) (atSessions d)")
      case None
      then show thesis using eq one assms that(2) by simp
    next
      case (Some s)
      show thesis by (rule that(3) [OF w Some]) (use eq one assms Some in \<open>simp_all add: logEvent_def\<close>)
    qed
  qed
qed

lemma commit_ok:
  assumes "auth_ok (d, P)" "fresh_draws env d" "(t, u) \<in> P"
  shows "auth_ok (snd (rotateCommit env t u d), P)
    \<and> (session_over i d \<longrightarrow> session_over i (snd (rotateCommit env t u d)))"
proof (rule commit_cases [OF refl, of env t u d])
  assume "snd (rotateCommit env t u d) = snd (revokeSessionForReuse env t d)"
  then show ?thesis using quiet_ok [OF quiet_reuse assms(1)] quiet_over [OF quiet_reuse] by metis
next
  assume "snd (rotateCommit env t u d) = d"
  then show ?thesis using assms(1) by simp
next
  let ?d = "snd (rotateCommit env t u d)"
  let ?wins = "\<lambda>x. rtId x = rtId t \<and> live x"
  let ?f = "\<lambda>x. if ?wins x then x\<lparr>rtRevokedAt := Some (avNow env), rtReplacedBy := Some (avTokenId env)\<rparr> else x"
  let ?g = "\<lambda>x. if seId x = rtSession t then x\<lparr>seLastActiveAt := avNow env\<rparr> else x"
  fix w s
  assume w: "filter ?wins (atTokens d) = [w]" and s: "tbl_get seId (rtSession t) (atSessions d) = Some s"
    and d': "atTokens ?d = map ?f (atTokens d) @ [newToken env (rtSession t)]" "atSessions ?d = map ?g (atSessions d)"
  note ok = auth_okD [OF assms(1)]
  define d1 where "d1 = d\<lparr>atTokens := map ?f (atTokens d), atSessions := map ?g (atSessions d)\<rparr>"
  have d1: "atTokens d1 = map ?f (atTokens d)" "atSessions d1 = map ?g (atSessions d)" by (simp_all add: d1_def)
  have "w \<in> set (filter ?wins (atTokens d))" by (simp add: w)
  then have w_in: "w \<in> set (atTokens d)" "rtId w = rtId t" "live w" by auto
  have w_session: "rtSession w = rtSession t"
  proof -
    obtain t' where "t' \<in> set (atTokens d)" "rtId t' = rtId t" "rtSession t' = rtSession t"
      using ok(6) [OF assms(3)] by blast
    then show ?thesis using ok(1) w_in(1,2) by (metis distinct_map inj_on_eq_iff)
  qed
  have keys: "rtId \<circ> ?f = rtId" "rtHash \<circ> ?f = rtHash" "seId \<circ> ?g = seId" by (simp_all add: fun_eq_iff)
  have keep: "rtId ` set (atTokens d1) = rtId ` set (atTokens d)" "rtHash ` set (atTokens d1) = rtHash ` set (atTokens d)"
    "seId ` set (atSessions d1) = seId ` set (atSessions d)"
    by (simp_all only: d1 set_map image_comp keys)
  have quiet: "quiet_change d d1"
    unfolding quiet_change_def by (intro exI [of _ ?f] exI [of _ ?g]) (simp add: d1 live_def)
  have alone: "rtSession x \<noteq> rtSession t" if x: "x \<in> set (atTokens d1)" "live x" for x
  proof
    assume eq: "rtSession x = rtSession t"
    obtain y where y: "y \<in> set (atTokens d)" "x = ?f y" using x(1) d1(1) by auto
    have "y = w" using ok(5) [OF y(1) w_in(1)] x(2) y(2) eq w_in(3) w_session by (auto simp: live_def split: if_splits)
    then show False using x(2) y(2) w_in by (simp add: live_def)
  qed
  have "auth_ok (?d, P)"
  proof (rule add_token_ok [OF quiet_ok [OF quiet assms(1)]])
    show "atTokens ?d = atTokens d1 @ [newToken env (rtSession t)]" using d'(1) d1(1) by simp
    show "tbl_ok seId (atSessions ?d)" unfolding d'(2) map_map keys(3) by (rule ok(3))
    show "seId ` set (atSessions d1) \<subseteq> seId ` set (atSessions ?d)" using d'(2) d1(2) by simp
    show "rtSession (newToken env (rtSession t)) \<in> seId ` set (atSessions ?d)"
      using s d'(2) d1(2) keep(3) by (metis newToken_def refresh_row.select_convs(2) tbl_get_None option.distinct(1))
    show "rtId (newToken env (rtSession t)) \<notin> rtId ` set (atTokens d1)"
      "rtHash (newToken env (rtSession t)) \<notin> rtHash ` set (atTokens d1)"
      using assms(2) keep(1,2) by (simp_all add: newToken_def fresh_draws_def)
    show "rtSession x \<noteq> rtSession (newToken env (rtSession t))" if "x \<in> set (atTokens d1)" "live x" for x
      using alone [OF that] by (simp add: newToken_def)
  qed
  moreover have "session_over i ?d" if over: "session_over i d"
  proof -
    have "rtSession t \<noteq> i" using over w_in(1,3) w_session by (auto simp: session_over_def)
    moreover have "atTokens ?d = atTokens d1 @ [newToken env (rtSession t)]" "atSessions ?d = atSessions d1"
      using d' d1 by simp_all
    moreover note quiet_over [OF quiet over]
    ultimately show ?thesis unfolding session_over_def by (simp add: newToken_def)
  qed
  ultimately show ?thesis by blast
qed

section \<open>Reachable states\<close>

lemma step_keeps:
  assumes "auth_step (d, P) s'" "auth_ok (d, P)"
  shows "auth_ok s' \<and> (session_over i d \<longrightarrow> session_over i (fst s'))"
  using assms(1)
proof (rule auth_stepE)
  fix env u m
  assume "s' = (snd (createSessionWithTokens env u m d), P)" "fresh_draws env d"
  then show ?thesis using login_ok [OF assms(2), of env u m i] by simp
next
  fix env raw t u
  assume s': "s' = (d, insert (t, u) P)" and check: "rotateCheck env raw d = Retire t u"
  have "t \<in> set (atTokens d)"
    using check by (auto simp: rotateCheck_def split: option.splits if_splits dest: tbl_get_in)
  then have "auth_ok s'" using assms(2) unfolding s' auth_ok_def by auto
  with s' show ?thesis by simp
next
  fix env raw t
  assume "s' = (snd (revokeSessionForReuse env t d), P)"
  then show ?thesis using quiet_ok [OF quiet_reuse assms(2)] quiet_over [OF quiet_reuse] by simp
next
  fix t u env
  assume "s' = (snd (rotateCommit env t u d), P)" "(t, u) \<in> P" "fresh_draws env d"
  then show ?thesis using commit_ok [OF assms(2), of env t u i] by simp
next
  fix env s u
  assume "s' = (revokeSession env s u d, P)"
  then show ?thesis using quiet_ok [OF quiet_logout assms(2)] quiet_over [OF quiet_logout] by simp
qed

lemma steps_keep:
  assumes "auth_step\<^sup>*\<^sup>* s s'" "auth_ok s"
  shows "auth_ok s' \<and> (session_over i (fst s) \<longrightarrow> session_over i (fst s'))"
  using assms(1)
proof (induction rule: rtranclp_induct)
  case base
  then show ?case using assms(2) by simp
next
  case (step y z)
  obtain d P where "y = (d, P)" by (cases y)
  with step step_keeps [of d P z i] show ?case by simp
qed

lemma over_not_live: "session_over i d \<Longrightarrow> \<not> sessionLive now i u d"
  by (auto simp: session_over_def sessionLive_def list_ex_iff)

lemma auth_needs_session: "requireAuth env h d = Inr (u, i) \<Longrightarrow> sessionLive (avNow env) i u d"
  by (auto simp: requireAuth_def split: option.splits if_splits prod.splits sum.splits)

lemma over_refuses:
  assumes "session_over i d" "tbl_get rtHash (avHash env raw) (atTokens d) = Some t" "rtSession t = i"
  shows "isl (fst (rotateRefreshToken env raw d))"
proof -
  have "\<not> live t" using assms tbl_get_in [OF assms(2)] by (auto simp: session_over_def)
  then show ?thesis
    using assms(2) by (auto simp: rotateRefreshToken_def rotateCheck_def live_def revokeSessionForReuse_def split: option.splits)
qed

lemma replay_ends:
  assumes "auth_ok (d, P)" "tbl_get rtHash (avHash env raw) (atTokens d) = Some t" "rtReplacedBy t \<noteq> None"
  shows "fst (rotateRefreshToken env raw d) = Inl (Unauthorized ''Refresh token reuse detected'' ''REFRESH_REUSE'')"
    and "session_over (rtSession t) (snd (rotateRefreshToken env raw d))"
    and "auth_step (d, P) (snd (rotateRefreshToken env raw d), P)"
proof -
  have check: "rotateCheck env raw d = Replay t" using assms(2,3) by (simp add: rotateCheck_def)
  have t: "t \<in> set (atTokens d)" by (rule tbl_get_in [OF assms(2)])
  then have "rtSession t \<in> seId ` set (atSessions d)" by (rule auth_okD(4) [OF assms(1)])
  then obtain s where s: "tbl_get seId (rtSession t) (atSessions d) = Some s" using tbl_get_None by (metis not_Some_eq)
  have sid: "seId s = rtSession t" "s \<in> set (atSessions d)" using tbl_get_key [OF s] tbl_get_in [OF s] by simp_all
  have eq: "rotateRefreshToken env raw d = revokeSessionForReuse env t d" by (simp add: rotateRefreshToken_def check)
  show "fst (rotateRefreshToken env raw d) = Inl (Unauthorized ''Refresh token reuse detected'' ''REFRESH_REUSE'')"
    by (simp add: eq revokeSessionForReuse_def s)
  let ?d = "snd (rotateRefreshToken env raw d)"
  have d': "atTokens ?d = map (\<lambda>x. if rtSession x = rtSession t \<and> rtRevokedAt x = None
        then x\<lparr>rtRevokedAt := Some (avNow env)\<rparr> else x) (atTokens d)"
    "atSessions ?d = map (\<lambda>x. if seId x = rtSession t then x\<lparr>seRevokedAt := Some (avNow env)\<rparr> else x) (atSessions d)"
    by (simp_all add: eq revokeSessionForReuse_def s logEvent_def revokeTokens_def revokeSessionRow_def sid)
  have "seId ` set (atSessions ?d) = seId ` set (atSessions d)"
    unfolding d' set_map image_image by (rule image_cong) simp_all
  then have "rtSession t \<in> seId ` set (atSessions ?d)" using sid by force
  moreover have "\<forall>x \<in> set (atSessions ?d). seId x = rtSession t \<longrightarrow> seRevokedAt x \<noteq> None" unfolding d' by auto
  moreover have "\<forall>x \<in> set (atTokens ?d). rtSession x = rtSession t \<longrightarrow> \<not> live x" unfolding d' live_def by auto
  ultimately show "session_over (rtSession t) ?d" by (simp add: session_over_def)
  show "auth_step (d, P) (snd (rotateRefreshToken env raw d), P)" unfolding eq by (rule auth_step.replay [OF check])
qed

text \<open>C35. Whatever logins, rotations, interleaved or not, replays and logouts came first: a session
  has at most one refresh token that can still be used, and whoever presents a token that was
  already exchanged is told so and ends the session. From then on, whatever follows, no access
  token of that session opens a route and none of its refresh tokens gives a new one.\<close>

theorem stolen_token_ends_session:
  assumes "atTokens d0 = []" "atSessions d0 = []" "auth_step\<^sup>*\<^sup>* (d0, {}) (d, P)"
    and "tbl_get rtHash (avHash env raw) (atTokens d) = Some t" "rtReplacedBy t \<noteq> None"
    and "auth_step\<^sup>*\<^sup>* (snd (rotateRefreshToken env raw d), P) (d', P')"
  shows "(\<forall>x \<in> set (atTokens d). \<forall>y \<in> set (atTokens d). live x \<and> live y \<and> rtSession x = rtSession y \<longrightarrow> x = y)
    \<and> fst (rotateRefreshToken env raw d) = Inl (Unauthorized ''Refresh token reuse detected'' ''REFRESH_REUSE'')
    \<and> (\<forall>env' header u i. requireAuth env' header d' = Inr (u, i) \<longrightarrow> i \<noteq> rtSession t)
    \<and> (\<forall>env' raw' x. tbl_get rtHash (avHash env' raw') (atTokens d') = Some x \<and> rtSession x = rtSession t
         \<longrightarrow> isl (fst (rotateRefreshToken env' raw' d')))"
proof -
  have "auth_ok (d0, {})" using assms(1,2) by (simp add: auth_ok_def)
  with steps_keep [OF assms(3)] have ok: "auth_ok (d, P)" by blast
  note ends = replay_ends [OF ok assms(4,5)]
  have "auth_ok (snd (rotateRefreshToken env raw d), P)" using step_keeps [OF ends(3) ok] by blast
  with steps_keep [OF assms(6)] ends(2) have over: "session_over (rtSession t) d'" by auto
  show ?thesis
    using auth_okD(5) [OF ok] ends(1) over_not_live [OF over] auth_needs_session over_refuses [OF over] by blast
qed

definition sample_auth :: "nat \<Rightarrow> auth_env" where
  "sample_auth n = \<lparr>avNow = 1000, avSessionTtl = 1000, avRefreshTtl = 900, avAccessTtl = 60, avHash = (\<lambda>s. s),
     avSessionId = replicate n CHR ''s'', avTokenId = replicate n CHR ''t'', avRawToken = replicate n CHR ''r'',
     avSign = (\<lambda>u s. u), avVerify = (\<lambda>s. None)\<rparr>"

definition sample_auth_db :: auth_db where
  "sample_auth_db = \<lparr>atUsers = [\<lparr>auId = ''u'', auEmail = ''e'', auDisabledAt = None\<rparr>], atSessions = [], atTokens = [], atEvents = []\<rparr>"

definition sample_logged_in :: auth_db where
  "sample_logged_in = snd (createSessionWithTokens (sample_auth 1) ''u'' EMAIL_OTP sample_auth_db)"

definition sample_rotated :: auth_db where
  "sample_rotated = snd (rotateRefreshToken (sample_auth 2) ''r'' sample_logged_in)"

lemmas sample_session_defs = sample_auth_def sample_auth_db_def sample_logged_in_def sample_rotated_def createSessionWithTokens_def
  logEvent_def newToken_def rotateRefreshToken_def rotateCheck_def rotateCommit_def tbl_get_def secondsFromNow_def numeral_2_eq_2

lemma sample_rotation:
  shows "auth_step\<^sup>*\<^sup>* (sample_auth_db, {}) (sample_rotated, {(hd (atTokens sample_logged_in), hd (atUsers sample_logged_in))})"
    and "tbl_get rtHash (avHash (sample_auth 3) ''r'') (atTokens sample_rotated) = Some (hd (atTokens sample_rotated))"
    and "rtReplacedBy (hd (atTokens sample_rotated)) = Some ''tt''"
    and "length (filter live (atTokens sample_rotated)) = 1" "rtSession (hd (atTokens sample_rotated)) = ''s''"
proof -
  let ?t = "hd (atTokens sample_logged_in)" and ?u = "hd (atUsers sample_logged_in)"
  have "auth_step (sample_auth_db, {}) (sample_logged_in, {})"
    unfolding sample_logged_in_def by (rule auth_step.login) (simp add: fresh_draws_def sample_auth_db_def)
  moreover have "auth_step (sample_logged_in, {}) (sample_logged_in, insert (?t, ?u) {})"
    by (rule auth_step.check [of "sample_auth 2" "''r''"]) (simp add: sample_session_defs)
  moreover have "snd (rotateCommit (sample_auth 2) ?t ?u sample_logged_in) = sample_rotated"
    by (simp add: sample_session_defs)
  moreover have "auth_step (sample_logged_in, {(?t, ?u)}) (snd (rotateCommit (sample_auth 2) ?t ?u sample_logged_in), {(?t, ?u)})"
    by (rule auth_step.commit) (simp_all add: fresh_draws_def sample_session_defs)
  ultimately show "auth_step\<^sup>*\<^sup>* (sample_auth_db, {}) (sample_rotated, {(?t, ?u)})"
    by (metis rtranclp.rtrancl_into_rtrancl rtranclp.rtrancl_refl)
  show "tbl_get rtHash (avHash (sample_auth 3) ''r'') (atTokens sample_rotated) = Some (hd (atTokens sample_rotated))"
    "rtReplacedBy (hd (atTokens sample_rotated)) = Some ''tt''" "length (filter live (atTokens sample_rotated)) = 1"
    "rtSession (hd (atTokens sample_rotated)) = ''s''"
    by (simp_all add: sample_session_defs live_def)
qed

theorem stolen_token_ends_session_witness:
  "fst (rotateRefreshToken (sample_auth 3) ''r'' sample_rotated) = Inl (Unauthorized ''Refresh token reuse detected'' ''REFRESH_REUSE'')
   \<and> length (filter live (atTokens sample_rotated)) = 1"
  using stolen_token_ends_session [of sample_auth_db sample_rotated _ "sample_auth 3" "''r''",
      OF _ _ sample_rotation(1,2) _ rtranclp.rtrancl_refl] sample_rotation(3,4)
  by (simp add: sample_auth_db_def)

end
