(* ===== verification/SyncHandlers.thy ===== *)
theory SyncHandlers
  imports ServerDevices RateLimit Sessions
begin

text \<open>
  The HTTP interface of the sync service: the routes of sync/router.ts, their handlers
  (sync.handler.ts, media.handler.ts) and the error handler (error-handler.ts, http.ts).

  \<open>backend\<close> is the state of one deployment: the sync tables with the Redis marks, the account
  tables, the session tables and the rate limiter. (The user table is in each of them with the
  columns that component reads.) A handler is a computation on it that ends in an error or in a
  reply; what it changed before an error stays changed, as in the code. The messages that a push
  publishes and the devices to disconnect are part of the reply.
\<close>

record backend =
  bkServer :: server
  bkAccounts :: account_db
  bkAuth :: auth_db
  bkLimiter :: limiter

record call =
  caHost :: host
  caStore :: r2
  caMid :: "nat \<Rightarrow> string"
  caAuth :: auth_env
  caAccount :: account_env
  caNow :: ms
  caProduction :: bool

record http_request =
  rqAuthorization :: "string option"
  rqUserAgent :: "string option"
  rqBody :: jsv

datatype reply =
    Envelope envelope "fanout_msg list"
  | Devices "device_row list"
  | Revoked bool "(id \<times> id) option"
  | Uploads "media_upload_result list"
  | Downloads "media_download_result list"

section \<open>Computations on the backend\<close>

type_synonym 'a handler = "backend \<Rightarrow> (apply_error + 'a) \<times> backend"

definition andThen :: "'a handler \<Rightarrow> ('a \<Rightarrow> 'b handler) \<Rightarrow> 'b handler" where
  "andThen m f b = (case m b of (Inl e, b1) \<Rightarrow> (Inl e, b1) | (Inr x, b1) \<Rightarrow> f x b1)"

definition ret :: "'a \<Rightarrow> 'a handler" where
  "ret x b = (Inr x, b)"

definition check :: "apply_error + 'a \<Rightarrow> 'a handler" where
  "check r b = (r, b)"

text \<open>A call on the sync data base: an error leaves it as it was.\<close>

definition onDb :: "(db \<Rightarrow> apply_error + 'a \<times> db) \<Rightarrow> 'a handler" where
  "onDb f b = (case f (srvDb (bkServer b)) of
     Inl e \<Rightarrow> (Inl e, b)
   | Inr (x, d) \<Rightarrow> (Inr x, b\<lparr>bkServer := (bkServer b)\<lparr>srvDb := d\<rparr>\<rparr>))"

definition unitDb :: "apply_error + db \<Rightarrow> apply_error + unit \<times> db" where
  "unitDb r = (case r of Inl e \<Rightarrow> Inl e | Inr d \<Rightarrow> Inr ((), d))"

definition requirePro :: "call \<Rightarrow> id \<Rightarrow> unit handler" where
  "requirePro c u b = (case assertPlan (caAccount c) u PRO (bkAccounts b) of
     (Some e, d) \<Rightarrow> (Inl e, b\<lparr>bkAccounts := d\<rparr>)
   | (None, d) \<Rightarrow> (Inr (), b\<lparr>bkAccounts := d\<rparr>))"

definition limited :: "(limiter \<Rightarrow> apply_error option \<times> limiter) \<Rightarrow> unit handler" where
  "limited f b = (case f (bkLimiter b) of
     (Some e, l) \<Rightarrow> (Inl e, b\<lparr>bkLimiter := l\<rparr>)
   | (None, l) \<Rightarrow> (Inr (), b\<lparr>bkLimiter := l\<rparr>))"

section \<open>What every handler starts with\<close>

definition requireAuthUser :: "id option \<Rightarrow> apply_error + id" where
  "requireAuthUser auth = (case auth of
     None \<Rightarrow> Inl (BadRequest ''Unauthorized'' ''UNAUTHORIZED'')
   | Some u \<Rightarrow> if u = '''' then Inl (BadRequest ''Unauthorized'' ''UNAUTHORIZED'') else Inr u)"

definition parseBody :: "(jsv \<Rightarrow> 'b option) \<Rightarrow> jsv \<Rightarrow> apply_error + 'b" where
  "parseBody schema body = (case schema body of
     None \<Rightarrow> Inl (BadRequest ''Invalid request body'' ''VALIDATION_ERROR'') | Some b \<Rightarrow> Inr b)"

definition intToString :: "int \<Rightarrow> string" where
  "intToString n = (if n < 0 then CHR ''-'' # natToString (nat (- n)) else natToString (nat n))"

definition unsupportedVersion :: "int \<Rightarrow> apply_error" where
  "unsupportedVersion v = BadRequest (''Unsupported protocol version '' @ intToString v) ''PROTOCOL_MISMATCH''"

definition assertValidRequest :: "host \<Rightarrow> envelope \<Rightarrow> apply_error + unit" where
  "assertValidRequest H e =
     (if enVersion e \<noteq> PROTOCOL_VERSION then Inl (unsupportedVersion (enVersion e))
      else case enPayload e of
        Hello h \<Rightarrow>
          if heProtocolVersion h \<noteq> PROTOCOL_VERSION then Inl (unsupportedVersion (heProtocolVersion h))
          else if \<not> isUuid H (enDeviceId e) then Inl (BadRequest ''deviceId must be a UUID'' ''VALIDATION_ERROR'')
          else Inr ()
      | _ \<Rightarrow>
          if \<not> isUuid H (enDeviceId e) then Inl (BadRequest ''deviceId must be a UUID'' ''VALIDATION_ERROR'')
          else Inr ())"

definition sendEnvelope :: "call \<Rightarrow> envelope \<Rightarrow> payload \<Rightarrow> envelope" where
  "sendEnvelope c e p = serverEnvelope (caMid c 0) (Some (enMessageId e)) (enDeviceId e) (caNow c) p"

section \<open>Sync handlers\<close>

text \<open>\<open>applyPushBatch\<close> on the whole server state; its message ids come after the reply's.\<close>

definition applyPush :: "call \<Rightarrow> id \<Rightarrow> id \<Rightarrow> mutation list \<Rightarrow> (push_ack \<times> fanout_msg list) handler" where
  "applyPush c u dev ms b =
     (case applyPushBatch (caHost c) (caStore c) (\<lambda>n. caMid c (Suc n)) (caNow c) u dev ms (bkServer b) of
        Inl e \<Rightarrow> (Inl e, b)
      | Inr (ack, msgs, s) \<Rightarrow> (Inr (ack, msgs), b\<lparr>bkServer := s\<rparr>))"

definition reportDeviceStep :: "call \<Rightarrow> id \<Rightarrow> id \<Rightarrow> string option \<Rightarrow> string option \<Rightarrow> unit handler" where
  "reportDeviceStep c u dev cursor agent = onDb (\<lambda>d. unitDb (reportDevice u dev cursor agent (caNow c) d))"

definition expectPush :: "payload \<Rightarrow> apply_error + mutation list" where
  "expectPush p = (case p of PushBatch ms \<Rightarrow> Inr ms
     | _ \<Rightarrow> Inl (BadRequest ''Expected PushBatch envelope'' ''VALIDATION_ERROR''))"

definition expectPull :: "payload \<Rightarrow> apply_error + string" where
  "expectPull p = (case p of PullRequest since \<Rightarrow> Inr since
     | _ \<Rightarrow> Inl (BadRequest ''Expected PullRequest envelope'' ''VALIDATION_ERROR''))"

definition pushHandler :: "call \<Rightarrow> id option \<Rightarrow> http_request \<Rightarrow> reply handler" where
  "pushHandler c auth rq =
     andThen (check (requireAuthUser auth)) (\<lambda>u.
     andThen (requirePro c u) (\<lambda>_.
     andThen (limited (enforcePushRateLimit u (caNow c))) (\<lambda>_.
     andThen (check (parseBody (SyncEnvelopeSchema (caHost c)) (rqBody rq))) (\<lambda>e.
     andThen (check (expectPush (enPayload e))) (\<lambda>ms.
     andThen (check (assertValidRequest (caHost c) e)) (\<lambda>_.
     andThen (reportDeviceStep c u (enDeviceId e) None (rqUserAgent rq)) (\<lambda>_.
     andThen (applyPush c u (enDeviceId e) ms) (\<lambda>(ack, msgs).
       ret (Envelope (sendEnvelope c e (PushAck ack)) msgs)))))))))"

definition pullHandler :: "call \<Rightarrow> id option \<Rightarrow> http_request \<Rightarrow> reply handler" where
  "pullHandler c auth rq =
     andThen (check (requireAuthUser auth)) (\<lambda>u.
     andThen (requirePro c u) (\<lambda>_.
     andThen (check (parseBody (SyncEnvelopeSchema (caHost c)) (rqBody rq))) (\<lambda>e.
     andThen (check (expectPull (enPayload e))) (\<lambda>since.
     andThen (check (assertValidRequest (caHost c) e)) (\<lambda>_.
     andThen (onDb (\<lambda>d. Inr (pullChanges (caHost c) u since PULL_PAGE_SIZE d, d))) (\<lambda>delta.
     andThen (onDb (\<lambda>d. unitDb (finishSyncCycle u (enDeviceId e) since (rqUserAgent rq) (caNow c) d))) (\<lambda>_.
       ret (Envelope (sendEnvelope c e (PullDelta delta)) []))))))))"

definition bootstrapCursor :: "payload \<Rightarrow> string" where
  "bootstrapCursor p = (case p of Hello h \<Rightarrow> heLastPulledAt h | PullRequest since \<Rightarrow> since | _ \<Rightarrow> INITIAL_CURSOR)"

definition bootstrapHandler :: "call \<Rightarrow> id option \<Rightarrow> http_request \<Rightarrow> reply handler" where
  "bootstrapHandler c auth rq =
     andThen (check (requireAuthUser auth)) (\<lambda>u.
     andThen (requirePro c u) (\<lambda>_.
     andThen (check (parseBody (SyncEnvelopeSchema (caHost c)) (rqBody rq))) (\<lambda>e.
     andThen (check (assertValidRequest (caHost c) e)) (\<lambda>_.
     andThen (onDb (bootstrap (caHost c) u (enDeviceId e) (Some (bootstrapCursor (enPayload e))) (rqUserAgent rq) (caNow c)))
       (\<lambda>delta. ret (Envelope (sendEnvelope c e (PullDelta delta)) []))))))"

definition listDevicesHandler :: "call \<Rightarrow> id option \<Rightarrow> http_request \<Rightarrow> reply handler" where
  "listDevicesHandler c auth rq =
     andThen (check (requireAuthUser auth)) (\<lambda>u.
     andThen (onDb (\<lambda>d. Inr (listSyncDevices u d, d))) (\<lambda>devices. ret (Devices devices)))"

text \<open>\<open>.strict()\<close>: no other key.\<close>

definition onlyKeys :: "string list \<Rightarrow> jsv \<Rightarrow> bool" where
  "onlyKeys ks v = (case v of JObj fs \<Rightarrow> list_all (\<lambda>f. fst f \<in> set ks) fs | _ \<Rightarrow> False)"

definition revokeDeviceSchema :: "host \<Rightarrow> jsv \<Rightarrow> (id \<times> id) option" where
  "revokeDeviceSchema H v =
     (if \<not> onlyKeys [''deviceId'', ''currentDeviceId''] v then None
      else case (ClientIdSchema H (getProp ''deviceId'' v), ClientIdSchema H (getProp ''currentDeviceId'' v)) of
        (Some d, Some k) \<Rightarrow> Some (d, k) | _ \<Rightarrow> None)"

definition revokeDeviceHandler :: "call \<Rightarrow> id option \<Rightarrow> http_request \<Rightarrow> reply handler" where
  "revokeDeviceHandler c auth rq =
     andThen (check (requireAuthUser auth)) (\<lambda>u.
     andThen (check (parseBody (revokeDeviceSchema (caHost c)) (rqBody rq))) (\<lambda>(dev, cur).
     andThen (onDb (revokeSyncDevice u dev cur (caNow c))) (\<lambda>done'.
       ret (Revoked done' (if done' then Some (u, dev) else None)))))"

section \<open>Media handlers\<close>

definition mediaUploadItemSchema :: "jsv \<Rightarrow> media_upload_item option" where
  "mediaUploadItemSchema v =
     (if \<not> onlyKeys [''hash'', ''type'', ''byteLength'', ''checksum''] v then None
      else case (decStr (getProp ''hash'' v), decCheck (\<lambda>s. s \<noteq> '''') decStr (getProp ''type'' v),
                 decCheck (\<lambda>n. n > 0) decInt (getProp ''byteLength'' v),
                 decCheck (\<lambda>s. s \<noteq> '''') decStr (getProp ''checksum'' v)) of
        (Some h, Some t, Some n, Some k) \<Rightarrow> Some \<lparr>uiHash = h, uiType = t, uiByteLength = n, uiChecksum = k\<rparr>
      | _ \<Rightarrow> None)"

definition mediaUploadsBodySchema :: "jsv \<Rightarrow> media_upload_item list option" where
  "mediaUploadsBodySchema v = (if \<not> onlyKeys [''items''] v then None
     else decCheck (\<lambda>xs. length xs \<le> MAX_MEDIA_ITEMS) (decArr mediaUploadItemSchema) (getProp ''items'' v))"

definition mediaDownloadsBodySchema :: "jsv \<Rightarrow> string list option" where
  "mediaDownloadsBodySchema v = (if \<not> onlyKeys [''hashes''] v then None
     else decCheck (\<lambda>xs. length xs \<le> MAX_MEDIA_ITEMS) (decArr decStr) (getProp ''hashes'' v))"

definition mediaUploadsHandler :: "call \<Rightarrow> id option \<Rightarrow> http_request \<Rightarrow> reply handler" where
  "mediaUploadsHandler c auth rq =
     andThen (check (requireAuthUser auth)) (\<lambda>u.
     andThen (requirePro c u) (\<lambda>_.
     andThen (limited (enforceRateLimit (''sync:media:uploads:'' @ u) 120 60 ''Media upload rate limit exceeded'' (caNow c))) (\<lambda>_.
     andThen (check (parseBody mediaUploadsBodySchema (rqBody rq))) (\<lambda>items.
     andThen (check (planMediaUploads (caStore c) u items)) (\<lambda>rs. ret (Uploads rs))))))"

definition mediaDownloadsHandler :: "call \<Rightarrow> id option \<Rightarrow> http_request \<Rightarrow> reply handler" where
  "mediaDownloadsHandler c auth rq =
     andThen (check (requireAuthUser auth)) (\<lambda>u.
     andThen (requirePro c u) (\<lambda>_.
     andThen (limited (enforceRateLimit (''sync:media:downloads:'' @ u) 120 60 ''Media download rate limit exceeded'' (caNow c))) (\<lambda>_.
     andThen (check (parseBody mediaDownloadsBodySchema (rqBody rq))) (\<lambda>hashes.
     andThen (check (planMediaDownloads (caStore c) u hashes)) (\<lambda>rs. ret (Downloads rs))))))"

section \<open>Routes and errors\<close>

datatype route = RPush | RPull | RBootstrap | RMediaUploads | RMediaDownloads | RDevices | RRevokeDevice

fun handlerOf :: "route \<Rightarrow> call \<Rightarrow> id option \<Rightarrow> http_request \<Rightarrow> reply handler" where
  "handlerOf RPush = pushHandler"
| "handlerOf RPull = pullHandler"
| "handlerOf RBootstrap = bootstrapHandler"
| "handlerOf RMediaUploads = mediaUploadsHandler"
| "handlerOf RMediaDownloads = mediaDownloadsHandler"
| "handlerOf RDevices = listDevicesHandler"
| "handlerOf RRevokeDevice = revokeDeviceHandler"

definition syncRouter :: "route \<Rightarrow> call \<Rightarrow> http_request \<Rightarrow> reply handler" where
  "syncRouter r c rq b =
     (case requireAuth (caAuth c) (rqAuthorization rq) (bkAuth b) of
        Inl e \<Rightarrow> (Inl e, b)
      | Inr (u, _) \<Rightarrow> handlerOf r c (Some u) rq b)"

record error_body =
  ebStatus :: int
  ebCode :: string
  ebMessage :: string

text \<open>\<open>String(err)\<close>: the name of the error class and its message.\<close>

fun errorText :: "apply_error \<Rightarrow> string" where
  "errorText (MediaErr code msg retryable) = ''MediaRefError: '' @ msg"
| "errorText e = ''Error: '' @ errorMessage e"

definition errorHandler :: "bool \<Rightarrow> apply_error \<Rightarrow> error_body" where
  "errorHandler production err =
     (case err of
        AppErr status code message \<Rightarrow> \<lparr>ebStatus = status, ebCode = code, ebMessage = message\<rparr>
      | _ \<Rightarrow> \<lparr>ebStatus = 500, ebCode = ''INTERNAL_ERROR'',
              ebMessage = (if production then ''Internal server error'' else errorText err)\<rparr>)"

text \<open>Errors of the body parser: a status, whether it may be shown, a type and a message.\<close>

record parser_error =
  peStatus :: "int option"
  peExpose :: bool
  peType :: string
  peMessage :: string

definition clientFaultStatus :: "parser_error \<Rightarrow> int option" where
  "clientFaultStatus e = (case peStatus e of
     None \<Rightarrow> None | Some s \<Rightarrow> if peExpose e \<and> 400 \<le> s \<and> s < 500 then Some s else None)"

definition clientFaultBody :: "parser_error \<Rightarrow> int \<Rightarrow> error_body" where
  "clientFaultBody e s =
     (if peType e = ''entity.parse.failed''
      then \<lparr>ebStatus = s, ebCode = ''INVALID_JSON'', ebMessage = ''Request body is not valid JSON''\<rparr>
      else if peType e = ''entity.too.large''
      then \<lparr>ebStatus = s, ebCode = ''PAYLOAD_TOO_LARGE'', ebMessage = ''Request body is too large''\<rparr>
      else \<lparr>ebStatus = s, ebCode = statusToErrorCode s, ebMessage = peMessage e\<rparr>)"

definition answer :: "route \<Rightarrow> call \<Rightarrow> http_request \<Rightarrow> backend \<Rightarrow> (error_body + reply) \<times> backend" where
  "answer r c rq b = (case syncRouter r c rq b of
     (Inl e, b1) \<Rightarrow> (Inl (errorHandler (caProduction c) e), b1) | (Inr x, b1) \<Rightarrow> (Inr x, b1))"

end
