(* ===== verification/SyncGate.thy ===== *)
theory SyncGate
  imports SyncHandlers
begin

text \<open>
  What a request over HTTP can do to the stored data: only the rows, the counter and the devices
  of the user its token names, and only when that user is entitled and the device is in use.
\<close>

section \<open>Frames of the device operations\<close>

definition same_for :: "id \<Rightarrow> db \<Rightarrow> db \<Rightarrow> bool" where
  "same_for v d d' \<longleftrightarrow> rowsOf v d' = rowsOf v d \<and> syncSeqOf v d' = syncSeqOf v d
     \<and> filter (\<lambda>x. sdUser x = v) (dbDevices d') = filter (\<lambda>x. sdUser x = v) (dbDevices d)"

lemma same_for_refl [simp]: "same_for v d d"
  by (simp add: same_for_def)

lemma same_for_trans: "same_for v d d' \<Longrightarrow> same_for v d' d'' \<Longrightarrow> same_for v d d''"
  by (simp add: same_for_def)

lemma filter_put_other:
  "(\<And>x. x \<in> set xs \<Longrightarrow> key x = key r \<Longrightarrow> \<not> P x) \<Longrightarrow> \<not> P r \<Longrightarrow> filter P (tbl_put key r xs) = filter P xs"
  by (induction xs) auto

lemma rows_same: "dbTopics d' = dbTopics d \<Longrightarrow> dbCards d' = dbCards d \<Longrightarrow> dbUsers d' = dbUsers d \<Longrightarrow>
    rowsOf v d' = rowsOf v d \<and> syncSeqOf v d' = syncSeqOf v d"
  by (simp add: rowsOf_def allRows_def syncSeqOf_def)

lemma report_frame:
  assumes "reportDevice u dev cursor ua now d = Inr d'" "service_ok d" "v \<noteq> u"
  shows "same_for v d d'"
proof -
  have ok: "tbl_ok sdId (dbDevices d)" using assms(2) by (simp add: service_ok_def db_ok_def tables_ok_def)
  let ?P = "\<lambda>x. sdUser x = v"
  have "filter ?P (dbDevices d') = filter ?P (dbDevices d)"
  proof (cases "tbl_get sdId dev (dbDevices d)")
    case (Some old)
    have own: "sdUser x = u" if "x \<in> set (dbDevices d)" "sdId x = dev" for x
      using assms(1) Some that tbl_get_iff [OF ok, of dev x] by (auto simp: reportDevice_def split: if_splits)
    obtain n where n: "dbDevices d' = tbl_put sdId n (dbDevices d)" "sdId n = dev" "sdUser n = u"
      using assms(1) Some own [OF tbl_get_in [OF Some] tbl_get_key [OF Some]] tbl_get_key [OF Some]
      by (auto simp: reportDevice_def split: if_splits)
    show ?thesis unfolding n(1) by (rule filter_put_other) (use own n assms(3) in auto)
  next
    case None
    then obtain n where n: "dbDevices d' = tbl_put sdId n (filter (\<lambda>x. \<not> staleDevice u now x) (dbDevices d))"
      "sdId n = dev" "sdUser n = u"
      using assms(1) by (auto simp: reportDevice_def Let_def split: if_splits)
    have "filter ?P (dbDevices d') = filter ?P (filter (\<lambda>x. \<not> staleDevice u now x) (dbDevices d))"
      unfolding n(1) by (rule filter_put_other) (use None n assms(3) in \<open>auto simp: tbl_get_None\<close>)
    also have "\<dots> = filter ?P (dbDevices d)"
      using assms(3) by (auto simp: staleDevice_def intro!: filter_cong)
    finally show ?thesis .
  qed
  with rows_same [of d' d v] report_rows [OF assms(1)] show ?thesis by (simp add: same_for_def)
qed

lemma purge_frame: "service_ok d \<Longrightarrow> v \<noteq> u \<Longrightarrow> same_for v d (purgeSyncedTombstones u now d)"
proof -
  assume ok: "service_ok d" and vu: "v \<noteq> u"
  note p = purge_rows [where u = u and now = now and d = d]
  have "rowsOf v (purgeSyncedTombstones u now d) = rowsOf v d"
  proof (rule rowsOf_eqI)
    fix c
    have "dtUser t = dcUser c" if ct: "c \<in> set (dbCards d)" "t \<in> set (dbTopics d)" "dtId t = dcTopic c" for t
    proof -
      obtain t' where "t' \<in> set (dbTopics d)" "dtId t' = dcTopic c" "dtUser t' = dcUser c"
        using ok ct(1) by (auto simp: service_ok_def db_ok_def fk_ok_def)
      moreover have "inj_on dtId (set (dbTopics d))"
        using ok by (simp add: service_ok_def db_ok_def tables_ok_def distinct_map)
      ultimately show ?thesis using ct(2,3) by (metis inj_onD)
    qed
    then show "RowCard c \<in> rowsOf v (purgeSyncedTombstones u now d) \<longleftrightarrow> RowCard c \<in> rowsOf v d"
      using vu by (auto simp: p)
  qed (use vu in \<open>auto simp: p\<close>)
  moreover have "filter (\<lambda>x. sdUser x = v) (dbDevices (purgeSyncedTombstones u now d)) = filter (\<lambda>x. sdUser x = v) (dbDevices d)"
    using vu by (auto simp: p(5) staleDevice_def intro!: filter_cong)
  ultimately show ?thesis using p(3) by (simp add: same_for_def syncSeqOf_def)
qed

lemma revoke_frame:
  assumes "revokeSyncDevice u dev cur now d = Inr (r, d')" "v \<noteq> u"
  shows "same_for v d d'"
proof -
  have "filter (\<lambda>x. sdUser x = v) (map (\<lambda>x. if sdId x = dev \<and> sdUser x = u \<and> sdRevokedAt x = None
      then x\<lparr>sdRevokedAt := Some now\<rparr> else x) vs) = filter (\<lambda>x. sdUser x = v) vs" for vs
    using assms(2) by (induction vs) auto
  then have "filter (\<lambda>x. sdUser x = v) (dbDevices d') = filter (\<lambda>x. sdUser x = v) (dbDevices d)"
    using assms(1) by (auto simp: revokeSyncDevice_def Let_def split: if_splits)
  then show ?thesis using rows_same [of d' d v] revoke_rows [OF assms(1)] by (simp add: same_for_def)
qed

section \<open>Computations of one user\<close>

definition own :: "id \<Rightarrow> backend \<Rightarrow> backend \<Rightarrow> bool" where
  "own u b b' \<longleftrightarrow> (service_ok (srvDb (bkServer b)) \<longrightarrow>
     service_ok (srvDb (bkServer b')) \<and> (\<forall>v. v \<noteq> u \<longrightarrow> same_for v (srvDb (bkServer b)) (srvDb (bkServer b'))))"

definition keeps :: "id \<Rightarrow> 'a handler \<Rightarrow> bool" where
  "keeps u m \<longleftrightarrow> (\<forall>b. own u b (snd (m b)))"

named_theorems keeps_rules "handlers that touch the data of one user only"

lemma own_refl: "own u b b"
  by (simp add: own_def)

lemma own_trans: "own u b b' \<Longrightarrow> own u b' b'' \<Longrightarrow> own u b b''"
  unfolding own_def using same_for_trans by blast

lemma own_server: "bkServer b' = bkServer b \<Longrightarrow> own u b b'"
  by (simp add: own_def)

lemma keeps_andThen [keeps_rules]: "keeps u m \<Longrightarrow> (\<And>x. keeps u (f x)) \<Longrightarrow> keeps u (andThen m f)"
  unfolding keeps_def andThen_def
  by (auto split: prod.splits sum.splits) (metis own_trans snd_conv)+

lemma keeps_check [keeps_rules]: "keeps u (check r)" and keeps_ret [keeps_rules]: "keeps u (ret x)"
  by (simp_all add: keeps_def check_def ret_def own_refl)

lemma keeps_pro [keeps_rules]: "keeps u (requirePro c u')"
  by (auto simp: keeps_def requirePro_def split: prod.splits option.splits intro: own_server)

lemma keeps_limited [keeps_rules]: "keeps u (limited f)"
  by (auto simp: keeps_def limited_def split: prod.splits option.splits intro: own_server)

lemma keeps_onDb:
  assumes "\<And>d x d'. service_ok d \<Longrightarrow> f d = Inr (x, d') \<Longrightarrow> service_ok d' \<and> (\<forall>v. v \<noteq> u \<longrightarrow> same_for v d d')"
  shows "keeps u (onDb f)"
  using assms by (auto simp: keeps_def onDb_def own_def split: sum.splits)

lemma keeps_report [keeps_rules]: "keeps u (reportDeviceStep c u dev cursor agent)"
  unfolding reportDeviceStep_def
  by (rule keeps_onDb) (auto simp: unitDb_def split: sum.splits intro: report_ok report_frame)

lemma keeps_push [keeps_rules]: "keeps u (applyPush c u dev ms)"
proof -
  have "service_ok (srvDb s') \<and> (\<forall>v. v \<noteq> u \<longrightarrow> same_for v (srvDb s) (srvDb s'))"
    if p: "applyPushBatch H S mid now u dev ms s = Inr (ack, msgs, s')" and ok: "service_ok (srvDb s)" for H S mid now s ack msgs s'
  proof -
    have db: "db_ok (srvDb s)" using ok by (simp add: service_ok_def)
    obtain d1 where d1: "db_steps u now (srvDb s) d1" "srvDb s' = pruneAppliedOps u now d1" using p db by (rule push_steps)
    have "same_for v (srvDb s) (srvDb s')" if "v \<noteq> u" for v
      using steps_other_users [OF d1(1) db that] steps_devices [OF d1(1)] d1(2)
      by (simp add: same_for_def rowsOf_def allRows_def syncSeqOf_def)
    with push_ok [OF p ok] show ?thesis by blast
  qed
  then show ?thesis by (fastforce simp: keeps_def applyPush_def own_def split: sum.splits)
qed

section \<open>The routes\<close>

lemma keeps_finish: "keeps u (onDb (\<lambda>d. unitDb (finishSyncCycle u dev cur ua now d)))"
  by (rule keeps_onDb)
     (auto simp: unitDb_def finishSyncCycle_def split: sum.splits
        intro: purge_service_ok report_ok same_for_trans [OF report_frame purge_frame])

lemma keeps_bootstrap: "keeps u (onDb (bootstrap H u dev cur ua now))"
  by (rule keeps_onDb)
     (auto simp: bootstrap_def Let_def split: sum.splits
        intro: purge_service_ok report_ok same_for_trans [OF report_frame purge_frame])

lemma keeps_revoke: "keeps u (onDb (revokeSyncDevice u dev cur now))"
  by (rule keeps_onDb) (auto intro: revoke_ok revoke_frame)

lemma keeps_read: "keeps u (onDb (\<lambda>d. Inr (f d, d)))"
  by (rule keeps_onDb) auto

lemmas keeps_db = keeps_finish keeps_bootstrap keeps_revoke keeps_read

lemma start: "u \<noteq> '''' \<Longrightarrow> andThen (check (requireAuthUser (Some u))) f b = f u b"
  "andThen (check (requireAuthUser (Some ''''))) f b = (Inl (BadRequest ''Unauthorized'' ''UNAUTHORIZED''), b)"
  by (simp_all add: andThen_def check_def requireAuthUser_def)

lemma route_own: "own u b (snd (handlerOf r c (Some u) rq b))"
proof (cases "u = ''''")
  case True
  then show ?thesis
    by (cases r) (simp_all add: own_refl pushHandler_def pullHandler_def bootstrapHandler_def mediaUploadsHandler_def
        mediaDownloadsHandler_def listDevicesHandler_def revokeDeviceHandler_def start)
next
  case False
  have step: "keeps u m \<Longrightarrow> own u b (snd (m b))" for m :: "reply handler" by (simp add: keeps_def)
  show ?thesis
    by (cases r) (simp_all only: handlerOf.simps pushHandler_def pullHandler_def bootstrapHandler_def mediaUploadsHandler_def
        mediaDownloadsHandler_def listDevicesHandler_def revokeDeviceHandler_def start(1) [OF False] case_prod_unfold,
      (rule step, intro keeps_rules keeps_db)+)
qed

section \<open>Requests that are turned away\<close>

text \<open>From data base \<open>d\<close> the computation ends in an error and leaves \<open>d\<close>; or it just leaves \<open>d\<close>.\<close>

definition refuses :: "db \<Rightarrow> 'a handler \<Rightarrow> bool" where
  "refuses d m \<longleftrightarrow> (\<forall>b. srvDb (bkServer b) = d \<longrightarrow> isl (fst (m b)) \<and> srvDb (bkServer (snd (m b))) = d)"

definition leaves :: "db \<Rightarrow> 'a handler \<Rightarrow> bool" where
  "leaves d m \<longleftrightarrow> (\<forall>b. srvDb (bkServer b) = d \<longrightarrow> srvDb (bkServer (snd (m b))) = d)"

lemma refuses_first: "refuses d m \<Longrightarrow> refuses d (andThen m f)"
  unfolding refuses_def andThen_def by (auto split: prod.splits sum.splits)

lemma refuses_later:
  assumes "leaves d m" "\<And>x b b'. m b = (Inr x, b') \<Longrightarrow> refuses d (f x)"
  shows "refuses d (andThen m f)"
  unfolding refuses_def
proof (intro allI impI)
  fix b :: backend
  assume b: "srvDb (bkServer b) = d"
  obtain r b1 where m: "m b = (r, b1)" by fastforce
  have d: "srvDb (bkServer b1) = d" using assms(1) b m unfolding leaves_def by (metis snd_conv)
  show "isl (fst (andThen m f b)) \<and> srvDb (bkServer (snd (andThen m f b))) = d"
  proof (cases r)
    case (Inr x)
    then show ?thesis using assms(2) [of b x b1] m d by (simp add: andThen_def refuses_def)
  qed (simp add: andThen_def m d)
qed

named_theorems leaves_rules "handlers that leave the data base as it is"

lemma leaves_check [leaves_rules]: "leaves d (check r)" and leaves_pro [leaves_rules]: "leaves d (requirePro c u)"
  and leaves_limited [leaves_rules]: "leaves d (limited g)" and leaves_read [leaves_rules]: "leaves d (onDb (\<lambda>d. Inr (f d, d)))"
  by (auto simp: leaves_def check_def requirePro_def limited_def onDb_def split: prod.splits option.splits)

definition device_out :: "id \<Rightarrow> id \<Rightarrow> db \<Rightarrow> bool" where
  "device_out u dev d \<longleftrightarrow> (case tbl_get sdId dev (dbDevices d) of
     None \<Rightarrow> False | Some v \<Rightarrow> sdUser v \<noteq> u \<or> sdRevokedAt v \<noteq> None)"

lemma report_refuses:
  assumes "device_out u dev d"
  shows "\<exists>e. reportDevice u dev cur ua now d = Inl e"
  using assms by (auto simp: device_out_def reportDevice_def split: option.splits)

lemma refuses_onDb: "(\<exists>e. f d = Inl e) \<Longrightarrow> refuses d (onDb f)"
  by (auto simp: refuses_def onDb_def)

lemma device_refuses:
  assumes "device_out u dev d"
  shows "refuses d (reportDeviceStep c u dev cursor agent)"
    "refuses d (onDb (\<lambda>d. unitDb (finishSyncCycle u dev k ua now d)))"
    "refuses d (onDb (bootstrap H u dev cur ua now))"
proof -
  note out = report_refuses [OF assms]
  show "refuses d (reportDeviceStep c u dev cursor agent)"
    unfolding reportDeviceStep_def using out [of cursor agent "caNow c"] by (intro refuses_onDb) (auto simp: unitDb_def)
  show "refuses d (onDb (\<lambda>d. unitDb (finishSyncCycle u dev k ua now d)))"
    using out [of "Some k" ua now] by (intro refuses_onDb) (auto simp: unitDb_def finishSyncCycle_def)
  show "refuses d (onDb (bootstrap H u dev cur ua now))"
    using out [of "Some (case cur of None \<Rightarrow> INITIAL_CURSOR | Some x \<Rightarrow> x)" ua now]
    by (intro refuses_onDb) (auto simp: bootstrap_def Let_def)
qed

lemma parsed: "check (parseBody schema body) b = (Inr e, b') \<Longrightarrow> schema body = Some e"
  by (auto simp: check_def parseBody_def split: option.splits)

lemma route_device:
  assumes "SyncEnvelopeSchema (caHost c) (rqBody rq) = Some e" "device_out u (enDeviceId e) d"
    and "r = RPush \<or> r = RPull \<or> r = RBootstrap" "srvDb (bkServer b) = d"
  shows "isl (fst (handlerOf r c (Some u) rq b)) \<and> srvDb (bkServer (snd (handlerOf r c (Some u) rq b))) = d"
proof -
  have same: "e' = e" if "check (parseBody (SyncEnvelopeSchema (caHost c)) (rqBody rq)) b1 = (Inr e', b2)" for e' b1 b2
    using parsed [OF that] assms(1) by simp
  have user: "v = u" if "check (requireAuthUser (Some u)) b1 = (Inr v, b2)" for v b1 b2
    using that by (auto simp: check_def requireAuthUser_def split: if_splits)
  have out: "device_out v (enDeviceId e') d"
    if "check (requireAuthUser (Some u)) b0 = (Inr v, b1)" "check (parseBody (SyncEnvelopeSchema (caHost c)) (rqBody rq)) b2 = (Inr e', b3)"
    for v e' b0 b1 b2 b3
    using same [OF that(2)] user [OF that(1)] assms(2) by simp
  note stop = device_refuses [THEN refuses_first]
  have "refuses d (pushHandler c (Some u) rq)" "refuses d (pullHandler c (Some u) rq)" "refuses d (bootstrapHandler c (Some u) rq)"
    unfolding pushHandler_def pullHandler_def bootstrapHandler_def
    by ((rule stop, rule out, assumption, assumption) | rule leaves_rules | rule refuses_later)+
  then show ?thesis using assms(3,4) unfolding refuses_def by auto
qed

section \<open>Properties\<close>

text \<open>
  C36. A request over HTTP touches its own user's data only. Without a valid token nothing
  changes. With one, whatever the route and body: the storage stays well formed, and no other
  user's topics, cards, sequence counter or devices change; a user who is not entitled to PRO is turned away from every route but
  the device list, and a device that was revoked or belongs to someone else from push, pull and
  bootstrap, with sync tables as they were.
\<close>

theorem requests_stay_with_their_user:
  assumes "service_ok (srvDb (bkServer b))" "answer r c rq b = (x, b')"
  shows "case requireAuth (caAuth c) (rqAuthorization rq) (bkAuth b) of
      Inl e \<Rightarrow> isl x \<and> b' = b
    | Inr (u, i) \<Rightarrow>
        service_ok (srvDb (bkServer b'))
        \<and> (\<forall>v. v \<noteq> u \<longrightarrow> same_for v (srvDb (bkServer b)) (srvDb (bkServer b')))
        \<and> (r \<noteq> RDevices \<and> r \<noteq> RRevokeDevice \<and> fst (assertPlan (caAccount c) u PRO (bkAccounts b)) \<noteq> None
             \<longrightarrow> isl x \<and> bkServer b' = bkServer b)
        \<and> (\<forall>e. (r = RPush \<or> r = RPull \<or> r = RBootstrap) \<and> SyncEnvelopeSchema (caHost c) (rqBody rq) = Some e
             \<and> device_out u (enDeviceId e) (srvDb (bkServer b)) \<longrightarrow> isl x \<and> srvDb (bkServer b') = srvDb (bkServer b))"
proof (cases "requireAuth (caAuth c) (rqAuthorization rq) (bkAuth b)")
  case (Inl e)
  with assms(2) show ?thesis by (auto simp: answer_def syncRouter_def)
next
  case (Inr ui)
  obtain u i where ui: "ui = (u, i)" by fastforce
  obtain y where h: "handlerOf r c (Some u) rq b = (y, b')" and x: "isl x = isl y"
    using assms(2) Inr ui by (auto simp: answer_def syncRouter_def split: prod.splits sum.splits)
  have own: "own u b b'" using route_own [of u b r c rq] h by simp
  have plan: "isl y \<and> bkServer b' = bkServer b"
    if no_plan: "r \<noteq> RDevices" "r \<noteq> RRevokeDevice" "fst (assertPlan (caAccount c) u PRO (bkAccounts b)) \<noteq> None"
  proof (cases "u = ''''")
    case True
    then show ?thesis using h no_plan
      by (cases r) (auto simp: pushHandler_def pullHandler_def bootstrapHandler_def mediaUploadsHandler_def mediaDownloadsHandler_def start)
  next
    case False
    obtain e d where "assertPlan (caAccount c) u PRO (bkAccounts b) = (Some e, d)"
      using no_plan(3) by (cases "assertPlan (caAccount c) u PRO (bkAccounts b)") auto
    then have no: "andThen (requirePro c u) k b = (Inl e, b\<lparr>bkAccounts := d\<rparr>)" for k :: "unit \<Rightarrow> reply handler"
      by (simp add: andThen_def requirePro_def)
    show ?thesis using h no_plan(1,2)
      by (cases r) (auto simp: pushHandler_def pullHandler_def bootstrapHandler_def mediaUploadsHandler_def
          mediaDownloadsHandler_def start(1) [OF False] no)
  qed
  have dev: "isl y \<and> srvDb (bkServer b') = srvDb (bkServer b)"
    if "r = RPush \<or> r = RPull \<or> r = RBootstrap" "SyncEnvelopeSchema (caHost c) (rqBody rq) = Some e"
      "device_out u (enDeviceId e) (srvDb (bkServer b))" for e
    using route_device [OF that(2,3,1) refl] h by simp
  show ?thesis using own assms(1) plan dev x Inr ui by (auto simp: own_def)
qed

definition demo_call :: "host \<Rightarrow> nat \<Rightarrow> call" where
  "demo_call H n = \<lparr>caHost = H, caStore = \<lparr>r2Head = (\<lambda>k. Inr None), r2PutUrl = (\<lambda>a b c. a), r2GetUrl = (\<lambda>k. k)\<rparr>,
     caMid = (\<lambda>k. ''m''),
     caAuth = \<lparr>avNow = 1000 * int n, avSessionTtl = 1000, avRefreshTtl = 900, avAccessTtl = 60, avHash = (\<lambda>s. s),
       avSessionId = ''s'', avTokenId = ''t'', avRawToken = ''r'', avSign = (\<lambda>u s. u),
       avVerify = (\<lambda>t. Some \<lparr>jpTyp = Some ''access'', jpSub = Some ''u'', jpSid = Some ''s''\<rparr>)\<rparr>,
     caAccount = \<lparr>aeNow = 1000 * int n, aeBetaOpenPro = True, aeLocalBilling = False, aeMonthlyVariant = ''1'',
       aeYearlyVariant = ''2'', aeStoreId = ''9'', aeTestMode = False, aeReturnUrl = ''b''\<rparr>,
     caNow = 1000 * int n, caProduction = True\<rparr>"

definition demo_backend :: "device_row list \<Rightarrow> backend" where
  "demo_backend devices = \<lparr>
     bkServer = \<lparr>srvDb = \<lparr>dbUsers = [\<lparr>urId = ''u'', urSyncSeq = 0\<rparr>], dbTopics = [], dbCards = [], dbDevices = devices, dbOps = []\<rparr>,
       srvRedis = \<lparr>rdOpen = True, rdOps = []\<rparr>\<rparr>,
     bkAccounts = \<lparr>adUsers = [\<lparr>auId = ''u'', auEmail = ''e'', auDisabledAt = None\<rparr>], adPreferences = [], adLearning = [],
       adNotifications = [], adReminders = [], adSubscriptions = [], adEvents = [], adIntents = []\<rparr>,
     bkAuth = \<lparr>atUsers = [\<lparr>auId = ''u'', auEmail = ''e'', auDisabledAt = None\<rparr>],
       atSessions = [\<lparr>seId = ''s'', seUser = ''u'', seMethod = PASSKEY, seExpiresAt = 9000000, seRevokedAt = None, seLastActiveAt = 0\<rparr>],
       atTokens = [], atEvents = []\<rparr>,
     bkLimiter = \<lparr>liOpen = True, liCounts = [(''sync:push:u'', 500, 3000)], liFlags = []\<rparr>\<rparr>"

definition revoked_device :: device_row where
  "revoked_device = \<lparr>sdId = ''d'', sdUser = ''u'', sdName = None, sdLastPulled = 0, sdLastSeen = 0, sdUserAgent = None,
     sdRevokedAt = Some 7\<rparr>"

definition demo_pull :: envelope where
  "demo_pull = \<lparr>enVersion = 4, enMessageId = ''q'', enCorrelationId = None, enDeviceId = ''d'', enSentAt = 0, enTraceId = None,
     enPayload = PullRequest ''0''\<rparr>"

lemma requests_stay_with_their_user_witness:
  "\<exists>x b'. answer RPull (demo_call plain_host 1) \<lparr>rqAuthorization = Some ''Bearer t'', rqUserAgent = None, rqBody = encEnvelope demo_pull\<rparr>
      (demo_backend [revoked_device]) = (x, b')
    \<and> isl x \<and> srvDb (bkServer b') = srvDb (bkServer (demo_backend [revoked_device]))"
proof -
  let ?b = "demo_backend [revoked_device]" and ?c = "demo_call plain_host 1"
  let ?rq = "\<lparr>rqAuthorization = Some ''Bearer t'', rqUserAgent = None, rqBody = encEnvelope demo_pull\<rparr>"
  obtain x b' where a: "answer RPull ?c ?rq ?b = (x, b')" by fastforce
  have ok: "service_ok (srvDb (bkServer ?b))"
    by (auto simp: demo_backend_def service_ok_def db_ok_def tables_ok_def seqs_ok_def fk_ok_def titles_ok_def allRows_def
        liveDevices_def revoked_device_def)
  have auth: "requireAuth (caAuth ?c) (rqAuthorization ?rq) (bkAuth ?b) = Inr (''u'', ''s'')"
    by (simp add: requireAuth_def bearerPrefix_def trimmed_def isSpace_def verifyAccessToken_def demo_call_def demo_backend_def
        sessionLive_def)
  have e: "SyncEnvelopeSchema (caHost ?c) (rqBody ?rq) = Some demo_pull"
    by (simp add: envelope_value_roundtrip wf_envelope_def demo_pull_def safeInt_def MAX_SAFE_INTEGER_def MAX_CURSOR_LENGTH_def)
  have "device_out ''u'' (enDeviceId demo_pull) (srvDb (bkServer ?b))"
    by (simp add: device_out_def demo_pull_def demo_backend_def revoked_device_def)
  with requests_stay_with_their_user [OF ok a] auth e a show ?thesis by auto
qed

end
