(* ===== verification/Regex.thy ===== *)
theory Regex
  imports StudyCalendar
begin

text \<open>
  The regular expressions of the source language, as far as the client uses them: a
  backtracking matcher that lists the ways an expression can match at a position in the order
  the language tries them, so that the first element is the match the program sees. A match
  state is the character before the position, the rest of the subject and the groups
  captured so far.
\<close>

datatype rx =
    RSet "char \<Rightarrow> bool"
  | REmpty
  | RSeq rx rx
  | RAlt rx rx
  | RStar bool rx
  | RGroup nat rx
  | RWordBoundary
  | RStart
  | REnd

type_synonym rstate = "char option \<times> string \<times> (nat \<times> string) list"

definition restLen :: "rstate \<Rightarrow> nat" where
  "restLen s = length (fst (snd s))"

definition isWordChar :: "char \<Rightarrow> bool" where
  "isWordChar c \<longleftrightarrow> isDigit c \<or> (CHR ''a'' \<le> c \<and> c \<le> CHR ''z'') \<or> (CHR ''A'' \<le> c \<and> c \<le> CHR ''Z'')
     \<or> c = CHR ''_''"

definition wordAt :: "char option \<Rightarrow> bool" where
  "wordAt c = (case c of None \<Rightarrow> False | Some x \<Rightarrow> isWordChar x)"

definition firstChar :: "string \<Rightarrow> char option" where
  "firstChar s = (case s of [] \<Rightarrow> None | c # _ \<Rightarrow> Some c)"

text \<open>Repetition: greedy tries one more first, lazy tries to stop first; an iteration that
  matches nothing is not taken.\<close>

fun starMatch :: "bool \<Rightarrow> (rstate \<Rightarrow> rstate list) \<Rightarrow> nat \<Rightarrow> rstate \<Rightarrow> rstate list" where
  "starMatch greedy m 0 s = [s]"
| "starMatch greedy m (Suc n) s =
     (let more = concat (map (starMatch greedy m n) (filter (\<lambda>t. restLen t < restLen s) (m s)))
      in if greedy then more @ [s] else s # more)"

primrec rxMatch :: "rx \<Rightarrow> rstate \<Rightarrow> rstate list" where
  "rxMatch (RSet P) s = (case fst (snd s) of [] \<Rightarrow> []
      | c # cs \<Rightarrow> if P c then [(Some c, cs, snd (snd s))] else [])"
| "rxMatch REmpty s = [s]"
| "rxMatch (RSeq a b) s = concat (map (rxMatch b) (rxMatch a s))"
| "rxMatch (RAlt a b) s = rxMatch a s @ rxMatch b s"
| "rxMatch (RStar greedy a) s = starMatch greedy (rxMatch a) (restLen s) s"
| "rxMatch (RGroup n a) s = map (\<lambda>t. (fst t, fst (snd t),
      tbl_put fst (n, take (restLen s - restLen t) (fst (snd s))) (snd (snd t)))) (rxMatch a s)"
| "rxMatch RWordBoundary s = (if wordAt (fst s) = wordAt (firstChar (fst (snd s))) then [] else [s])"
| "rxMatch RStart s = (if fst s = None then [s] else [])"
| "rxMatch REnd s = (if fst (snd s) = [] then [s] else [])"

text \<open>\<open>RegExp.exec\<close>: the leftmost match with the text before it.\<close>

fun rxFind :: "rx \<Rightarrow> char option \<Rightarrow> string \<Rightarrow> string \<Rightarrow> (string \<times> rstate) option" where
  "rxFind re prev lead [] =
     (case rxMatch re (prev, [], []) of m # _ \<Rightarrow> Some (rev lead, m) | [] \<Rightarrow> None)"
| "rxFind re prev lead (c # cs) =
     (case rxMatch re (prev, c # cs, []) of m # _ \<Rightarrow> Some (rev lead, m)
      | [] \<Rightarrow> rxFind re (Some c) (c # lead) cs)"

definition rxTest :: "rx \<Rightarrow> string \<Rightarrow> bool" where
  "rxTest re s \<longleftrightarrow> rxFind re None [] s \<noteq> None"

definition captured :: "nat \<Rightarrow> rstate \<Rightarrow> string option" where
  "captured n s = map_option snd (tbl_get fst n (snd (snd s)))"

section \<open>Building blocks\<close>

definition lowerChar :: "char \<Rightarrow> char" where
  "lowerChar c = (if CHR ''A'' \<le> c \<and> c \<le> CHR ''Z'' then char_of ((of_char c :: nat) + 32) else c)"

definition toLower :: "string \<Rightarrow> string" where
  "toLower s = map lowerChar s"

fun rSeqs :: "rx list \<Rightarrow> rx" where
  "rSeqs [] = REmpty"
| "rSeqs [r] = r"
| "rSeqs (r # s # rs) = RSeq r (rSeqs (s # rs))"

definition rLit :: "string \<Rightarrow> rx" where
  "rLit s = rSeqs (map (\<lambda>c. RSet (\<lambda>d. d = c)) s)"

text \<open>With the flag \<open>i\<close>.\<close>

definition rLitI :: "string \<Rightarrow> rx" where
  "rLitI s = rSeqs (map (\<lambda>c. RSet (\<lambda>d. lowerChar d = lowerChar c)) s)"

definition rPlus :: "rx \<Rightarrow> rx" where
  "rPlus r = RSeq r (RStar True r)"

definition rOpt :: "rx \<Rightarrow> rx" where
  "rOpt r = RAlt r REmpty"

definition rSpace :: rx where "rSpace = RSet isBlank"
definition rSpaces :: rx where "rSpaces = RStar True rSpace"
definition rWord :: rx where "rWord = RSet isWordChar"
definition rNot :: "char \<Rightarrow> rx" where "rNot c = RSet (\<lambda>d. d \<noteq> c)"
definition rAny :: rx where "rAny = RSet (\<lambda>_. True)"

section \<open>Matches only move forward\<close>

lemma starMatch_len:
  assumes "\<And>s t. t \<in> set (m s) \<Longrightarrow> restLen t \<le> restLen s"
  shows "t \<in> set (starMatch g m n s) \<Longrightarrow> restLen t \<le> restLen s"
proof (induction n arbitrary: s)
  case (Suc n)
  then show ?case by (auto simp: Let_def split: if_splits dest: Suc.IH intro: order_trans less_imp_le; fastforce)
qed simp

lemma rxMatch_len: "t \<in> set (rxMatch r s) \<Longrightarrow> restLen t \<le> restLen s"
proof (induction r arbitrary: s t)
  case (RSet P)
  then show ?case by (cases "fst (snd s)") (auto simp: restLen_def split: if_splits)
next
  case (RSeq a b)
  from RSeq.prems obtain u where "u \<in> set (rxMatch a s)" "t \<in> set (rxMatch b u)" by auto
  with RSeq.IH show ?case by (meson order_trans)
next
  case (RStar g a)
  then show ?case using starMatch_len [of "rxMatch a"] by auto
next
  case (RGroup n a)
  from RGroup.prems obtain u where "u \<in> set (rxMatch a s)" "restLen t = restLen u"
    by (auto simp: restLen_def)
  with RGroup.IH show ?case by fastforce
qed (auto split: if_splits)

lemma rxFind_len: "rxFind re prev lead s = Some (b, t) \<Longrightarrow> restLen t \<le> length s"
proof (induction re prev lead s rule: rxFind.induct)
  case (1 re prev lead)
  then have "t \<in> set (rxMatch re (prev, [], []))" by (auto split: list.splits)
  then show ?case using rxMatch_len [of t re "(prev, [], [])"] by (simp add: restLen_def)
next
  case (2 re prev lead c cs)
  show ?case
  proof (cases "rxMatch re (prev, c # cs, [])")
    case Nil
    with 2 show ?thesis by fastforce
  next
    case (Cons m ms)
    then have "m \<in> set (rxMatch re (prev, c # cs, []))" by simp
    with Cons 2 show ?thesis using rxMatch_len [of m re "(prev, c # cs, [])"] by (simp add: restLen_def)
  qed
qed

end
