(* ===== verification/CardContent.thy ===== *)
theory CardContent
  imports Regex WireMedia
begin

text \<open>
  apps/client/src/lib: what a card holds. Code languages (code-lang.ts), normalising card data
  of any age to sides of blocks (normalize-card.ts), the predicates on blocks
  (check-content.ts), and the media a card embeds (the pure part of card-media-stats.ts).
  Card data is an untyped value; a \<open>TypeError\<close> of the source is \<open>Inl\<close>.
\<close>

section \<open>Code languages\<close>

text \<open>
  The alias table is an object literal: a lookup also finds what every object inherits, and of
  the inherited names two are in lower case.
\<close>

definition aliasOf :: "string \<Rightarrow> jsv" where
  "aliasOf key =
     (if key \<in> {''py'', ''python''} then JStr ''py''
      else if key \<in> {''js'', ''javascript''} then JStr ''js''
      else if key \<in> {''ts'', ''typescript''} then JStr ''ts''
      else if key = ''sql'' then JStr ''sql''
      else if key \<in> {''sh'', ''bash'', ''shell''} then JStr ''sh''
      else if key \<in> {''constructor'', ''__proto__''} then JObj []
      else JUndef)"

fun splitBlanks :: "bool \<Rightarrow> string \<Rightarrow> string \<Rightarrow> string list" where
  "splitBlanks gap cur [] = [rev cur]"
| "splitBlanks gap cur (c # cs) =
     (if \<not> isBlank c then splitBlanks False (c # cur) cs
      else if gap then splitBlanks True cur cs
      else rev cur # splitBlanks True [] cs)"

definition dropLangPrefix :: "string \<Rightarrow> string" where
  "dropLangPrefix token =
     (if take 9 token = ''language-'' then drop 9 token
      else if take 5 token = ''lang-'' then drop 5 token else token)"

fun firstAlias :: "string list \<Rightarrow> jsv" where
  "firstAlias [] = JStr ''code''"
| "firstAlias (t # ts) =
     (let mapped = aliasOf (dropLangPrefix t) in if mapped \<noteq> JUndef then mapped else firstAlias ts)"

definition toCodeLang :: "string option \<Rightarrow> jsv" where
  "toCodeLang raw =
     (case raw of None \<Rightarrow> JStr ''code''
      | Some r \<Rightarrow> if jsTrim r = [] then JStr ''code'' else firstAlias (splitBlanks False [] (toLower r)))"

definition DETECT :: "(string \<times> rx list) list" where
  "DETECT = [
     (''py'', [rSeqs [RWordBoundary, rLit ''def'', rPlus rSpace, rPlus rWord],
               rSeqs [RWordBoundary, rLit ''elif'', RWordBoundary],
               rSeqs [RWordBoundary, rLit ''self.''],
               rSeqs [RWordBoundary, rLit ''print'', rSpaces, rLit ''('']]),
     (''sql'', [rSeqs [RWordBoundary, rLitI ''select'', RWordBoundary],
                rSeqs [RWordBoundary, rLitI ''from'', RWordBoundary],
                rSeqs [RWordBoundary, rLitI ''where'', RWordBoundary]]),
     (''sh'', [rSeqs [RStart, rLit ''#!''],
               rSeqs [RWordBoundary, rLit ''echo'', RWordBoundary],
               rSeqs [rLit ''$'', rPlus rWord]]),
     (''ts'', [rSeqs [RWordBoundary, rLit ''interface'', rPlus rSpace, rPlus rWord],
               rSeqs [RWordBoundary, rLit ''type'', rPlus rSpace, rPlus rWord, rSpaces, rLit ''=''],
               rSeqs [rLit '':'', rSpaces, RAlt (rLit ''string'') (RAlt (rLit ''number'') (rLit ''boolean'')),
                      RWordBoundary]]),
     (''js'', [rSeqs [RWordBoundary, rLit ''function'', rPlus rSpace, rPlus rWord],
               rSeqs [RWordBoundary, rLit ''const'', rPlus rSpace, rPlus rWord, rSpaces, rLit ''=''],
               rSeqs [RWordBoundary, rLit ''let'', rPlus rSpace, rPlus rWord],
               rLit ''=>''])]"

definition detectCodeLang :: "string \<Rightarrow> string" where
  "detectCodeLang code =
     (if jsTrim code = [] then ''code''
      else case sort_key (\<lambda>p. - snd p)
             (filter (\<lambda>p. snd p \<ge> 1)
               (map (\<lambda>(lang, ps). (lang, int (length (filter (\<lambda>r. rxTest r code) ps)))) DETECT)) of
             [] \<Rightarrow> ''code''
           | [best] \<Rightarrow> fst best
           | best # nxt # _ \<Rightarrow> if snd best = snd nxt then ''code'' else fst best)"

definition resolveCodeLang :: "string option \<Rightarrow> string \<Rightarrow> jsv" where
  "resolveCodeLang classAttr code =
     (case classAttr of None \<Rightarrow> JStr (detectCodeLang code)
      | Some c \<Rightarrow> if jsTrim c = [] then JStr (detectCodeLang code)
          else let fromClass = toCodeLang classAttr
               in if fromClass \<noteq> JStr ''code'' then fromClass else JStr (detectCodeLang code))"

section \<open>Entities and code fences\<close>

function replaceAll :: "string \<Rightarrow> string \<Rightarrow> string \<Rightarrow> string" where
  "replaceAll pat rep s =
     (case s of [] \<Rightarrow> []
      | c # cs \<Rightarrow> if pat \<noteq> [] \<and> take (length pat) s = pat
                then rep @ replaceAll pat rep (drop (length pat) s)
                else c # replaceAll pat rep cs)"
  by pat_completeness auto
termination
  by (relation "measure (\<lambda>(_, _, s). length s)") auto

declare replaceAll.simps [simp del]

definition escapeHtml :: "string \<Rightarrow> string" where
  "escapeHtml text =
     replaceAll [CHR 0x27] ''&#39;'' (replaceAll [CHR 0x22] ''&quot;''
       (replaceAll ''>'' ''&gt;'' (replaceAll ''<'' ''&lt;'' (replaceAll ''&'' ''&amp;'' text))))"

definition decodeEntities :: "string \<Rightarrow> string" where
  "decodeEntities text =
     replaceAll ''&amp;'' ''&'' (replaceAll ''&#39;'' [CHR 0x27] (replaceAll ''&quot;'' [CHR 0x22]
       (replaceAll ''&gt;'' ''>'' (replaceAll ''&lt;'' ''<'' text))))"

definition FENCE_RE :: rx where
  "FENCE_RE = rSeqs [rLitI ''<pre'', RStar True (rNot CHR ''>''), rLit ''>'', rSpaces,
     rLitI ''<code'',
     rOpt (rSeqs [rSpace, RStar False (rNot CHR ''>''), RWordBoundary, rLitI ''class='', RSet (\<lambda>c. c = CHR 0x22),
                  RGroup 1 (RStar True (rNot (CHR 0x22))), RSet (\<lambda>c. c = CHR 0x22)]),
     RStar True (rNot CHR ''>''), rLit ''>'',
     RGroup 2 (RStar False rAny), rLitI ''</code>'', rSpaces, rLitI ''</pre>'']"

definition PRE_RE :: rx where
  "PRE_RE = rSeqs [rLitI ''<pre'', RSet (\<lambda>c. isBlank c \<or> c = CHR ''>'')]"

definition textBlock :: "string \<Rightarrow> jsv" where
  "textBlock html = JObj [(''type'', JStr ''text''), (''html'', JStr html)]"

definition codeBlock :: "jsv \<Rightarrow> jsv \<Rightarrow> jsv" where
  "codeBlock lang code = JObj [(''type'', JStr ''code''), (''lang'', lang), (''code'', code)]"

function fenceBlocks :: "char option \<Rightarrow> string \<Rightarrow> jsv list \<times> string" where
  "fenceBlocks prev rest =
     (case rxFind FENCE_RE prev [] rest of None \<Rightarrow> ([], rest)
      | Some (lead, m) \<Rightarrow>
          if length (fst (snd m)) < length rest
          then let (bs, after) = fenceBlocks (fst m) (fst (snd m));
                   code = decodeEntities (case captured 2 m of None \<Rightarrow> [] | Some c \<Rightarrow> c);
                   txt = (if jsTrim lead \<noteq> [] then [textBlock lead] else [])
               in (txt @ [codeBlock (resolveCodeLang (captured 1 m) code) (JStr code)] @ bs, after)
          else ([], rest))"
  by pat_completeness auto
termination
  by (relation "measure (\<lambda>(_, s). length s)") auto

declare fenceBlocks.simps [simp del]

definition splitTextAndCodeBlocks :: "string \<Rightarrow> jsv list" where
  "splitTextAndCodeBlocks html =
     (let (blocks, after) = fenceBlocks None html
      in if jsTrim after \<noteq> [] \<or> blocks = []
         then blocks @ [textBlock (if after \<noteq> [] then after else html)]
         else blocks)"

section \<open>Normalising\<close>

definition isSideName :: "jsv \<Rightarrow> bool" where
  "isSideName v \<longleftrightarrow> v = JStr ''front'' \<or> v = JStr ''back''"

definition isStr :: "jsv \<Rightarrow> bool" where
  "isStr v \<longleftrightarrow> strOf v \<noteq> None"

definition isImageRecord :: "jsv \<Rightarrow> bool" where
  "isImageRecord v \<longleftrightarrow> isLocalMediaBuffer v"

definition isRemoteImageContent :: "jsv \<Rightarrow> bool" where
  "isRemoteImageContent v \<longleftrightarrow> isObject v \<and> isStr (getProp ''src'' v)"

definition isCodeBlock :: "jsv \<Rightarrow> bool" where
  "isCodeBlock v \<longleftrightarrow> isObject v \<and> isStr (getProp ''lang'' v) \<and> isStr (getProp ''code'' v)"

definition isSideBlock :: "jsv \<Rightarrow> bool" where
  "isSideBlock v \<longleftrightarrow>
     (if \<not> isObject v then False
      else if getProp ''type'' v = JStr ''text'' then isStr (getProp ''html'' v)
      else if getProp ''type'' v = JStr ''code'' then isStr (getProp ''lang'' v) \<and> isStr (getProp ''code'' v)
      else if getProp ''type'' v = JStr ''image''
        then isImageRecord (getProp ''content'' v) \<or> isRemoteImageContent (getProp ''content'' v)
      else if getProp ''type'' v = JStr ''audio'' then isImageRecord (getProp ''content'' v)
      else False)"

definition blocksOf :: "jsv \<Rightarrow> jsv list option" where
  "blocksOf side = (case getProp ''blocks'' side of JArr bs \<Rightarrow> Some bs | _ \<Rightarrow> None)"

definition isBlocksSide :: "jsv \<Rightarrow> bool" where
  "isBlocksSide v \<longleftrightarrow> isObject v \<and> isSideName (getProp ''side'' v)
     \<and> (case blocksOf v of None \<Rightarrow> False | Some bs \<Rightarrow> list_all isSideBlock bs)"

definition isLegacySide :: "jsv \<Rightarrow> bool" where
  "isLegacySide v \<longleftrightarrow>
     (if \<not> isObject v then False
      else if \<not> isSideName (getProp ''side'' v) then False
      else if getProp ''type'' v = JStr ''text'' then isStr (getProp ''content'' v)
      else if getProp ''type'' v = JStr ''image'' then isImageRecord (getProp ''content'' v)
      else if getProp ''type'' v = JStr ''code'' then isCodeBlock (getProp ''content'' v)
      else False)"

definition strText :: "jsv \<Rightarrow> string" where
  "strText v = (case strOf v of None \<Rightarrow> [] | Some s \<Rightarrow> s)"

definition imageBlock :: "jsv \<Rightarrow> jsv" where
  "imageBlock content = JObj [(''type'', JStr ''image''), (''content'', content)]"

definition audioBlock :: "jsv \<Rightarrow> jsv" where
  "audioBlock content = JObj [(''type'', JStr ''audio''), (''content'', content)]"

definition legacyToBlocks :: "jsv \<Rightarrow> jsv list" where
  "legacyToBlocks side =
     (if getProp ''type'' side = JStr ''text''
        then [textBlock (escapeHtml (strText (getProp ''content'' side)))]
      else if getProp ''type'' side = JStr ''image'' then [imageBlock (getProp ''content'' side)]
      else [codeBlock (getProp ''lang'' (getProp ''content'' side)) (getProp ''code'' (getProp ''content'' side))])"

definition expandEmbeddedCode :: "jsv list \<Rightarrow> jsv list" where
  "expandEmbeddedCode blocks = concat (map (\<lambda>b.
     if getProp ''type'' b \<noteq> JStr ''text'' \<or> \<not> rxTest PRE_RE (strText (getProp ''html'' b)) then [b]
     else splitTextAndCodeBlocks (strText (getProp ''html'' b))) blocks)"

definition liftMediaCaptions :: "jsv list \<Rightarrow> jsv list" where
  "liftMediaCaptions blocks = concat (map (\<lambda>b.
     if getProp ''type'' b \<noteq> JStr ''image'' \<and> getProp ''type'' b \<noteq> JStr ''audio'' then [b]
     else (if getProp ''type'' b = JStr ''image'' then imageBlock (getProp ''content'' b)
           else audioBlock (getProp ''content'' b))
        # (case getProp ''caption'' b of
             JStr c \<Rightarrow> if jsTrim c = [] then []
               else [textBlock (''<p>'' @ escapeHtml (jsTrim c) @ ''</p>'')]
           | _ \<Rightarrow> [])) blocks)"

definition sideValue :: "jsv \<Rightarrow> jsv list \<Rightarrow> jsv" where
  "sideValue side blocks = JObj [(''side'', side), (''blocks'', JArr blocks)]"

definition normalizeSide :: "jsv \<Rightarrow> string \<Rightarrow> jsv" where
  "normalizeSide side fallbackSide =
     (if isBlocksSide side
        then sideValue (getProp ''side'' side)
          (liftMediaCaptions (expandEmbeddedCode (case blocksOf side of None \<Rightarrow> [] | Some bs \<Rightarrow> bs)))
      else if isLegacySide side then sideValue (getProp ''side'' side) (legacyToBlocks side)
      else sideValue (JStr fallbackSide) [])"

definition cardValue :: "jsv \<Rightarrow> jsv \<Rightarrow> jsv" where
  "cardValue front bak = JObj [(''front'', front), (''back'', bak)]"

definition normalizeCardData :: "jsv \<Rightarrow> jsv" where
  "normalizeCardData data =
     (if isObject data
      then cardValue (normalizeSide (getProp ''front'' data) ''front'')
             (normalizeSide (getProp ''back'' data) ''back'')
      else cardValue (sideValue (JStr ''front'') []) (sideValue (JStr ''back'') []))"

end
