(* ===== verification/ClientSerialize.thy ===== *)
theory ClientSerialize
  imports CardContent ClientDb Lww
begin

text \<open>
  apps/client/src: card data as text for backups (\<open>encodeCardData\<close>, \<open>decodeCardData\<close>), stored
  rows and wire records as topics and cards of the client and the client's last-write-wins
  rule (lib/sync-serialize.ts, services/sync-records.ts). What throws in the source is
  \<open>Inl\<close>. A decoded buffer is a new object: the decoders hand out buffer identities from a
  counter.
\<close>

section \<open>Base64 round trip\<close>

lemma base64Char_facts:
  "base64Val (base64Char n) = Some (n mod 64)" "base64Char n \<noteq> CHR ''=''"
proof -
  let ?alphabet = "''ABCDEFGHIJKLMNOPQRSTUVWXYZabcdefghijklmnopqrstuvwxyz0123456789+/''"
  have all: "map base64Val ?alphabet = map Some [0..<64]"
    by (simp add: base64Val_def Let_def upt_conv_Cons)
  have len: "length ?alphabet = 64" by simp
  have "base64Val (?alphabet ! k) = Some k" if "k < 64" for k
    using nth_map [of k ?alphabet base64Val] that unfolding all len by simp
  then show val: "base64Val (base64Char n) = Some (n mod 64)" by (simp add: base64Char_def)
  have "base64Val (CHR ''='') = None" by (simp add: base64Val_def)
  with val show "base64Char n \<noteq> CHR ''=''" by auto
qed

lemma base64Char_not_pad [simp]: "base64Char n = CHR ''='' \<longleftrightarrow> False" "CHR ''='' = base64Char n \<longleftrightarrow> False"
  using base64Char_facts(2) [of n] by auto

fun raw64 :: "nat list \<Rightarrow> string" where
  "raw64 (a # b # c # bs) =
     (let n = 65536 * a + 256 * b + c in
      [base64Char (n div 262144), base64Char (n div 4096), base64Char (n div 64), base64Char n] @ raw64 bs)"
| "raw64 [a, b] =
     (let n = 65536 * a + 256 * b in
      [base64Char (n div 262144), base64Char (n div 4096), base64Char (n div 64)])"
| "raw64 [a] = (let n = 65536 * a in [base64Char (n div 262144), base64Char (n div 4096)])"
| "raw64 [] = []"

lemma base64_length: "length (base64 bs) mod 4 = 0"
  by (induction bs rule: base64.induct) (simp_all add: Let_def)

lemma unpadded_append:
  assumes "length x = 4" "length y mod 4 = 0" "y \<noteq> []"
  shows "unpadded (x @ y) = x @ unpadded y"
proof -
  have "4 \<le> length y" using assms(2,3) by (cases "length y < 4") auto
  with assms show ?thesis by (simp add: unpadded_def)
qed

lemma unpadded_base64: "unpadded (base64 bs) = raw64 bs"
proof (induction bs rule: base64.induct)
  case (1 a b c bs)
  let ?n = "65536 * a + 256 * b + c"
  let ?x = "[base64Char (?n div 262144), base64Char (?n div 4096), base64Char (?n div 64), base64Char ?n]"
  show ?case
  proof (cases "bs = []")
    case True
    then show ?thesis by (simp add: Let_def unpadded_def)
  next
    case False
    then have "base64 bs \<noteq> []" by (cases bs rule: base64.cases) (simp_all add: Let_def)
    then have "unpadded (?x @ base64 bs) = ?x @ unpadded (base64 bs)"
      by (intro unpadded_append) (simp_all add: base64_length)
    with 1 show ?thesis by (simp add: Let_def)
  qed
qed (simp_all add: Let_def unpadded_def)

lemma raw64_length: "length (raw64 bs) mod 4 \<noteq> 1"
  by (induction bs rule: raw64.induct) (simp_all add: Let_def)

lemma six_split: "n < 16777216 \<Longrightarrow>
    262144 * (n div 262144 mod 64) + 4096 * (n div 4096 mod 64) + 64 * (n div 64 mod 64) + n mod 64 = n"
  for n :: nat
proof -
  assume "n < 16777216"
  then have "n div 262144 mod 64 = n div 262144" by simp
  moreover have "n div 4096 = 64 * (n div 262144) + n div 4096 mod 64"
    using div_mult_mod_eq [of "n div 4096" 64] by (simp add: div_mult2_eq [symmetric])
  moreover have "n div 64 = 64 * (n div 4096) + n div 64 mod 64"
    using div_mult_mod_eq [of "n div 64" 64] by (simp add: div_mult2_eq [symmetric])
  moreover have "n = 64 * (n div 64) + n mod 64" by simp
  ultimately show ?thesis by linarith
qed

lemma three_bytes:
  fixes a b c :: nat
  assumes "a < 256" "b < 256" "c < 256"
  shows "(65536 * a + 256 * b + c) div 65536 = a" "(65536 * a + 256 * b + c) div 256 mod 256 = b"
    "(65536 * a + 256 * b + c) mod 256 = c" "65536 * a + 256 * b + c < 16777216"
proof -
  have "(65536 * a + (256 * b + c)) div 65536 = a + (256 * b + c) div 65536"
    by (subst div_mult_self4) simp_all
  then show "(65536 * a + 256 * b + c) div 65536 = a" using assms by (simp add: add.assoc)
  have "(65536 * a + 256 * b + c) div 256 = 256 * a + b"
    using assms by (simp add: div_add1_eq)
  then show "(65536 * a + 256 * b + c) div 256 mod 256 = b" using assms by simp
  have "65536 * a + 256 * b + c = c + 256 * (256 * a + b)" by simp
  then have "(65536 * a + 256 * b + c) mod 256 = c mod 256" by (simp only: mod_mult_self2)
  then show "(65536 * a + 256 * b + c) mod 256 = c" using assms by simp
qed (use assms in linarith)

lemma atob_base64: "list_all (\<lambda>b. b < 256) bs \<Longrightarrow> atob (base64 bs) = Some bs"
proof -
  assume bs: "list_all (\<lambda>b. b < 256) bs"
  have "\<exists>vs. sixBits (raw64 bs) = Some vs \<and> bytesOf vs = bs"
    using bs
  proof (induction bs rule: raw64.induct)
    case (1 a b c bs)
    then obtain vs where vs: "sixBits (raw64 bs) = Some vs" "bytesOf vs = bs" by auto
    have n: "a < 256" "b < 256" "c < 256" using 1 by simp_all
    show ?case
      using vs six_split [OF three_bytes(4) [OF n]] three_bytes [OF n]
      by (simp add: Let_def base64Char_facts)
  next
    case (2 a b)
    then have n: "a < 256" "b < 256" "0 < (256::nat)" by simp_all
    have "64 dvd 65536 * a + 256 * b" by simp
    then have "(65536 * a + 256 * b) mod 64 = 0" by (simp only: dvd_imp_mod_0)
    then show ?case
      using six_split [OF three_bytes(4) [OF n]] three_bytes [OF n]
      by (simp add: Let_def base64Char_facts)
  next
    case (3 a)
    then have n: "a < 256" "0 < (256::nat)" "0 < (256::nat)" by simp_all
    have "65536 * a = 64 * (64 * (16 * a))" by simp
    then have "(65536 * a) mod 64 = 0" "(65536 * a) div 64 mod 64 = 0" by simp_all
    then show ?case
      using six_split [OF three_bytes(4) [OF n]] three_bytes [OF n]
      by (simp add: Let_def base64Char_facts)
  qed simp
  then show ?thesis using raw64_length [of bs] by (auto simp: atob_def Let_def unpadded_base64)
qed

section \<open>Card data as text\<close>

definition TypeErrorText :: string where
  "TypeErrorText = ''TypeError''"

text \<open>\<open>'buffer' in v\<close> raises for anything but an object.\<close>

definition bufferIn :: "jsv \<Rightarrow> string + bool" where
  "bufferIn v = (case v of JArr _ \<Rightarrow> Inr False
     | _ \<Rightarrow> if isObject v then Inr (hasKey ''buffer'' v) else Inl TypeErrorText)"

text \<open>
  The bytes behind \<open>new Uint8Array(record.buffer)\<close>. Card data that was normalised holds an
  \<open>ArrayBuffer\<close> there; any other value counts as empty.
\<close>

fun bufferBytes :: "jsv \<Rightarrow> string" where
  "bufferBytes (JBuf _ bytes) = bytes"
| "bufferBytes _ = []"

definition arrayBufferToBase64 :: "jsv \<Rightarrow> jsv" where
  "arrayBufferToBase64 record =
     JObj [(''buffer'', JStr (base64 (map of_char (bufferBytes (getProp ''buffer'' record))))),
           (''type'', getProp ''type'' record)]"

definition base64ToArrayBuffer :: "nat \<Rightarrow> jsv \<Rightarrow> string + jsv" where
  "base64ToArrayBuffer fresh record =
     (case atob (strText (getProp ''buffer'' record)) of
        None \<Rightarrow> Inl ''InvalidCharacterError''
      | Some bytes \<Rightarrow> Inr (JObj [(''buffer'', JBuf fresh (map char_of bytes)),
                              (''type'', getProp ''type'' record)]))"

definition isBase64Image :: "jsv \<Rightarrow> bool" where
  "isBase64Image record \<longleftrightarrow> isObject record \<and> isStr (getProp ''buffer'' record)"

definition isTextOrCode :: "jsv \<Rightarrow> bool" where
  "isTextOrCode b \<longleftrightarrow> getProp ''type'' b = JStr ''text'' \<or> getProp ''type'' b = JStr ''code''"

definition encodeBlock :: "jsv \<Rightarrow> string + jsv" where
  "encodeBlock block =
     (if block = JUndef \<or> block = JNull then Inl TypeErrorText
      else if isTextOrCode block then Inr block
      else case bufferIn (getProp ''content'' block) of
             Inl e \<Rightarrow> Inl e
           | Inr False \<Rightarrow> Inr block
           | Inr True \<Rightarrow> Inr (withProp ''content'' (arrayBufferToBase64 (getProp ''content'' block)) block))"

definition decodeBlock :: "nat \<Rightarrow> jsv \<Rightarrow> string + jsv" where
  "decodeBlock fresh block =
     (if block = JUndef \<or> block = JNull then Inl TypeErrorText
      else if isTextOrCode block then Inr block
      else case bufferIn (getProp ''content'' block) of
             Inl e \<Rightarrow> Inl e
           | Inr False \<Rightarrow> Inr block
           | Inr True \<Rightarrow>
               if isBase64Image (getProp ''content'' block)
               then (case base64ToArrayBuffer fresh (getProp ''content'' block) of
                       Inl e \<Rightarrow> Inl e | Inr c \<Rightarrow> Inr (withProp ''content'' c block))
               else Inr block)"

definition encodeSide :: "jsv \<Rightarrow> string + jsv" where
  "encodeSide side =
     (if side = JUndef \<or> side = JNull then Inl TypeErrorText
      else case blocksOf side of
             Some bs \<Rightarrow> (case eachOf encodeBlock bs of Inl e \<Rightarrow> Inl e
                         | Inr bs' \<Rightarrow> Inr (sideValue (getProp ''side'' side) bs'))
           | None \<Rightarrow> if isLocalMediaBuffer (getProp ''content'' side)
                then Inr (withProp ''content'' (arrayBufferToBase64 (getProp ''content'' side)) side)
                else Inr side)"

fun decodeBlocks :: "nat \<Rightarrow> jsv list \<Rightarrow> string + jsv list" where
  "decodeBlocks fresh [] = Inr []"
| "decodeBlocks fresh (b # bs) =
     (case decodeBlock fresh b of Inl e \<Rightarrow> Inl e
      | Inr b' \<Rightarrow> (case decodeBlocks (Suc fresh) bs of Inl e \<Rightarrow> Inl e | Inr bs' \<Rightarrow> Inr (b' # bs')))"

definition decodeSide :: "nat \<Rightarrow> jsv \<Rightarrow> string + jsv" where
  "decodeSide fresh side =
     (if side = JUndef \<or> side = JNull then Inl TypeErrorText
      else case blocksOf side of
             Some bs \<Rightarrow> (case decodeBlocks fresh bs of Inl e \<Rightarrow> Inl e
                         | Inr bs' \<Rightarrow> Inr (sideValue (getProp ''side'' side) bs'))
           | None \<Rightarrow> if isBase64Image (getProp ''content'' side)
                then (case base64ToArrayBuffer fresh (getProp ''content'' side) of
                        Inl e \<Rightarrow> Inl e | Inr c \<Rightarrow> Inr (withProp ''content'' c side))
                else Inr side)"

definition sideSize :: "jsv \<Rightarrow> nat" where
  "sideSize side = (case blocksOf side of None \<Rightarrow> 1 | Some bs \<Rightarrow> length bs)"

definition encodeCardData :: "jsv \<Rightarrow> string + jsv" where
  "encodeCardData data =
     (if data = JUndef \<or> data = JNull then Inl TypeErrorText
      else case encodeSide (getProp ''front'' data) of Inl e \<Rightarrow> Inl e
        | Inr f \<Rightarrow> (case encodeSide (getProp ''back'' data) of Inl e \<Rightarrow> Inl e
            | Inr b \<Rightarrow> Inr (cardValue f b)))"

definition decodeCardData :: "nat \<Rightarrow> jsv \<Rightarrow> string + jsv" where
  "decodeCardData fresh data =
     (if data = JUndef \<or> data = JNull then Inl TypeErrorText
      else case decodeSide fresh (getProp ''front'' data) of Inl e \<Rightarrow> Inl e
        | Inr f \<Rightarrow> (case decodeSide (fresh + sideSize (getProp ''front'' data)) (getProp ''back'' data) of
              Inl e \<Rightarrow> Inl e | Inr b \<Rightarrow> Inr (cardValue f b)))"

section \<open>Rows and records\<close>

record client_topic_row =
  ctId :: id
  ctUserId :: id
  ctTitle :: string
  ctPivot :: rat
  ctWeek :: jsv
  ctNextUpdateDate :: rat
  ctIsArchived :: bool
  ctUpdatedAt :: ms
  ctDeletedAt :: "ms option"

record client_card_row =
  ccId :: id
  ccUserId :: id
  ccTopicId :: id
  ccLevel :: int
  ccData :: jsv
  ccReviewDate :: "rat option"
  ccUpdatedAt :: ms
  ccDeletedAt :: "ms option"

text \<open>
  \<open>new Date(x).toISOString()\<close> raises outside the range of dates. An ISO text is kept as its
  time: reading it again gives the whole milliseconds.
\<close>

definition MAX_DATE :: int where
  "MAX_DATE = 8640000000000000"

definition isoTime :: "rat \<Rightarrow> string + ms" where
  "isoTime r = (if \<bar>jsTrunc r\<bar> \<le> MAX_DATE then Inr (jsTrunc r) else Inl ''Invalid time value'')"

definition isoTimeOpt :: "rat option \<Rightarrow> string + ms option" where
  "isoTimeOpt r = (case r of None \<Rightarrow> Inr None
     | Some x \<Rightarrow> (case isoTime x of Inl e \<Rightarrow> Inl e | Inr t \<Rightarrow> Inr (Some t)))"

definition orNow :: "ms option \<Rightarrow> ms \<Rightarrow> ms" where
  "orNow t now = (case t of None \<Rightarrow> now | Some x \<Rightarrow> x)"

definition topicToRow :: "topic \<Rightarrow> id \<Rightarrow> ms \<Rightarrow> string + client_topic_row" where
  "topicToRow t userId now =
     (case isoTime (of_int (orNow (tpUpdatedAt t) now)) of Inl e \<Rightarrow> Inl e
      | Inr u \<Rightarrow> Inr \<lparr>ctId = tpId t, ctUserId = userId, ctTitle = tpTitle t, ctPivot = tpPivot t,
          ctWeek = tpWeek t, ctNextUpdateDate = tpNextUpdateDate t,
          ctIsArchived = (case tpIsArchived t of None \<Rightarrow> False | Some b \<Rightarrow> b),
          ctUpdatedAt = u, ctDeletedAt = None\<rparr>)"

definition rowToTopic :: "ms \<Rightarrow> client_topic_row \<Rightarrow> topic" where
  "rowToTopic now row =
     \<lparr>tpId = ctId row, tpTitle = ctTitle row, tpPivot = ctPivot row, tpWeek = ctWeek row,
      tpNextUpdateDate = ctNextUpdateDate row, tpUpdatedAt = Some (ctUpdatedAt row),
      tpDeletedAt = Some (orNow (ctDeletedAt row) now), tpIsArchived = Some (ctIsArchived row)\<rparr>"

definition cardToRow :: "card \<Rightarrow> id \<Rightarrow> ms \<Rightarrow> string + client_card_row" where
  "cardToRow c userId now =
     (case encodeCardData (cdData c) of Inl e \<Rightarrow> Inl e
      | Inr d \<Rightarrow> (case isoTime (of_int (orNow (cdUpdatedAt c) now)) of Inl e \<Rightarrow> Inl e
          | Inr u \<Rightarrow> Inr \<lparr>ccId = cdId c, ccUserId = userId, ccTopicId = cdTopicId c, ccLevel = cdLevel c,
              ccData = d, ccReviewDate = cdReviewDate c, ccUpdatedAt = u, ccDeletedAt = None\<rparr>))"

definition rowToCard :: "nat \<Rightarrow> client_card_row \<Rightarrow> string + card" where
  "rowToCard fresh row =
     (case decodeCardData fresh (ccData row) of Inl e \<Rightarrow> Inl e
      | Inr d \<Rightarrow> Inr \<lparr>cdId = ccId row, cdTopicId = ccTopicId row, cdLevel = ccLevel row,
          cdData = normalizeCardData d, cdReviewDate = ccReviewDate row,
          cdUpdatedAt = Some (ccUpdatedAt row)\<rparr>)"

definition shouldApplyRemote :: "rat option \<Rightarrow> rat \<Rightarrow> bool" where
  "shouldApplyRemote localUpdatedAt remoteUpdatedAt \<longleftrightarrow>
     (case localUpdatedAt of None \<Rightarrow> True | Some l \<Rightarrow> remoteUpdatedAt > l)"

definition topicToRecord :: "host \<Rightarrow> ms \<Rightarrow> topic \<Rightarrow> topic_record" where
  "topicToRecord H now t =
     \<lparr>trId = tpId t, trTitle = tpTitle t, trPivot = tpPivot t, trWeekJson = jsonStringify H (tpWeek t),
      trNextUpdateDate = tpNextUpdateDate t,
      trIsArchived = Some (case tpIsArchived t of None \<Rightarrow> False | Some b \<Rightarrow> b),
      trUpdatedAt = of_int (orNow (tpUpdatedAt t) now), trDeletedAt = None\<rparr>"

definition cardToWireRecord :: "host \<Rightarrow> ms \<Rightarrow> card \<Rightarrow> string + card_record \<times> media_by_hash" where
  "cardToWireRecord H now c =
     (case prepareWireCardData H (cdData c) of Inl e \<Rightarrow> Inl e
      | Inr (wireData, mediaByHash) \<Rightarrow> Inr (\<lparr>crId = cdId c, crTopicId = cdTopicId c, crLevel = cdLevel c,
          crDataJson = jsonStringify H wireData, crReviewDate = cdReviewDate c,
          crUpdatedAt = of_int (orNow (cdUpdatedAt c) now), crDeletedAt = None\<rparr>, mediaByHash))"

definition recordToTopic :: "host \<Rightarrow> ms \<Rightarrow> topic_record \<Rightarrow> string + topic" where
  "recordToTopic H now r =
     (case jsonParse H (trWeekJson r) of None \<Rightarrow> Inl ''SyntaxError''
      | Some w \<Rightarrow> (case isoTime (trUpdatedAt r) of Inl e \<Rightarrow> Inl e
          | Inr u \<Rightarrow> (case isoTimeOpt (trDeletedAt r) of Inl e \<Rightarrow> Inl e
              | Inr d \<Rightarrow> Inr (rowToTopic now \<lparr>ctId = trId r, ctUserId = '''', ctTitle = trTitle r,
                  ctPivot = trPivot r, ctWeek = w, ctNextUpdateDate = trNextUpdateDate r,
                  ctIsArchived = (case trIsArchived r of None \<Rightarrow> False | Some b \<Rightarrow> b),
                  ctUpdatedAt = u, ctDeletedAt = d\<rparr>))))"

definition recordToCard :: "nat \<Rightarrow> card_record \<Rightarrow> jsv \<Rightarrow> string + card" where
  "recordToCard fresh r data =
     (case isoTime (crUpdatedAt r) of Inl e \<Rightarrow> Inl e
      | Inr u \<Rightarrow> (case isoTimeOpt (crDeletedAt r) of Inl e \<Rightarrow> Inl e
          | Inr d \<Rightarrow> rowToCard fresh \<lparr>ccId = crId r, ccUserId = '''', ccTopicId = crTopicId r,
              ccLevel = crLevel r, ccData = data, ccReviewDate = crReviewDate r,
              ccUpdatedAt = u, ccDeletedAt = d\<rparr>))"

interpretation remote: lww_strict shouldApplyRemote
  by unfold_locales (simp_all add: shouldApplyRemote_def)

section \<open>Media embedded in a card\<close>

definition emptyMedia :: media_stats where
  "emptyMedia = \<lparr>msBytes = 0, msImages = 0, msAudio = 0\<rparr>"

definition addEmbeddedMedia :: "media_stats \<Rightarrow> media_stats \<Rightarrow> media_stats" where
  "addEmbeddedMedia a b = \<lparr>msBytes = msBytes a + msBytes b, msImages = msImages a + msImages b,
     msAudio = msAudio a + msAudio b\<rparr>"

definition subEmbeddedMedia :: "media_stats \<Rightarrow> media_stats \<Rightarrow> media_stats" where
  "subEmbeddedMedia a b = \<lparr>msBytes = msBytes a - msBytes b, msImages = msImages a - msImages b,
     msAudio = msAudio a - msAudio b\<rparr>"

definition blockMedia :: "jsv \<Rightarrow> media_stats" where
  "blockMedia b =
     (case getProp ''buffer'' (getProp ''content'' b) of
        JBuf _ bytes \<Rightarrow>
          if getProp ''type'' b = JStr ''image'' then \<lparr>msBytes = int (length bytes), msImages = 1, msAudio = 0\<rparr>
          else if getProp ''type'' b = JStr ''audio'' then \<lparr>msBytes = int (length bytes), msImages = 0, msAudio = 1\<rparr>
          else emptyMedia
      | _ \<Rightarrow> emptyMedia)"

definition sumEmbeddedCardMedia :: "card \<Rightarrow> media_stats" where
  "sumEmbeddedCardMedia c =
     foldl (\<lambda>n side. foldl (\<lambda>n b. addEmbeddedMedia n (blockMedia b)) n
         (case blocksOf side of None \<Rightarrow> [] | Some bs \<Rightarrow> bs))
       emptyMedia [getProp ''front'' (cdData c), getProp ''back'' (cdData c)]"

section \<open>Normalised blocks\<close>

lemma firstAlias_cases: "(\<exists>s. firstAlias ts = JStr s) \<or> firstAlias ts = JObj []"
  by (induction ts) (auto simp: Let_def aliasOf_def)

lemma toCodeLang_cases: "(\<exists>s. toCodeLang raw = JStr s) \<or> toCodeLang raw = JObj []"
  using firstAlias_cases by (auto simp: toCodeLang_def split: option.split)

lemma resolveCodeLang_cases: "(\<exists>s. resolveCodeLang c code = JStr s) \<or> resolveCodeLang c code = JObj []"
  using toCodeLang_cases [of c] by (auto simp: resolveCodeLang_def Let_def split: option.split)

definition fenceBlock :: "jsv \<Rightarrow> bool" where
  "fenceBlock b \<longleftrightarrow> isSideBlock b \<or> (\<exists>code. b = codeBlock (JObj []) (JStr code))"

lemma textBlock_ok [simp]: "isSideBlock (textBlock s)"
  by (simp add: isSideBlock_def textBlock_def isStr_def)

lemma codeBlock_ok: "isSideBlock (codeBlock (JStr l) (JStr s))"
  by (simp add: isSideBlock_def codeBlock_def isStr_def)

lemma fenceBlock_text [simp]: "fenceBlock (textBlock s)"
  by (simp add: fenceBlock_def)

lemma fenceBlock_code: "fenceBlock (codeBlock (resolveCodeLang c code) (JStr code))"
  using resolveCodeLang_cases [of c code] codeBlock_ok by (auto simp: fenceBlock_def)

lemma fenceBlocks_shape: "list_all fenceBlock (fst (fenceBlocks prev rest))"
proof (induction prev rest rule: fenceBlocks.induct)
  case (1 prev rest)
  show ?case
  proof (cases "rxFind FENCE_RE prev [] rest")
    case None
    then show ?thesis by (subst fenceBlocks.simps) simp
  next
    case (Some p)
    obtain lead m where p: "p = (lead, m)" by (cases p)
    show ?thesis
    proof (cases "length (fst (snd m)) < length rest")
      case True
      obtain bs after where r: "fenceBlocks (fst m) (fst (snd m)) = (bs, after)"
        by (cases "fenceBlocks (fst m) (fst (snd m))")
      have "list_all fenceBlock (fst (fenceBlocks (fst m) (fst (snd m))))"
        using 1 Some p True by blast
      with Some p True r show ?thesis
        by (subst fenceBlocks.simps) (simp add: Let_def fenceBlock_code)
    next
      case False
      with Some p show ?thesis by (subst fenceBlocks.simps) simp
    qed
  qed
qed

lemma split_shape: "list_all fenceBlock (splitTextAndCodeBlocks html)"
  using fenceBlocks_shape [of None html] by (auto simp: splitTextAndCodeBlocks_def Let_def split: prod.split)

lemma expand_shape: "list_all isSideBlock bs \<Longrightarrow> list_all fenceBlock (expandEmbeddedCode bs)"
  using split_shape by (auto simp: expandEmbeddedCode_def list_all_iff fenceBlock_def)

lemma lift_block:
  assumes "fenceBlock b"
  shows "list_all fenceBlock (liftMediaCaptions [b])"
proof (cases "getProp ''type'' b = JStr ''image'' \<or> getProp ''type'' b = JStr ''audio''")
  case False
  with assms show ?thesis by (simp add: liftMediaCaptions_def)
next
  case True
  then have "isSideBlock b" using assms by (auto simp: fenceBlock_def codeBlock_def)
  with True have "isSideBlock (if getProp ''type'' b = JStr ''image'' then imageBlock (getProp ''content'' b)
      else audioBlock (getProp ''content'' b))"
    by (auto simp: isSideBlock_def imageBlock_def audioBlock_def split: if_splits)
  with True show ?thesis
    by (auto simp: liftMediaCaptions_def fenceBlock_def split: jsv.split)
qed

lemma lift_shape: "list_all fenceBlock bs \<Longrightarrow> list_all fenceBlock (liftMediaCaptions bs)"
proof (induction bs)
  case (Cons b bs)
  have "liftMediaCaptions (b # bs) = liftMediaCaptions [b] @ liftMediaCaptions bs"
    by (simp add: liftMediaCaptions_def)
  with Cons lift_block [of b] show ?case by simp
qed (simp add: liftMediaCaptions_def)

lemma isStr_iff: "isStr v \<longleftrightarrow> (\<exists>s. v = JStr s)"
  by (cases v) (simp_all add: isStr_def)

lemma imageBlock_ok: "isImageRecord c \<Longrightarrow> isSideBlock (imageBlock c)"
  by (simp add: isSideBlock_def imageBlock_def)

lemma codeContent_ok: "isCodeBlock c \<Longrightarrow> isSideBlock (codeBlock (getProp ''lang'' c) (getProp ''code'' c))"
  by (auto simp: isCodeBlock_def isStr_iff codeBlock_ok)

lemma legacy_shape: "isLegacySide side \<Longrightarrow> list_all fenceBlock (legacyToBlocks side)"
  by (simp add: isLegacySide_def legacyToBlocks_def fenceBlock_def imageBlock_ok codeContent_ok
      split: if_splits)

definition normalSide :: "jsv \<Rightarrow> bool" where
  "normalSide v \<longleftrightarrow> (\<exists>side bs. v = sideValue side bs \<and> isSideName side \<and> list_all fenceBlock bs)"

lemma normalSideI: "isSideName side \<Longrightarrow> list_all fenceBlock bs \<Longrightarrow> normalSide (sideValue side bs)"
  unfolding normalSide_def by blast

lemma normalizeSide_shape:
  assumes "isSideName (JStr fallbackSide)"
  shows "normalSide (normalizeSide side fallbackSide)"
proof -
  have "normalSide (normalizeSide side fallbackSide)" if b: "isBlocksSide side"
  proof -
    obtain bs where bs: "blocksOf side = Some bs" "list_all isSideBlock bs" "isSideName (getProp ''side'' side)"
      using b by (cases "blocksOf side") (simp_all add: isBlocksSide_def)
    then have "list_all fenceBlock (liftMediaCaptions (expandEmbeddedCode bs))"
      by (intro lift_shape expand_shape)
    with bs b show ?thesis by (simp add: normalizeSide_def normalSideI)
  qed
  moreover have "normalSide (normalizeSide side fallbackSide)" if "\<not> isBlocksSide side" "isLegacySide side"
  proof -
    have "isSideName (getProp ''side'' side)" using that(2) by (auto simp: isLegacySide_def split: if_splits)
    with that show ?thesis by (simp add: normalizeSide_def normalSideI legacy_shape)
  qed
  ultimately show ?thesis
    using assms by (cases "isBlocksSide side"; cases "isLegacySide side")
      (simp_all add: normalizeSide_def normalSideI)
qed


text \<open>Such a block is not valid, so normalising a second time drops its whole side.\<close>

definition proto_card :: jsv where
  "proto_card = cardValue
     (sideValue (JStr ''front'') [textBlock (''<pre><code class='' @ [CHR 0x22] @ ''__proto__'' @ [CHR 0x22] @ ''>x</code></pre>'')])
     (sideValue (JStr ''back'') [textBlock ''y''])"

lemma proto_side_lost:
  "normalizeCardData proto_card
     = cardValue (sideValue (JStr ''front'') [codeBlock (JObj []) (JStr ''x'')])
         (sideValue (JStr ''back'') [textBlock ''y''])
   \<and> normalizeCardData (normalizeCardData proto_card)
     = cardValue (sideValue (JStr ''front'') []) (sideValue (JStr ''back'') [textBlock ''y''])"
  by code_simp

section \<open>Card data as text and as records\<close>

text \<open>Card data as the client keeps it: sides of blocks whose media hold a buffer or a source.\<close>

definition storedBlock :: "jsv \<Rightarrow> bool" where
  "storedBlock b \<longleftrightarrow> isObject b \<and>
     (if isTextOrCode b then True
      else hasKey ''content'' b \<and>
        (case asLocalMedia (getProp ''content'' b) of
           Some (i, bytes, ty) \<Rightarrow> getProp ''content'' b = mediaValue i bytes ty
         | None \<Rightarrow> isObject (getProp ''content'' b) \<and> \<not> hasKey ''buffer'' (getProp ''content'' b)))"

definition storedSide :: "jsv \<Rightarrow> bool" where
  "storedSide v \<longleftrightarrow> (case blocksOf v of None \<Rightarrow> False
     | Some bs \<Rightarrow> v = sideValue (getProp ''side'' v) bs \<and> list_all storedBlock bs)"

definition storedCard :: "jsv \<Rightarrow> bool" where
  "storedCard v \<longleftrightarrow> v = cardValue (getProp ''front'' v) (getProp ''back'' v)
     \<and> storedSide (getProp ''front'' v) \<and> storedSide (getProp ''back'' v)"

lemma content_text:
  "base64ToArrayBuffer fresh (arrayBufferToBase64 (mediaValue i bytes ty)) = Inr (mediaValue fresh bytes ty)"
proof -
  have "list_all (\<lambda>b. b < 256) (map of_char bytes :: nat list)" by (simp add: list_all_iff)
  then show ?thesis
    by (simp add: base64ToArrayBuffer_def arrayBufferToBase64_def mediaValue_def strText_def
        atob_base64 comp_def)
qed

lemma block_text:
  assumes "storedBlock b"
  shows "\<exists>e. encodeBlock b = Inr e \<and> (\<forall>fresh. \<exists>b'. decodeBlock fresh e = Inr b' \<and> forgetIds b' = forgetIds b)"
proof (cases "isTextOrCode b")
  case True
  with assms show ?thesis by (auto simp: encodeBlock_def decodeBlock_def storedBlock_def)
next
  case False
  have ob: "isObject b" "hasKey ''content'' b" using assms False by (auto simp: storedBlock_def)
  have nn: "b \<noteq> JUndef" "b \<noteq> JNull" using ob(1) by auto
  let ?c = "getProp ''content'' b"
  show ?thesis
  proof (cases "asLocalMedia ?c")
    case None
    then have "isObject ?c" "\<not> hasKey ''buffer'' ?c" using assms False by (auto simp: storedBlock_def)
    then have "bufferIn ?c = Inr False" by (cases ?c) (simp_all add: bufferIn_def)
    with nn False show ?thesis by (auto simp: encodeBlock_def decodeBlock_def)
  next
    case (Some p)
    obtain i bytes ty where p: "p = (i, bytes, ty)" by (cases p)
    then have c: "?c = mediaValue i bytes ty" using assms False Some by (auto simp: storedBlock_def)
    let ?e = "withProp ''content'' (arrayBufferToBase64 ?c) b"
    have e: "encodeBlock b = Inr ?e"
      using nn False c by (simp add: encodeBlock_def bufferIn_def mediaValue_def)
    have ty3: "\<not> isTextOrCode ?e" "?e \<noteq> JUndef" "?e \<noteq> JNull"
      using False ob(1) by (simp add: isTextOrCode_def) (use ob(1) in \<open>cases b; simp\<close>)+
    have "decodeBlock fresh ?e = Inr (withProp ''content'' (mediaValue fresh bytes ty) ?e)" for fresh
      using ty3 ob(1) c content_text [of fresh i bytes ty]
      by (simp add: decodeBlock_def bufferIn_def isBase64Image_def arrayBufferToBase64_def mediaValue_def isStr_def)
    moreover have "forgetIds (withProp ''content'' (mediaValue fresh bytes ty) ?e) = forgetIds b" for fresh
      using ob(2) c by (intro forget_replaced) (simp_all add: mediaValue_def)
    ultimately show ?thesis using e by blast
  qed
qed

lemma blocks_text:
  assumes "list_all storedBlock bs"
  shows "\<exists>es. eachOf encodeBlock bs = Inr es \<and>
    (\<forall>fresh. \<exists>bs'. decodeBlocks fresh es = Inr bs' \<and> map forgetIds bs' = map forgetIds bs)"
  using assms
proof (induction bs)
  case (Cons b bs)
  from Cons obtain es where es: "eachOf encodeBlock bs = Inr es"
    "\<And>fresh. \<exists>bs'. decodeBlocks fresh es = Inr bs' \<and> map forgetIds bs' = map forgetIds bs" by auto
  from Cons.prems block_text [of b] obtain e where e: "encodeBlock b = Inr e"
    "\<And>fresh. \<exists>b'. decodeBlock fresh e = Inr b' \<and> forgetIds b' = forgetIds b" by auto
  have "\<exists>bs'. decodeBlocks fresh (e # es) = Inr bs' \<and> map forgetIds bs' = map forgetIds (b # bs)" for fresh
    using e(2) [of fresh] es(2) [of "Suc fresh"] by auto
  with e(1) es(1) show ?case by simp
qed simp

lemma blocksOf_sideValue [simp]: "blocksOf (sideValue s bs) = Some bs" "getProp ''side'' (sideValue s bs) = s"
  by (simp_all add: blocksOf_def sideValue_def)

lemma sideValue_not [simp]: "sideValue s bs \<noteq> JUndef" "sideValue s bs \<noteq> JNull"
  by (simp_all add: sideValue_def)

lemma cardValue_props [simp]:
  "getProp ''front'' (cardValue f b) = f" "getProp ''back'' (cardValue f b) = b"
  "cardValue f b \<noteq> JUndef" "cardValue f b \<noteq> JNull"
  by (simp_all add: cardValue_def)

lemma side_text:
  assumes "storedSide v"
  shows "\<exists>e. encodeSide v = Inr e \<and> (\<forall>fresh. \<exists>v'. decodeSide fresh e = Inr v' \<and> forgetIds v' = forgetIds v)"
proof -
  obtain bs where bs: "v = sideValue (getProp ''side'' v) bs" "list_all storedBlock bs"
    using assms by (auto simp: storedSide_def split: option.splits)
  obtain s where v: "v = sideValue s bs" using bs(1) by blast
  from blocks_text [OF bs(2)] obtain es where es: "eachOf encodeBlock bs = Inr es"
    "\<And>fresh. \<exists>bs'. decodeBlocks fresh es = Inr bs' \<and> map forgetIds bs' = map forgetIds bs" by auto
  have "\<exists>v'. decodeSide fresh (sideValue s es) = Inr v' \<and> forgetIds v' = forgetIds v" for fresh
  proof -
    obtain bs' where "decodeBlocks fresh es = Inr bs'" "map forgetIds bs' = map forgetIds bs"
      using es(2) by blast
    then show ?thesis by (simp add: decodeSide_def v) (simp add: sideValue_def)
  qed
  with es(1) show ?thesis by (simp add: encodeSide_def v)
qed

text \<open>
  C19. Exporting a card and importing it again gives the card back: encoding stored card data
  as text (media as base64) succeeds, and decoding that text gives the same data up to the
  identity of its buffers.
\<close>

theorem card_text_roundtrip:
  assumes "storedCard d"
  shows "\<exists>e. encodeCardData d = Inr e \<and>
    (\<forall>fresh. \<exists>d'. decodeCardData fresh e = Inr d' \<and> forgetIds d' = forgetIds d)"
proof -
  obtain f b where d: "d = cardValue f b" "storedSide f" "storedSide b"
    using assms by (auto simp: storedCard_def)
  from side_text [OF d(2)] side_text [OF d(3)] obtain ef eb where
    f: "encodeSide f = Inr ef" "\<And>fresh. \<exists>v'. decodeSide fresh ef = Inr v' \<and> forgetIds v' = forgetIds f" and
    b: "encodeSide b = Inr eb" "\<And>fresh. \<exists>v'. decodeSide fresh eb = Inr v' \<and> forgetIds v' = forgetIds b"
    by auto
  have "\<exists>d'. decodeCardData fresh (cardValue ef eb) = Inr d' \<and> forgetIds d' = forgetIds d" for fresh
    using f(2) [of fresh] b(2) [of "fresh + sideSize ef"]
    by (auto simp: decodeCardData_def d(1)) (simp add: cardValue_def)
  with f(1) b(1) show ?thesis by (simp add: encodeCardData_def d(1))
qed

definition stored_sample :: jsv where
  "stored_sample = cardValue
     (sideValue (JStr ''front'') [imageBlock (mediaValue 3 ''xyzw'' ''image/png''), textBlock ''hi''])
     (sideValue (JStr ''back'') [audioBlock (mediaValue 4 ''ab'' ''audio/ogg'')])"

theorem card_text_roundtrip_witness:
  "\<exists>e d'. encodeCardData stored_sample = Inr e \<and> decodeCardData 9 e = Inr d'
    \<and> forgetIds d' = forgetIds stored_sample"
proof -
  have "storedCard stored_sample" by code_simp
  from card_text_roundtrip [OF this] show ?thesis by blast
qed



end
