(* ===== verification/StudyMemory.thy ===== *)
theory StudyMemory
  imports ClientSerialize ClientQueue
begin

text \<open>
  apps/client/src/services/study-memory.ts: the topics and cards of a tab in memory, with an
  index of the cards by topic. The three maps keep insertion order, as a JavaScript \<open>Map\<close>.
  Cloning isolates callers from the live values; values of the model cannot be mutated, so a
  clone is the value itself. \<open>emitStudyData\<close> calls the listeners of the user interface and
  changes nothing here.
\<close>

record study_memory =
  smTopics :: "topic list"
  smCards :: "card list"
  smByTopic :: "(id \<times> card list) list"

definition bucketOf :: "id \<Rightarrow> study_memory \<Rightarrow> card list" where
  "bucketOf t m = (case tbl_get fst t (smByTopic m) of None \<Rightarrow> [] | Some p \<Rightarrow> snd p)"

definition indexCard :: "card \<Rightarrow> study_memory \<Rightarrow> study_memory" where
  "indexCard c m =
     m\<lparr>smByTopic := tbl_put fst (cdTopicId c, tbl_put cdId c (bucketOf (cdTopicId c) m)) (smByTopic m)\<rparr>"

definition unindexCard :: "card \<Rightarrow> study_memory \<Rightarrow> study_memory" where
  "unindexCard c m =
     (case tbl_get fst (cdTopicId c) (smByTopic m) of
        None \<Rightarrow> m
      | Some p \<Rightarrow>
          (let bucket = tbl_del cdId (cdId c) (snd p)
           in if bucket = [] then m\<lparr>smByTopic := tbl_del fst (cdTopicId c) (smByTopic m)\<rparr>
              else m\<lparr>smByTopic := tbl_put fst (cdTopicId c, bucket) (smByTopic m)\<rparr>))"

definition setCard :: "card \<Rightarrow> study_memory \<Rightarrow> card option \<times> study_memory" where
  "setCard c m =
     (let previous = tbl_get cdId (cdId c) (smCards m);
          m1 = (case previous of None \<Rightarrow> m | Some p \<Rightarrow> unindexCard p m)
      in (previous, indexCard c (m1\<lparr>smCards := tbl_put cdId c (smCards m1)\<rparr>)))"

definition removeCard :: "id \<Rightarrow> study_memory \<Rightarrow> card option \<times> study_memory" where
  "removeCard i m =
     (let previous = tbl_get cdId i (smCards m)
      in (previous, case previous of None \<Rightarrow> m
            | Some p \<Rightarrow> unindexCard p (m\<lparr>smCards := tbl_del cdId i (smCards m)\<rparr>)))"

definition emptyMemory :: study_memory where
  "emptyMemory = \<lparr>smTopics = [], smCards = [], smByTopic = []\<rparr>"

definition replaceAllMemory :: "topic list \<Rightarrow> card list \<Rightarrow> study_memory" where
  "replaceAllMemory nextTopics nextCards =
     fold (\<lambda>c m. snd (setCard c m)) nextCards
       (emptyMemory\<lparr>smTopics := fold (tbl_put tpId) nextTopics []\<rparr>)"

definition hydrateStudyMemory :: "client_error option \<Rightarrow> client_db \<Rightarrow> study_memory \<Rightarrow> client_error option \<times> study_memory" where
  "hydrateStudyMemory fault db m =
     (case withTransaction fault (\<lambda>db. Inr ((cbTopics db, cbCards db), db)) db of
        Inl e \<Rightarrow> (Some e, m)
      | Inr ((ts, cs), _) \<Rightarrow> (None, replaceAllMemory ts cs))"

definition getTopicFromMemory :: "id \<Rightarrow> study_memory \<Rightarrow> topic option" where
  "getTopicFromMemory i m = tbl_get tpId i (smTopics m)"

definition getAllTopicsFromMemory :: "study_memory \<Rightarrow> topic list" where
  "getAllTopicsFromMemory m = smTopics m"

definition findTopicByTitle :: "string \<Rightarrow> study_memory \<Rightarrow> topic option" where
  "findTopicByTitle title m = find (\<lambda>t. tpTitle t = title) (smTopics m)"

definition getCardFromMemory :: "id \<Rightarrow> study_memory \<Rightarrow> card option" where
  "getCardFromMemory i m = tbl_get cdId i (smCards m)"

definition getAllCardsFromMemory :: "study_memory \<Rightarrow> card list" where
  "getAllCardsFromMemory m = smCards m"

definition getCardsByTopicFromMemory :: "id \<Rightarrow> study_memory \<Rightarrow> card list" where
  "getCardsByTopicFromMemory t m = bucketOf t m"

definition getCardsByTopicAndLevelFromMemory :: "id \<Rightarrow> int \<Rightarrow> study_memory \<Rightarrow> card list" where
  "getCardsByTopicAndLevelFromMemory t level m =
     filter (\<lambda>c. cdLevel c = level) (getCardsByTopicFromMemory t m)"

definition putTopicInMemory :: "topic \<Rightarrow> study_memory \<Rightarrow> topic option \<times> study_memory" where
  "putTopicInMemory t m = (tbl_get tpId (tpId t) (smTopics m), m\<lparr>smTopics := tbl_put tpId t (smTopics m)\<rparr>)"

definition deleteTopicFromMemory :: "id \<Rightarrow> study_memory \<Rightarrow> topic option \<times> study_memory" where
  "deleteTopicFromMemory i m = (tbl_get tpId i (smTopics m), m\<lparr>smTopics := tbl_del tpId i (smTopics m)\<rparr>)"

definition putCardInMemory :: "card \<Rightarrow> study_memory \<Rightarrow> card option \<times> study_memory" where
  "putCardInMemory c m = setCard c m"

definition deleteCardFromMemory :: "id \<Rightarrow> study_memory \<Rightarrow> card option \<times> study_memory" where
  "deleteCardFromMemory i m = removeCard i m"

definition restoreTopicInMemory :: "id \<Rightarrow> topic option \<Rightarrow> study_memory \<Rightarrow> study_memory" where
  "restoreTopicInMemory i previous m =
     (case previous of None \<Rightarrow> m\<lparr>smTopics := tbl_del tpId i (smTopics m)\<rparr>
      | Some t \<Rightarrow> m\<lparr>smTopics := tbl_put tpId t (smTopics m)\<rparr>)"

definition restoreCardInMemory :: "id \<Rightarrow> card option \<Rightarrow> study_memory \<Rightarrow> study_memory" where
  "restoreCardInMemory i previous m =
     (case previous of None \<Rightarrow> snd (removeCard i m) | Some c \<Rightarrow> snd (setCard c m))"

definition clearStudyMemory :: "study_memory \<Rightarrow> study_memory" where
  "clearStudyMemory m = replaceAllMemory [] []"

section \<open>The index\<close>

text \<open>
  The index holds exactly the cards, each under its topic, and no empty bucket.
\<close>

definition mem_ok :: "study_memory \<Rightarrow> bool" where
  "mem_ok m \<longleftrightarrow> tbl_ok tpId (smTopics m) \<and> tbl_ok cdId (smCards m) \<and> tbl_ok fst (smByTopic m)
     \<and> (\<forall>p \<in> set (smByTopic m). snd p \<noteq> [] \<and> tbl_ok cdId (snd p))
     \<and> (\<forall>t c. c \<in> set (bucketOf t m) \<longleftrightarrow> c \<in> set (smCards m) \<and> cdTopicId c = t)"

lemma bucketOf_update:
  "bucketOf t (m\<lparr>smByTopic := tbl_put fst (u, b) (smByTopic m)\<rparr>) = (if t = u then b else bucketOf t m)"
  "bucketOf t (m\<lparr>smByTopic := tbl_del fst u (smByTopic m)\<rparr>) = (if t = u then [] else bucketOf t m)"
  by (simp_all add: bucketOf_def tbl_facts)

lemma bucketOf_frame [simp]:
  "bucketOf t (m\<lparr>smCards := x\<rparr>) = bucketOf t m" "bucketOf t (m\<lparr>smTopics := y\<rparr>) = bucketOf t m"
  by (simp_all add: bucketOf_def)

lemma index_frame [simp]:
  "smCards (indexCard c m) = smCards m" "smTopics (indexCard c m) = smTopics m"
  "smCards (unindexCard c m) = smCards m" "smTopics (unindexCard c m) = smTopics m"
  by (simp_all add: indexCard_def unindexCard_def Let_def split: option.split)

lemma bucketOf_unindex: "bucketOf t (unindexCard c m)
    = (if t = cdTopicId c then tbl_del cdId (cdId c) (bucketOf t m) else bucketOf t m)"
  by (cases "tbl_get fst (cdTopicId c) (smByTopic m)")
     (auto simp: unindexCard_def Let_def bucketOf_update, auto simp: bucketOf_def)

lemma bucketOf_index: "bucketOf t (indexCard c m)
    = (if t = cdTopicId c then tbl_put cdId c (bucketOf t m) else bucketOf t m)"
  by (simp add: indexCard_def bucketOf_update)

lemma emptyMemory_ok: "mem_ok emptyMemory"
  by (simp add: mem_ok_def emptyMemory_def bucketOf_def)

text \<open>The shape of the buckets alone.\<close>

definition buckets_ok :: "study_memory \<Rightarrow> bool" where
  "buckets_ok m \<longleftrightarrow> tbl_ok fst (smByTopic m) \<and> (\<forall>p \<in> set (smByTopic m). snd p \<noteq> [] \<and> tbl_ok cdId (snd p))"

lemma buckets_ok_bucket: "buckets_ok m \<Longrightarrow> tbl_ok cdId (bucketOf t m)"
  by (fastforce simp: buckets_ok_def bucketOf_def split: option.split dest: tbl_get_in)

lemma tbl_put_nonempty: "tbl_put key r xs \<noteq> []"
  by (cases xs) auto

lemma buckets_ok_index: "buckets_ok m \<Longrightarrow> buckets_ok (indexCard c m)"
  using buckets_ok_bucket [of m "cdTopicId c"] set_tbl_put_subset [of fst]
  by (fastforce simp: buckets_ok_def indexCard_def tbl_ok_put tbl_put_nonempty)

lemma buckets_ok_unindex: "buckets_ok m \<Longrightarrow> buckets_ok (unindexCard c m)"
  using buckets_ok_bucket [of m "cdTopicId c"] set_tbl_put_subset [of fst]
  by (fastforce simp: buckets_ok_def unindexCard_def Let_def tbl_ok_put tbl_ok_del set_tbl_del
      bucketOf_def split: option.split)

lemma buckets_ok_frame [simp]: "buckets_ok (m\<lparr>smCards := x\<rparr>) = buckets_ok m"
  by (simp add: buckets_ok_def)

lemma mem_okD:
  assumes "mem_ok m"
  shows "tbl_ok tpId (smTopics m)" "tbl_ok cdId (smCards m)" "buckets_ok m"
    "c \<in> set (bucketOf t m) \<longleftrightarrow> c \<in> set (smCards m) \<and> cdTopicId c = t"
  using assms by (auto simp: mem_ok_def buckets_ok_def)

lemma mem_okI:
  "tbl_ok tpId (smTopics m) \<Longrightarrow> tbl_ok cdId (smCards m) \<Longrightarrow> buckets_ok m \<Longrightarrow>
   (\<And>t c. c \<in> set (bucketOf t m) \<longleftrightarrow> c \<in> set (smCards m) \<and> cdTopicId c = t) \<Longrightarrow> mem_ok m"
  by (simp add: mem_ok_def buckets_ok_def)

lemma same_id: "tbl_ok cdId cs \<Longrightarrow> c \<in> set cs \<Longrightarrow> d \<in> set cs \<Longrightarrow> cdId c = cdId d \<Longrightarrow> c = d"
  by (auto simp: distinct_map dest: inj_onD)

lemma setCard_ok:
  assumes "mem_ok m"
  shows "mem_ok (snd (setCard c m))"
proof (rule mem_okI)
  let ?p = "tbl_get cdId (cdId c) (smCards m)"
  let ?m1 = "case ?p of None \<Rightarrow> m | Some p \<Rightarrow> unindexCard p m"
  have fr: "smCards ?m1 = smCards m" "smTopics ?m1 = smTopics m" by (simp_all split: option.split)
  note ok = mem_okD [OF assms]
  show "tbl_ok tpId (smTopics (snd (setCard c m)))" using ok(1) by (simp add: setCard_def Let_def fr)
  show "tbl_ok cdId (smCards (snd (setCard c m)))" using ok(2) by (simp add: setCard_def Let_def fr tbl_ok_put)
  have "buckets_ok ?m1" using ok(3) by (simp add: buckets_ok_unindex split: option.split)
  then show "buckets_ok (snd (setCard c m))" by (simp add: setCard_def Let_def buckets_ok_index)
  fix t d
  have b1: "d \<in> set (bucketOf u ?m1) \<longleftrightarrow> d \<in> set (smCards m) \<and> cdTopicId d = u \<and> cdId d \<noteq> cdId c" for d u
  proof (cases ?p)
    case None
    then have "d \<in> set (smCards m) \<Longrightarrow> cdId d \<noteq> cdId c" for d by (metis image_eqI tbl_get_None)
    with None ok(4) show ?thesis by auto
  next
    case (Some p)
    then have p: "p \<in> set (smCards m)" "cdId p = cdId c" by (auto dest: tbl_get_in tbl_get_key)
    with Some ok(4) show ?thesis
      by (auto simp: bucketOf_unindex set_tbl_del dest: same_id [OF ok(2)])
  qed
  have "tbl_ok cdId (bucketOf t ?m1)" using \<open>buckets_ok ?m1\<close> by (rule buckets_ok_bucket)
  then have "d \<in> set (tbl_put cdId c (bucketOf t ?m1)) \<longleftrightarrow>
      d = c \<or> (d \<in> set (smCards m) \<and> cdTopicId d = t \<and> cdId d \<noteq> cdId c)"
    by (auto simp: set_tbl_put b1)
  moreover have "d \<in> set (tbl_put cdId c (smCards m)) \<longleftrightarrow> d = c \<or> (d \<in> set (smCards m) \<and> cdId d \<noteq> cdId c)"
    using ok(2) by (rule set_tbl_put)
  ultimately show "d \<in> set (bucketOf t (snd (setCard c m)))
      \<longleftrightarrow> d \<in> set (smCards (snd (setCard c m))) \<and> cdTopicId d = t"
    using b1 [of d t] by (auto simp: setCard_def Let_def bucketOf_index fr)
qed

lemma removeCard_ok:
  assumes "mem_ok m"
  shows "mem_ok (snd (removeCard i m))"
proof (cases "tbl_get cdId i (smCards m)")
  case None
  with assms show ?thesis by (simp add: removeCard_def)
next
  case (Some p)
  note ok = mem_okD [OF assms]
  from Some have p: "p \<in> set (smCards m)" "cdId p = i" by (auto dest: tbl_get_in tbl_get_key)
  have r: "snd (removeCard i m) = unindexCard p (m\<lparr>smCards := tbl_del cdId i (smCards m)\<rparr>)"
    using Some by (simp add: removeCard_def)
  show ?thesis
    unfolding r
  proof (rule mem_okI)
    show "buckets_ok (unindexCard p (m\<lparr>smCards := tbl_del cdId i (smCards m)\<rparr>))"
      using ok(3) by (simp add: buckets_ok_unindex)
    fix t d
    show "d \<in> set (bucketOf t (unindexCard p (m\<lparr>smCards := tbl_del cdId i (smCards m)\<rparr>))) \<longleftrightarrow>
       d \<in> set (smCards (unindexCard p (m\<lparr>smCards := tbl_del cdId i (smCards m)\<rparr>))) \<and> cdTopicId d = t"
      using p ok(4) by (auto simp: bucketOf_unindex set_tbl_del dest: same_id [OF ok(2)])
  qed (use ok(1,2) in \<open>simp_all add: tbl_ok_del\<close>)
qed

lemma smCards_set [simp]:
  "smCards (snd (setCard c m)) = tbl_put cdId c (smCards m)"
  "smTopics (snd (setCard c m)) = smTopics m"
  "smCards (snd (removeCard i m)) = (if tbl_get cdId i (smCards m) = None then smCards m else tbl_del cdId i (smCards m))"
  "smTopics (snd (removeCard i m)) = smTopics m"
  by (simp_all add: setCard_def removeCard_def Let_def split: option.split)

lemma get_removeCard: "tbl_get cdId k (smCards (snd (removeCard i m))) = (if k = i then None else tbl_get cdId k (smCards m))"
  by (simp add: tbl_get_del)

interpretation cardmem: keyed_store cdId getCardFromMemory "\<lambda>c m. snd (putCardInMemory c m)"
  "\<lambda>i m. snd (deleteCardFromMemory i m)" mem_ok
  by unfold_locales (simp_all add: getCardFromMemory_def putCardInMemory_def deleteCardFromMemory_def
      tbl_get_put get_removeCard setCard_ok removeCard_ok del: smCards_set(3), auto dest: tbl_get_key simp: tbl_get_put)

lemma mem_ok_topics: "mem_ok m \<Longrightarrow> tbl_ok tpId ts \<Longrightarrow> mem_ok (m\<lparr>smTopics := ts\<rparr>)"
  by (simp add: mem_ok_def)

interpretation topicmem: keyed_store tpId getTopicFromMemory "\<lambda>t m. snd (putTopicInMemory t m)"
  "\<lambda>i m. snd (deleteTopicFromMemory i m)" mem_ok
  by unfold_locales (auto simp: getTopicFromMemory_def putTopicInMemory_def deleteTopicFromMemory_def
      tbl_get_put tbl_get_del mem_ok_topics tbl_ok_put tbl_ok_del mem_okD dest: tbl_get_key)

end
