(* ===== verification/StudyStore.thy ===== *)
theory StudyStore
  imports StudyMemory
begin

text \<open>
  apps/client/src/services: the operations of the user interface on topics
  (topic.services.ts) and cards (card.services.ts), and the media statistics they keep
  (lib/card-media-stats.ts). Every write goes to memory first, then to IndexedDB together with
  its outbox entry in one transaction, and is rolled back in memory when the transaction
  fails.

  \<open>call_env\<close> is what a call meets: the clock, the random ids it draws, whether a backend is
  configured and the browser online, and which of its transactions the browser aborts
  (\<open>ceFault k\<close> is the fault of the k-th). An operation returns its error, if it rejects, and
  the client it leaves.
\<close>

record client =
  clDb :: client_db
  clMem :: study_memory
  clState :: sync_state
  clInFlight :: "id set"
  clUser :: "id option"
  clEntitled :: bool
  clTriggerTimer :: bool

record call_env =
  ceBackend :: bool
  ceOnline :: bool
  ceNow :: ms
  ceTz :: tz
  ceUuid :: "nat \<Rightarrow> id"
  ceFault :: "nat \<Rightarrow> client_error option"
  ceStatsFault :: "client_error option"
  ceUnclonable :: "card \<Rightarrow> bool"

section \<open>Shared steps\<close>

text \<open>\<open>triggerSync\<close> (sync.service.ts) arms the debounce timer of the next run.\<close>

definition triggerSync :: "call_env \<Rightarrow> client \<Rightarrow> client" where
  "triggerSync env cl =
     (if clUser cl = None \<or> \<not> clEntitled cl \<or> ssStatus (clState cl) = StRevoked
         \<or> ssStatus (clState cl) = StUpdateRequired \<or> \<not> ceBackend env \<or> \<not> ceOnline env
      then cl else cl\<lparr>clTriggerTimer := True\<rparr>)"

definition queueOps :: "call_env \<Rightarrow> nat \<Rightarrow> id set \<Rightarrow> enqueue_op list \<Rightarrow> client_db \<Rightarrow> client_db" where
  "queueOps env n inFlight ops db =
     db\<lparr>cbQueue := putSyncQueueOps (ceBackend env) inFlight (ceNow env) (\<lambda>i. ceUuid env (n + i)) ops (cbQueue db)\<rparr>"

definition afterWrite :: "call_env \<Rightarrow> client \<Rightarrow> client" where
  "afterWrite env cl =
     triggerSync env (cl\<lparr>clState := refreshSyncQueueDepth (ceBackend env) (clDb cl) (clState cl)\<rparr>)"

definition opFor :: "sync_table \<Rightarrow> sync_operation \<Rightarrow> id \<Rightarrow> enqueue_op" where
  "opFor t opn r = \<lparr>eqTable = t, eqRecordId = r, eqOperation = opn\<rparr>"

function chunk :: "nat \<Rightarrow> 'a list \<Rightarrow> 'a list list" where
  "chunk n xs = (if n = 0 \<or> xs = [] then [] else take n xs # chunk n (drop n xs))"
  by pat_completeness auto
termination
  by (relation "measure (\<lambda>(_, xs). length xs)") auto

declare chunk.simps [simp del]

section \<open>Media statistics\<close>

definition writeMeta :: "media_stats \<Rightarrow> client_db \<Rightarrow> client_db" where
  "writeMeta s db = db\<lparr>cbMediaStats := Some \<lparr>msBytes = max 0 (msBytes s), msImages = max 0 (msImages s),
     msAudio = max 0 (msAudio s)\<rparr>\<rparr>"

definition sumCards :: "card list \<Rightarrow> media_stats" where
  "sumCards cs = foldl (\<lambda>n c. addEmbeddedMedia n (sumEmbeddedCardMedia c)) emptyMedia cs"

definition rebuildCardMediaStats :: "client_db \<Rightarrow> media_stats \<times> client_db" where
  "rebuildCardMediaStats db = (sumCards (cbCards db), writeMeta (sumCards (cbCards db)) db)"

definition getCardMediaStats :: "client_db \<Rightarrow> media_stats \<times> client_db" where
  "getCardMediaStats db = (case cbMediaStats db of Some s \<Rightarrow> (s, db) | None \<Rightarrow> rebuildCardMediaStats db)"

definition adjustCardMediaStats :: "client_error option \<Rightarrow> media_stats \<Rightarrow> client_db \<Rightarrow> client_error + client_db" where
  "adjustCardMediaStats fault delta db =
     (if msBytes delta = 0 \<and> msImages delta = 0 \<and> msAudio delta = 0 then Inr db
      else case fault of Some e \<Rightarrow> Inl (mapTransactionError e)
        | None \<Rightarrow> (case getCardMediaStats db of
             (current, db1) \<Rightarrow> Inr (writeMeta (addEmbeddedMedia current delta) db1)))"

definition mediaOf :: "card option \<Rightarrow> media_stats" where
  "mediaOf c = (case c of None \<Rightarrow> emptyMedia | Some x \<Rightarrow> sumEmbeddedCardMedia x)"

definition recordCardMediaUpsert ::
  "client_error option \<Rightarrow> card option \<Rightarrow> card \<Rightarrow> client_db \<Rightarrow> client_error + client_db" where
  "recordCardMediaUpsert fault previous nxt db =
     adjustCardMediaStats fault (subEmbeddedMedia (sumEmbeddedCardMedia nxt) (mediaOf previous)) db"

definition recordCardMediaDelete :: "client_error option \<Rightarrow> card \<Rightarrow> client_db \<Rightarrow> client_error + client_db" where
  "recordCardMediaDelete fault previous db =
     adjustCardMediaStats fault (subEmbeddedMedia emptyMedia (sumEmbeddedCardMedia previous)) db"

text \<open>Statistics are kept after the commit; when that fails the call rejects with the rows
  already stored.\<close>

definition thenStats :: "call_env \<Rightarrow> (client_error option \<Rightarrow> client_db \<Rightarrow> client_error + client_db)
    \<Rightarrow> client \<Rightarrow> client_error option \<times> client" where
  "thenStats env f cl =
     (case f (ceStatsFault env) (clDb cl) of
        Inl e \<Rightarrow> (Some e, cl)
      | Inr db \<Rightarrow> (None, afterWrite env (cl\<lparr>clDb := db\<rparr>)))"

section \<open>Topics\<close>

definition duplicateTitleError :: "string \<Rightarrow> client_error" where
  "duplicateTitleError title =
     AppFailure (''A topic with the title '' @ title @ '' already exists. Topic title must be unique.'')"

definition createTopicService :: "call_env \<Rightarrow> topic \<Rightarrow> client \<Rightarrow> client_error option \<times> client" where
  "createTopicService env t cl =
     (if findTopicByTitle (tpTitle t) (clMem cl) \<noteq> None then (Some (duplicateTitleError (tpTitle t)), cl)
      else case putTopicInMemory t (clMem cl) of (previous, mem) \<Rightarrow>
        (case withTransaction (ceFault env 0)
            (\<lambda>db. case addTopicRow t db of Inl e \<Rightarrow> Inl e
               | Inr db1 \<Rightarrow> Inr ((), queueOps env 0 (clInFlight cl) [opFor Topics Upsert (tpId t)] db1)) (clDb cl) of
           Inl e \<Rightarrow> (Some (if e = ConstraintError then duplicateTitleError (tpTitle t) else e),
                      cl\<lparr>clMem := restoreTopicInMemory (tpId t) previous mem\<rparr>)
         | Inr (_, db) \<Rightarrow> (None, afterWrite env (cl\<lparr>clMem := mem, clDb := db\<rparr>))))"

fun titleClash :: "topic list \<Rightarrow> study_memory \<Rightarrow> string option" where
  "titleClash [] m = None"
| "titleClash (t # ts) m =
     (case findTopicByTitle (tpTitle t) m of
        None \<Rightarrow> titleClash ts m
      | Some u \<Rightarrow> if tpId u \<noteq> tpId t then Some (tpTitle t) else titleClash ts m)"

fun putTopicsInMemory :: "topic list \<Rightarrow> study_memory \<Rightarrow> (id \<times> topic option) list \<times> study_memory" where
  "putTopicsInMemory [] m = ([], m)"
| "putTopicsInMemory (t # ts) m =
     (case putTopicInMemory t m of (previous, m1) \<Rightarrow>
        (case putTopicsInMemory ts m1 of (ps, m2) \<Rightarrow> ((tpId t, previous) # ps, m2)))"

fun putTopicRows :: "topic list \<Rightarrow> client_db \<Rightarrow> client_error + client_db" where
  "putTopicRows [] db = Inr db"
| "putTopicRows (t # ts) db =
     (case putTopicRow t db of Inl e \<Rightarrow> Inl e | Inr db1 \<Rightarrow> putTopicRows ts db1)"

definition restoreTopics :: "(id \<times> topic option) list \<Rightarrow> study_memory \<Rightarrow> study_memory" where
  "restoreTopics ps m = fold (\<lambda>p. restoreTopicInMemory (fst p) (snd p)) ps m"

definition persistTopics :: "call_env \<Rightarrow> topic list \<Rightarrow> client \<Rightarrow> client_error option \<times> client" where
  "persistTopics env ts0 cl =
     (case titleClash ts0 (clMem cl) of Some title \<Rightarrow> (Some (duplicateTitleError title), cl)
      | None \<Rightarrow>
          (let ts = map (\<lambda>t. t\<lparr>tpUpdatedAt := Some (ceNow env)\<rparr>) ts0
           in case putTopicsInMemory ts (clMem cl) of (previous, mem) \<Rightarrow>
             (case withTransaction (ceFault env 0)
                 (\<lambda>db. case putTopicRows ts db of Inl e \<Rightarrow> Inl e
                    | Inr db1 \<Rightarrow> Inr ((), queueOps env 0 (clInFlight cl) (map (opFor Topics Upsert \<circ> tpId) ts) db1))
                 (clDb cl) of
                Inl e \<Rightarrow> (Some (if e = ConstraintError
                            then duplicateTitleError (case ts of [] \<Rightarrow> '''' | t # _ \<Rightarrow> tpTitle t) else e),
                           cl\<lparr>clMem := restoreTopics previous mem\<rparr>)
              | Inr (_, db) \<Rightarrow> (None, afterWrite env (cl\<lparr>clMem := mem, clDb := db\<rparr>)))))"

definition updateTopic :: "call_env \<Rightarrow> topic \<Rightarrow> client \<Rightarrow> client_error option \<times> client" where
  "updateTopic env t cl = persistTopics env [t] cl"

definition updateTopics :: "call_env \<Rightarrow> topic list \<Rightarrow> client \<Rightarrow> client_error option \<times> client" where
  "updateTopics env ts cl = persistTopics env ts cl"

definition archiveTopics :: "call_env \<Rightarrow> topic list \<Rightarrow> client \<Rightarrow> client_error option \<times> client" where
  "archiveTopics env ts cl = persistTopics env (map (\<lambda>t. t\<lparr>tpIsArchived := Some True\<rparr>) ts) cl"

definition unarchiveTopics :: "call_env \<Rightarrow> topic list \<Rightarrow> client \<Rightarrow> client_error option \<times> client" where
  "unarchiveTopics env ts cl =
     (case eachOf (reactivateTopic (ceTz env) (ceNow env)) ts of
        Inl e \<Rightarrow> (Some (AppFailure e), cl)
      | Inr ts' \<Rightarrow> persistTopics env ts' cl)"

definition needsUpdate :: "ms \<Rightarrow> topic \<Rightarrow> bool" where
  "needsUpdate now t \<longleftrightarrow> tpIsArchived t \<noteq> Some True \<and> tpNextUpdateDate t \<le> of_int now"

definition refreshWeek :: "call_env \<Rightarrow> topic \<Rightarrow> string + topic" where
  "refreshWeek env t = (if needsUpdate (ceNow env) t then updateWeek (ceTz env) (ceNow env) t else Inr t)"

definition getAllTopics :: "call_env \<Rightarrow> client \<Rightarrow> (client_error + topic list) \<times> client" where
  "getAllTopics env cl =
     (let old = getAllTopicsFromMemory (clMem cl)
      in case eachOf (refreshWeek env) old of
           Inl e \<Rightarrow> (Inl (AppFailure e), cl)
         | Inr ts \<Rightarrow>
             (let updated = map snd (filter (\<lambda>p. needsUpdate (ceNow env) (fst p)) (zip old ts));
                  answer = sort_key (\<lambda>t. - tpPivot t) ts
              in if updated = [] then (Inr answer, cl)
                 else case updateTopics env updated cl of
                        (Some e, cl') \<Rightarrow> (Inl e, cl')
                      | (None, cl') \<Rightarrow> (Inr answer, cl')))"

definition LEVELS :: "int list" where
  "LEVELS = [0, 1, 2, 3, 4, 5, 6, 7, 8]"

definition getTopicById :: "id \<Rightarrow> study_memory \<Rightarrow> client_error + topic \<times> (int \<times> nat) list" where
  "getTopicById i m =
     (case getTopicFromMemory i m of
        None \<Rightarrow> Inl (AppFailure (''Topic with ID '' @ i @ '' not found''))
      | Some t \<Rightarrow> Inr (t, map (\<lambda>l. (l, length (filter (\<lambda>c. cdLevel c = l) (getCardsByTopicFromMemory i m)))) LEVELS))"

definition DELETE_CHUNK :: nat where
  "DELETE_CHUNK = 50"

definition removedMedia :: "card list \<Rightarrow> media_stats" where
  "removedMedia cs = foldl (\<lambda>d c. addEmbeddedMedia d (subEmbeddedMedia emptyMedia (sumEmbeddedCardMedia c))) emptyMedia cs"

definition deleteCardRows :: "id list \<Rightarrow> client_db \<Rightarrow> client_db" where
  "deleteCardRows ids db = db\<lparr>cbCards := fold (tbl_del cdId) ids (cbCards db)\<rparr>"

fun deleteTopicCards :: "call_env \<Rightarrow> id set \<Rightarrow> nat \<Rightarrow> card list list \<Rightarrow> client_db \<Rightarrow> media_stats
    \<Rightarrow> client_error option \<times> client_db \<times> media_stats" where
  "deleteTopicCards env inFlight k [] db delta = (None, db, delta)"
| "deleteTopicCards env inFlight k (slice # slices) db delta =
     (case withTransaction (ceFault env k)
         (\<lambda>db. Inr ((), queueOps env (DELETE_CHUNK * k) inFlight (map (opFor Cards Delete \<circ> cdId) slice)
                   (deleteCardRows (map cdId slice) db))) db of
        Inl e \<Rightarrow> (Some e, db, delta)
      | Inr (_, db1) \<Rightarrow> deleteTopicCards env inFlight (Suc k) slices db1 (addEmbeddedMedia delta (removedMedia slice)))"

definition restoreCards :: "(id \<times> card option) list \<Rightarrow> study_memory \<Rightarrow> study_memory" where
  "restoreCards ps m = fold (\<lambda>p. restoreCardInMemory (fst p) (snd p)) ps m"

definition deleteTopic :: "call_env \<Rightarrow> id \<Rightarrow> client \<Rightarrow> client_error option \<times> client" where
  "deleteTopic env i cl =
     (let previousCards = getCardsByTopicFromMemory i (clMem cl)
      in case deleteTopicFromMemory i (clMem cl) of (previousTopic, mem0) \<Rightarrow>
        (let mem = fold (\<lambda>c m. snd (deleteCardFromMemory (cdId c) m)) previousCards mem0;
             slices = chunk DELETE_CHUNK previousCards;
             failed = (\<lambda>e db. (Some e, cl\<lparr>clDb := db,
               clMem := fold (\<lambda>c m. snd (putCardInMemory c m)) previousCards
                          (restoreTopicInMemory i previousTopic mem)\<rparr>))
         in case deleteTopicCards env (clInFlight cl) 0 slices (clDb cl) emptyMedia of
              (Some e, db, _) \<Rightarrow> failed e db
            | (None, db, delta) \<Rightarrow>
                (case withTransaction (ceFault env (length slices))
                    (\<lambda>db. Inr ((), queueOps env (DELETE_CHUNK * length slices) (clInFlight cl) [opFor Topics Delete i]
                              (db\<lparr>cbTopics := tbl_del tpId i (cbTopics db)\<rparr>))) db of
                   Inl e \<Rightarrow> failed e db
                 | Inr (_, db') \<Rightarrow>
                     thenStats env (\<lambda>f. adjustCardMediaStats f delta) (cl\<lparr>clDb := db', clMem := mem\<rparr>))))"

section \<open>Cards\<close>

definition getCardsByTopicAndLevel :: "id \<Rightarrow> int \<Rightarrow> study_memory \<Rightarrow> card list" where
  "getCardsByTopicAndLevel t level m =
     map (\<lambda>c. c\<lparr>cdData := normalizeCardData (cdData c)\<rparr>) (getCardsByTopicAndLevelFromMemory t level m)"

definition createCard :: "call_env \<Rightarrow> card \<Rightarrow> client \<Rightarrow> client_error option \<times> client" where
  "createCard env c cl =
     (case putCardInMemory c (clMem cl) of (previous, mem) \<Rightarrow>
        (case withTransaction (ceFault env 0)
            (\<lambda>db. case addCardRow c db of Inl e \<Rightarrow> Inl e
               | Inr db1 \<Rightarrow> Inr ((), queueOps env 0 (clInFlight cl) [opFor Cards Upsert (cdId c)] db1)) (clDb cl) of
           Inl e \<Rightarrow> (Some e, cl\<lparr>clMem := restoreCardInMemory (cdId c) previous mem\<rparr>)
         | Inr (_, db) \<Rightarrow>
             thenStats env (\<lambda>f. recordCardMediaUpsert f None c) (cl\<lparr>clMem := mem, clDb := db\<rparr>)))"

definition updateCard :: "call_env \<Rightarrow> card \<Rightarrow> client \<Rightarrow> client_error option \<times> client" where
  "updateCard env c0 cl =
     (let c = c0\<lparr>cdUpdatedAt := Some (ceNow env)\<rparr>
      in case putCardInMemory c (clMem cl) of (previous, mem) \<Rightarrow>
        (case withTransaction (ceFault env 0)
            (\<lambda>db. Inr ((), queueOps env 0 (clInFlight cl) [opFor Cards Upsert (cdId c)] (putCardRow c db))) (clDb cl) of
           Inl e \<Rightarrow> (Some e, cl\<lparr>clMem := restoreCardInMemory (cdId c) previous mem\<rparr>)
         | Inr (_, db) \<Rightarrow>
             thenStats env (\<lambda>f. recordCardMediaUpsert f previous c) (cl\<lparr>clMem := mem, clDb := db\<rparr>)))"

definition deleteCardById :: "call_env \<Rightarrow> id \<Rightarrow> client \<Rightarrow> client_error option \<times> client" where
  "deleteCardById env i cl =
     (case deleteCardFromMemory i (clMem cl) of (previous, mem) \<Rightarrow>
        (case withTransaction (ceFault env 0)
            (\<lambda>db. Inr ((), queueOps env 0 (clInFlight cl) [opFor Cards Delete i] (deleteCardRows [i] db))) (clDb cl) of
           Inl e \<Rightarrow> (Some e, cl\<lparr>clMem := restoreCardInMemory i previous mem\<rparr>)
         | Inr (_, db) \<Rightarrow>
             (case previous of
                None \<Rightarrow> (None, afterWrite env (cl\<lparr>clMem := mem, clDb := db\<rparr>))
              | Some p \<Rightarrow> thenStats env (\<lambda>f. recordCardMediaDelete f p) (cl\<lparr>clMem := mem, clDb := db\<rparr>))))"

definition IMPORT_CHUNK :: nat where
  "IMPORT_CHUNK = 50"

text \<open>\<open>previousById\<close>: a \<open>Map\<close> from id to the value before the call.\<close>

type_synonym previous_cards = "(id \<times> card option) list"

definition previousOf :: "previous_cards \<Rightarrow> id \<Rightarrow> card option" where
  "previousOf ps i = (case tbl_get fst i ps of None \<Rightarrow> None | Some p \<Rightarrow> snd p)"

definition knownCards :: "previous_cards \<Rightarrow> id list \<Rightarrow> card list" where
  "knownCards ps ids = concat (map (\<lambda>i. case previousOf ps i of None \<Rightarrow> [] | Some c \<Rightarrow> [c]) ids)"

definition deleteCardsChunk :: "call_env \<Rightarrow> nat \<Rightarrow> id set \<Rightarrow> previous_cards \<Rightarrow> id list \<Rightarrow> client_db
    \<Rightarrow> client_error + media_stats \<times> client_db" where
  "deleteCardsChunk env k inFlight ps ids db =
     withTransaction (ceFault env k)
       (\<lambda>db. Inr (removedMedia (knownCards ps ids),
          queueOps env (IMPORT_CHUNK * k) inFlight
            (map (opFor Cards Delete) (filter (\<lambda>i. previousOf ps i \<noteq> None) ids)) (deleteCardRows ids db))) db"

fun deleteCardsChunks :: "call_env \<Rightarrow> nat \<Rightarrow> id set \<Rightarrow> previous_cards \<Rightarrow> id list list \<Rightarrow> client_db \<Rightarrow> media_stats
    \<Rightarrow> client_error option \<times> client_db \<times> media_stats" where
  "deleteCardsChunks env k inFlight ps [] db delta = (None, db, delta)"
| "deleteCardsChunks env k inFlight ps (ids # slices) db delta =
     (case deleteCardsChunk env k inFlight ps ids db of
        Inl e \<Rightarrow> (Some e, db, delta)
      | Inr (d, db1) \<Rightarrow> deleteCardsChunks env (Suc k) inFlight ps slices db1 (addEmbeddedMedia delta d))"

fun removeFromMemory :: "id list \<Rightarrow> previous_cards \<Rightarrow> study_memory \<Rightarrow> previous_cards \<times> study_memory" where
  "removeFromMemory [] ps m = (ps, m)"
| "removeFromMemory (i # is) ps m =
     (case deleteCardFromMemory i m of (previous, m1) \<Rightarrow> removeFromMemory is (tbl_put fst (i, previous) ps) m1)"

definition deleteCardsBulk :: "call_env \<Rightarrow> id list \<Rightarrow> client \<Rightarrow> client_error option \<times> client" where
  "deleteCardsBulk env ids cl =
     (if ids = [] then (None, cl)
      else case removeFromMemory ids [] (clMem cl) of (ps, mem) \<Rightarrow>
        (case deleteCardsChunks env 0 (clInFlight cl) ps (chunk IMPORT_CHUNK ids) (clDb cl) emptyMedia of
           (Some e, db, _) \<Rightarrow> (Some e, cl\<lparr>clDb := db, clMem := restoreCards ps mem\<rparr>)
         | (None, db, delta) \<Rightarrow>
             thenStats env (\<lambda>f. adjustCardMediaStats f delta) (cl\<lparr>clDb := db, clMem := mem\<rparr>)))"

definition putAllCards :: "call_env \<Rightarrow> id set \<Rightarrow> card list \<Rightarrow> bool \<Rightarrow> client_db \<Rightarrow> client_error + unit \<times> client_db" where
  "putAllCards env inFlight cs enqueue db =
     withTransaction (ceFault env 0)
       (\<lambda>db. Inr ((), (if enqueue then queueOps env 0 inFlight (map (opFor Cards Upsert \<circ> cdId) cs) else id)
                    (fold putCardRow cs db))) db"

fun putCardsInMemory :: "card list \<Rightarrow> study_memory \<Rightarrow> previous_cards \<times> study_memory" where
  "putCardsInMemory [] m = ([], m)"
| "putCardsInMemory (c # cs) m =
     (case putCardInMemory c m of (previous, m1) \<Rightarrow>
        (case putCardsInMemory cs m1 of (ps, m2) \<Rightarrow> ((cdId c, previous) # ps, m2)))"

definition updateCardsLevelBulk :: "call_env \<Rightarrow> card list \<Rightarrow> int \<Rightarrow> client \<Rightarrow> client_error option \<times> client" where
  "updateCardsLevelBulk env cs0 level cl =
     (if cs0 = [] then (None, cl)
      else let cs = map (\<lambda>c. c\<lparr>cdLevel := level, cdUpdatedAt := Some (ceNow env)\<rparr>) cs0
        in case putCardsInMemory cs (clMem cl) of (previous, mem) \<Rightarrow>
          (case putAllCards env (clInFlight cl) cs True (clDb cl) of
             Inl e \<Rightarrow> (Some e, cl\<lparr>clMem := restoreCards previous mem\<rparr>)
           | Inr (_, db) \<Rightarrow> (None, afterWrite env (cl\<lparr>clDb := db, clMem := mem\<rparr>))))"

definition legacyContent :: "jsv \<Rightarrow> jsv" where
  "legacyContent v = (case v of JStr s \<Rightarrow> JStr s
     | _ \<Rightarrow> (case getProp ''content'' v of JUndef \<Rightarrow> JStr '''' | JNull \<Rightarrow> JStr '''' | c \<Rightarrow> c))"

definition legacyText :: "string \<Rightarrow> jsv \<Rightarrow> jsv" where
  "legacyText side v = JObj [(''type'', JStr ''text''), (''side'', JStr side), (''content'', legacyContent v)]"

definition toNewSchema :: "ms \<Rightarrow> card \<Rightarrow> card" where
  "toNewSchema now c = c\<lparr>cdUpdatedAt := Some now,
     cdData := normalizeCardData (cardValue (legacyText ''front'' (getProp ''front'' (cdData c)))
       (legacyText ''back'' (getProp ''back'' (cdData c))))\<rparr>"

definition migrateCardsToNewSchema :: "call_env \<Rightarrow> client \<Rightarrow> client_error option \<times> client" where
  "migrateCardsToNewSchema env cl =
     (let updated = map (toNewSchema (ceNow env)) (getAllCardsFromMemory (clMem cl))
      in if updated = [] then (None, cl)
         else case putCardsInMemory updated (clMem cl) of (previous, mem) \<Rightarrow>
           (case putAllCards env (clInFlight cl) updated False (clDb cl) of
              Inl e \<Rightarrow> (Some e, cl\<lparr>clMem := restoreCards previous mem\<rparr>)
            | Inr (_, db) \<Rightarrow> (None, cl\<lparr>clDb := db, clMem := mem\<rparr>)))"

section \<open>Importing cards in chunks\<close>

text \<open>
  A card the browser cannot clone is skipped and restored in memory while the rest of its
  chunk goes on (\<open>ceUnclonable\<close>).
\<close>

fun putChunkRows :: "call_env \<Rightarrow> previous_cards \<Rightarrow> card list \<Rightarrow> client_db \<times> study_memory \<times> id list \<times> media_stats
    \<Rightarrow> client_db \<times> study_memory \<times> id list \<times> media_stats" where
  "putChunkRows env ps [] r = r"
| "putChunkRows env ps (c # cs) (db, mem, ids, delta) =
     (if ceUnclonable env c
      then putChunkRows env ps cs (db, restoreCardInMemory (cdId c) (previousOf ps (cdId c)) mem, ids, delta)
      else putChunkRows env ps cs (putCardRow c db, mem, ids @ [cdId c],
             addEmbeddedMedia delta
               (subEmbeddedMedia (sumEmbeddedCardMedia c) (mediaOf (previousOf ps (cdId c))))))"

definition putCardsChunk :: "call_env \<Rightarrow> nat \<Rightarrow> id set \<Rightarrow> card list \<Rightarrow> client_db \<times> study_memory
    \<Rightarrow> client_error option \<times> (client_db \<times> study_memory) \<times> id list \<times> media_stats" where
  "putCardsChunk env k inFlight slice s =
     (let ps = fold (\<lambda>c. tbl_put fst (cdId c, getCardFromMemory (cdId c) (snd s))) slice [];
          mem0 = snd (putCardsInMemory slice (snd s))
      in case putChunkRows env ps slice (fst s, mem0, [], emptyMedia) of (db1, mem1, ids, delta) \<Rightarrow>
        (case withTransaction (ceFault env k)
            (\<lambda>_. Inr ((), queueOps env (IMPORT_CHUNK * k) inFlight (map (opFor Cards Upsert) ids) db1)) (fst s) of
           Inl e \<Rightarrow> (Some e, (fst s, restoreCards ps mem1), [], emptyMedia)
         | Inr (_, db) \<Rightarrow> (None, (db, mem1), ids, delta)))"

fun persistChunks :: "call_env \<Rightarrow> nat \<Rightarrow> id set \<Rightarrow> (card \<Rightarrow> card) \<Rightarrow> card list list \<Rightarrow> client_db \<times> study_memory
    \<Rightarrow> nat \<Rightarrow> media_stats \<Rightarrow> client_error option \<times> (client_db \<times> study_memory) \<times> nat \<times> media_stats" where
  "persistChunks env k inFlight prepare [] s n delta = (None, s, n, delta)"
| "persistChunks env k inFlight prepare (slice # slices) s n delta =
     (case putCardsChunk env k inFlight (map prepare slice) s of
        (Some e, s1, _) \<Rightarrow> (Some e, s1, n, delta)
      | (None, s1, ids, d) \<Rightarrow>
          persistChunks env (Suc k) inFlight prepare slices s1 (n + length ids) (addEmbeddedMedia delta d))"

definition persistCardsInChunks :: "call_env \<Rightarrow> (card \<Rightarrow> card) \<Rightarrow> card list \<Rightarrow> client
    \<Rightarrow> (client_error + nat) \<times> client" where
  "persistCardsInChunks env prepare cs cl =
     (case persistChunks env 0 (clInFlight cl) prepare (chunk IMPORT_CHUNK cs) (clDb cl, clMem cl) 0 emptyMedia of
        (Some e, (db, mem), _) \<Rightarrow> (Inl e, cl\<lparr>clDb := db, clMem := mem\<rparr>)
      | (None, (db, mem), n, delta) \<Rightarrow>
          (case thenStats env (\<lambda>f. adjustCardMediaStats f delta) (cl\<lparr>clDb := db, clMem := mem\<rparr>) of
             (Some e, cl') \<Rightarrow> (Inl e, cl')
           | (None, cl') \<Rightarrow> (Inr n, cl')))"

section \<open>Importing a file\<close>

definition rxReplaceFirst :: "rx \<Rightarrow> string \<Rightarrow> string" where
  "rxReplaceFirst re s = (case rxFind re None [] s of None \<Rightarrow> s | Some (lead, m) \<Rightarrow> lead @ fst (snd m))"

definition fenceMark :: string where
  "fenceMark = replicate 3 (CHR 0x60)"

definition OPEN_FENCE :: rx where
  "OPEN_FENCE = rSeqs [RStart, rLit fenceMark, rOpt (rLitI ''json''), rSpaces]"

definition CLOSE_FENCE :: rx where
  "CLOSE_FENCE = rSeqs [rSpaces, rLit fenceMark, REnd]"

definition INNER_FENCE :: rx where
  "INNER_FENCE = rSeqs [rLit fenceMark, rOpt (rLitI ''json''), rSpaces, RGroup 1 (RStar False rAny), rSpaces,
     rLit fenceMark]"

definition stripMarkdownFences :: "string \<Rightarrow> string" where
  "stripMarkdownFences text =
     (let trimmed = jsTrim text
      in if take 3 trimmed = fenceMark then jsTrim (rxReplaceFirst CLOSE_FENCE (rxReplaceFirst OPEN_FENCE trimmed))
         else case rxFind INNER_FENCE None [] trimmed of
                None \<Rightarrow> trimmed
              | Some (_, m) \<Rightarrow> (case captured 1 m of None \<Rightarrow> trimmed
                  | Some inner \<Rightarrow> if inner = [] then trimmed else jsTrim inner))"

definition parseImportJson :: "host \<Rightarrow> string \<Rightarrow> jsv option" where
  "parseImportJson H text = jsonParse H (stripMarkdownFences text)"

text \<open>
  One entry of the file as a card of the topic. Ids are texts and levels whole numbers, as
  every export writes them.
\<close>

definition importedCard :: "call_env \<Rightarrow> id \<Rightarrow> id \<Rightarrow> nat \<Rightarrow> jsv \<Rightarrow> client_error + card" where
  "importedCard env topicId uuid fresh v =
     (if v = JUndef \<or> v = JNull then Inl (AppFailure TypeErrorText)
      else case decodeCardData fresh (getProp ''data'' v) of
             Inl e \<Rightarrow> Inl (AppFailure e)
           | Inr d \<Rightarrow> Inr \<lparr>cdId = (let i = strText (getProp ''id'' v) in if i = [] then uuid else i),
               cdTopicId = topicId,
               cdLevel = (case getProp ''level'' v of JNum r \<Rightarrow> jsTrunc r | _ \<Rightarrow> 0),
               cdData = normalizeCardData d,
               cdReviewDate = (case getProp ''reviewDate'' v of JNum r \<Rightarrow> Some r | _ \<Rightarrow> None),
               cdUpdatedAt = Some (ceNow env)\<rparr>)"

fun importedCards :: "call_env \<Rightarrow> id \<Rightarrow> nat \<Rightarrow> nat \<Rightarrow> jsv list \<Rightarrow> client_error + card list" where
  "importedCards env topicId k fresh [] = Inr []"
| "importedCards env topicId k fresh (v # vs) =
     (case importedCard env topicId (ceUuid env k) fresh v of
        Inl e \<Rightarrow> Inl e
      | Inr c \<Rightarrow>
          (case importedCards env topicId (Suc k)
                 (fresh + sideSize (getProp ''front'' (getProp ''data'' v)) + sideSize (getProp ''back'' (getProp ''data'' v)))
                 vs of
             Inl e \<Rightarrow> Inl e | Inr cs \<Rightarrow> Inr (c # cs)))"

definition importCards :: "host \<Rightarrow> call_env \<Rightarrow> nat \<Rightarrow> string \<Rightarrow> id \<Rightarrow> client \<Rightarrow> (client_error + nat) \<times> client" where
  "importCards H env fresh text topicId cl =
     (case parseImportJson H text of
        None \<Rightarrow> (Inl (AppFailure ''Invalid JSON in import file''), cl)
      | Some v \<Rightarrow>
          (case getProp ''cards'' v of
             JArr vs \<Rightarrow>
               (case importedCards env topicId 0 fresh vs of
                  Inl e \<Rightarrow> (Inl e, cl)
                | Inr cs \<Rightarrow> persistCardsInChunks (env\<lparr>ceUuid := \<lambda>i. ceUuid env (length vs + i)\<rparr>) id cs cl)
           | _ \<Rightarrow> (Inl (AppFailure ''Invalid import file: missing or invalid cards[]''), cl)))"

end
