(* ===== verification/ClientMedia.thy ===== *)
theory ClientMedia
  imports StudyStore MediaService
begin

text \<open>
  apps/client/src/lib/sync-media.ts: moving the media of cards between the client and the
  object store. The server's plan endpoints and the object store are the parameter
  \<open>media_api\<close>: an answer may depend on whether a request is the first or the retry, and an
  \<open>Inl\<close> is a request that rejects. Downloads run four at a time; their results keep the order
  of the plans, so they are read one after the other here, and the first failing one is the
  error.
\<close>

record download_plan =
  dpHash :: string
  dpUrl :: string
  dpType :: string
  dpByteLength :: int

datatype upload_plan =
    UploadExists string
  | UploadTo string string string

fun upHash :: "upload_plan \<Rightarrow> string" where
  "upHash (UploadExists h) = h"
| "upHash (UploadTo h _ _) = h"

record media_api =
  maPlanUploads :: "nat \<Rightarrow> (string \<times> string \<times> int \<times> string) list \<Rightarrow> client_error + upload_plan list"
  maPlanDownloads :: "nat \<Rightarrow> string list \<Rightarrow> client_error + download_plan list"
  maPut :: "nat \<Rightarrow> string \<Rightarrow> string \<Rightarrow> client_error + nat"
  maGet :: "nat \<Rightarrow> string \<Rightarrow> client_error + nat \<times> string"

definition MEDIA_REQUEST_BATCH :: nat where
  "MEDIA_REQUEST_BATCH = 100"

definition isOpaqueForbidden :: "nat \<Rightarrow> bool" where
  "isOpaqueForbidden status \<longleftrightarrow> status = 403"

definition responseOk :: "nat \<Rightarrow> bool" where
  "responseOk status \<longleftrightarrow> 200 \<le> status \<and> status < 300"

section \<open>Uploads\<close>

definition uploadItem :: "string \<times> jsv \<Rightarrow> string \<times> string \<times> int \<times> string" where
  "uploadItem p = (fst p, strText (getProp ''type'' (snd p)),
     int (length (bufferBytes (getProp ''buffer'' (snd p)))), sha256HexToBase64 (fst p))"

fun planAll :: "('a list \<Rightarrow> client_error + 'b list) \<Rightarrow> 'a list list \<Rightarrow> client_error + 'b list" where
  "planAll plan [] = Inr []"
| "planAll plan (b # bs) =
     (case plan b of Inl e \<Rightarrow> Inl e
      | Inr ps \<Rightarrow> (case planAll plan bs of Inl e \<Rightarrow> Inl e | Inr qs \<Rightarrow> Inr (ps @ qs)))"

text \<open>\<open>new Map(plans.map(item => [item.hash, item]))\<close>: the last plan of a hash wins.\<close>

definition planFor :: "('p \<Rightarrow> string) \<Rightarrow> string \<Rightarrow> 'p list \<Rightarrow> 'p option" where
  "planFor hashOf h ps = tbl_get hashOf h (fold (tbl_put hashOf) ps [])"

definition uploadOne :: "media_api \<Rightarrow> upload_plan list \<Rightarrow> string \<times> jsv \<Rightarrow> client_error + unit" where
  "uploadOne api plans p =
     (let bytes = bufferBytes (getProp ''buffer'' (snd p));
          finish = (\<lambda>status. if responseOk status then Inr ()
                            else Inl (AppFailure (''Media upload failed for hash '' @ fst p)))
      in case planFor upHash (fst p) plans of
           None \<Rightarrow> Inl (AppFailure (''No upload plan for media hash '' @ fst p))
         | Some (UploadExists _) \<Rightarrow> Inr ()
         | Some (UploadTo _ url _) \<Rightarrow>
             (case maPut api 0 url bytes of Inl e \<Rightarrow> Inl e
              | Inr status \<Rightarrow>
                  if \<not> isOpaqueForbidden status then finish status
                  else (case maPlanUploads api 1 [uploadItem p] of Inl e \<Rightarrow> Inl e
                    | Inr [] \<Rightarrow> Inl (AppFailure (''Media upload retry failed for hash '' @ fst p))
                    | Inr (UploadExists _ # _) \<Rightarrow> Inl (AppFailure (''Media upload retry failed for hash '' @ fst p))
                    | Inr (UploadTo _ fresh _ # _) \<Rightarrow>
                        (case maPut api 1 fresh bytes of Inl e \<Rightarrow> Inl e | Inr s2 \<Rightarrow> finish s2))))"

fun uploadEach :: "media_api \<Rightarrow> upload_plan list \<Rightarrow> media_by_hash \<Rightarrow> client_error + unit" where
  "uploadEach api plans [] = Inr ()"
| "uploadEach api plans (p # ps) =
     (case uploadOne api plans p of Inl e \<Rightarrow> Inl e | Inr _ \<Rightarrow> uploadEach api plans ps)"

definition uploadOwnedMedia :: "media_api \<Rightarrow> media_by_hash \<Rightarrow> client_error + unit" where
  "uploadOwnedMedia api mediaByHash =
     (if mediaByHash = [] then Inr ()
      else case planAll (maPlanUploads api 0) (chunk MEDIA_REQUEST_BATCH (map uploadItem mediaByHash)) of
             Inl e \<Rightarrow> Inl e
           | Inr plans \<Rightarrow> uploadEach api plans mediaByHash)"

definition mergePreparedMedia :: "media_by_hash \<Rightarrow> media_by_hash \<Rightarrow> media_by_hash" where
  "mergePreparedMedia into from = fold (tbl_put fst) from into"

section \<open>Downloads\<close>

definition downloadVerified :: "host \<Rightarrow> media_api \<Rightarrow> download_plan \<Rightarrow> client_error + string \<times> string" where
  "downloadVerified H api item =
     (let check = (\<lambda>plan status body.
            if \<not> responseOk status then Inl (AppFailure (''Media download failed for hash '' @ dpHash plan))
            else if int (length body) \<noteq> dpByteLength plan
              then Inl (AppFailure (''Media size mismatch for hash '' @ dpHash plan))
            else if sha256Hex H body \<noteq> dpHash plan
              then Inl (AppFailure (''Media integrity check failed for hash '' @ dpHash plan))
            else Inr (dpHash item, body))
      in case maGet api 0 (dpUrl item) of Inl e \<Rightarrow> Inl e
         | Inr (status, body) \<Rightarrow>
             if \<not> isOpaqueForbidden status then check item status body
             else (case maPlanDownloads api 1 [dpHash item] of Inl e \<Rightarrow> Inl e
               | Inr [] \<Rightarrow> Inl (AppFailure (''Media object not found: '' @ dpHash item))
               | Inr (fresh # _) \<Rightarrow>
                   (case maGet api 1 (dpUrl fresh) of Inl e \<Rightarrow> Inl e
                    | Inr (s2, b2) \<Rightarrow> check fresh s2 b2)))"

fun numbered :: "nat \<Rightarrow> (string \<times> string) list \<Rightarrow> bytes_by_hash" where
  "numbered n [] = []"
| "numbered n ((h, b) # ps) = (h, n, b) # numbered (Suc n) ps"

definition downloadMediaByHash :: "host \<Rightarrow> media_api \<Rightarrow> nat \<Rightarrow> wire_media_ref list \<Rightarrow> client_error + bytes_by_hash" where
  "downloadMediaByHash H api fresh refs =
     (if refs = [] then Inr []
      else let hashes = map wmHash (fold (tbl_put wmHash) refs [])
        in case planAll (maPlanDownloads api 0) (chunk MEDIA_REQUEST_BATCH hashes) of
             Inl e \<Rightarrow> Inl e
           | Inr plans \<Rightarrow>
               (case find (\<lambda>h. planFor dpHash h plans = None) hashes of
                  Some h \<Rightarrow> Inl (AppFailure (''Media object not found: '' @ h))
                | None \<Rightarrow>
                    (case eachOf (downloadVerified H api) plans of
                       Inl e \<Rightarrow> Inl e
                     | Inr got \<Rightarrow> Inr (fold (tbl_put fst) (numbered fresh got) []))))"

definition isTruthyTime :: "rat option \<Rightarrow> bool" where
  "isTruthyTime t = (case t of None \<Rightarrow> False | Some x \<Rightarrow> x \<noteq> 0)"

text \<open>The live cards of a delta with readable data; a later record of a card replaces an
  earlier one. The references of both are fetched.\<close>

fun parsedCards :: "host \<Rightarrow> sync_record list \<Rightarrow> (id \<times> jsv) list \<Rightarrow> wire_media_ref list
    \<Rightarrow> (id \<times> jsv) list \<times> wire_media_ref list" where
  "parsedCards H [] parsed refs = (parsed, refs)"
| "parsedCards H (r # rs) parsed refs =
     (case srCard r of None \<Rightarrow> parsedCards H rs parsed refs
      | Some c \<Rightarrow>
          if isTruthyTime (crDeletedAt c) then parsedCards H rs parsed refs
          else (case jsonParse H (crDataJson c) of None \<Rightarrow> parsedCards H rs parsed refs
            | Some d \<Rightarrow> parsedCards H rs (tbl_put fst (crId c, d) parsed) (refs @ collectWireMediaRefs d)))"

definition hydrateIncomingCardData :: "host \<Rightarrow> media_api \<Rightarrow> nat \<Rightarrow> pull_delta \<Rightarrow> client_error + (id \<times> jsv) list" where
  "hydrateIncomingCardData H api fresh delta =
     (case parsedCards H (pdRecords delta) [] [] of (parsed, refs) \<Rightarrow>
        (if refs = [] then Inr parsed
         else case downloadMediaByHash H api fresh refs of
                Inl e \<Rightarrow> Inl e
              | Inr bytes \<Rightarrow>
                  eachOf (\<lambda>p. case fromWireCardData (snd p) bytes of
                      Inl e \<Rightarrow> Inl (AppFailure e) | Inr d \<Rightarrow> Inr (fst p, d)) parsed))"

section \<open>Nothing unverified comes in\<close>

lemma eachOf_Inr_iff:
  "eachOf f xs = Inr ys \<longleftrightarrow> length xs = length ys \<and> (\<forall>i < length xs. f (xs ! i) = Inr (ys ! i))"
proof (induction xs arbitrary: ys)
  case (Cons x xs)
  show ?case
  proof
    assume e: "eachOf f (x # xs) = Inr ys"
    then obtain y zs where "ys = y # zs" "f x = Inr y" "eachOf f xs = Inr zs"
      by (auto split: sum.splits)
    with Cons.IH [of zs] show "length (x # xs) = length ys \<and> (\<forall>i < length (x # xs). f ((x # xs) ! i) = Inr (ys ! i))"
      by (auto simp: nth_Cons split: nat.split)
  next
    assume r: "length (x # xs) = length ys \<and> (\<forall>i < length (x # xs). f ((x # xs) ! i) = Inr (ys ! i))"
    then obtain y zs where ys: "ys = y # zs" by (cases ys) auto
    with r have "f x = Inr y" by force
    moreover have "eachOf f xs = Inr zs" using r ys Cons.IH [of zs] by force
    ultimately show "eachOf f (x # xs) = Inr ys" by (simp add: ys)
  qed
qed auto

lemma eachOf_mem: "eachOf f xs = Inr ys \<Longrightarrow> y \<in> set ys \<Longrightarrow> \<exists>x \<in> set xs. f x = Inr y"
  by (metis eachOf_Inr_iff in_set_conv_nth)

text \<open>The hash of the verified bytes is the one of the plan they came with; a refreshed plan
  may only answer for the hash it was asked for.\<close>

definition plans_honest :: "media_api \<Rightarrow> bool" where
  "plans_honest api \<longleftrightarrow> (\<forall>n hs ps p. maPlanDownloads api n hs = Inr ps \<longrightarrow> p \<in> set ps \<longrightarrow> dpHash p \<in> set hs)"

lemma downloadVerified_sound:
  assumes "plans_honest api" "downloadVerified H api item = Inr (h, body)"
  shows "h = dpHash item \<and> sha256Hex H body = h"
proof -
  have "dpHash fresh = dpHash item" if "maPlanDownloads api 1 [dpHash item] = Inr (fresh # ps)" for fresh ps
    using assms(1) that unfolding plans_honest_def by fastforce
  with assms(2) show ?thesis
    by (auto simp: downloadVerified_def Let_def split: sum.splits if_splits list.splits prod.splits)
qed

lemma fold_put_mem: "r \<in> set (fold (tbl_put key) rs xs) \<Longrightarrow> r \<in> set rs \<or> r \<in> set xs"
  by (induction rs arbitrary: xs) (auto dest: set_tbl_put_subset [THEN subsetD])

lemma numbered_mem: "(h, i, b) \<in> set (numbered n ps) \<Longrightarrow> (h, b) \<in> set ps"
  by (induction n ps rule: numbered.induct) auto

lemma fold_put_keys: "key ` set (fold (tbl_put key) rs xs) = key ` set rs \<union> key ` set xs"
  by (induction rs arbitrary: xs) (auto simp: keys_tbl_put)

lemma numbered_keys: "fst ` set (numbered n ps) = fst ` set ps"
  by (induction n ps rule: numbered.induct) auto

text \<open>
  C23. Media that enters this device is what its hash says: if a download succeeds, every
  reference it was asked for has bytes, and the SHA-256 of those bytes is the reference's
  hash, also when the first signed URL had expired and a fresh plan was used.
\<close>

theorem downloaded_media_verified:
  assumes "plans_honest api" "downloadMediaByHash H api fresh refs = Inr bytes"
  shows "(\<forall>r \<in> set refs. \<exists>p. tbl_get fst (wmHash r) bytes = Some p)
    \<and> (\<forall>p \<in> set bytes. sha256Hex H (snd (snd p)) = fst p)"
proof (cases "refs = []")
  case True
  with assms(2) show ?thesis by (simp add: downloadMediaByHash_def)
next
  case False
  let ?hs = "map wmHash (fold (tbl_put wmHash) refs [])"
  obtain plans got where g: "eachOf (downloadVerified H api) plans = Inr got"
    "bytes = fold (tbl_put fst) (numbered fresh got) []"
    "find (\<lambda>h. planFor dpHash h plans = None) ?hs = None"
    using assms(2) False by (auto simp: downloadMediaByHash_def Let_def split: sum.splits option.splits)
  have sound: "sha256Hex H b = h \<and> h \<in> dpHash ` set plans" if "(h, b) \<in> set got" for h b
    using eachOf_mem [OF g(1) that] downloadVerified_sound [OF assms(1)] by blast
  have all: "dpHash ` set plans \<subseteq> fst ` set got"
  proof
    fix h assume "h \<in> dpHash ` set plans"
    then obtain i where i: "i < length plans" "h = dpHash (plans ! i)" by (auto simp: in_set_conv_nth)
    with g(1) obtain b where "got ! i = (h, b)" "i < length got"
      using downloadVerified_sound [OF assms(1)] eachOf_Inr_iff [of "downloadVerified H api" plans got]
      by (metis surj_pair)
    then show "h \<in> fst ` set got" by (force simp: in_set_conv_nth)
  qed
  have "\<exists>p. tbl_get fst (wmHash r) bytes = Some p" if "r \<in> set refs" for r
  proof -
    have "wmHash r \<in> set ?hs" using that fold_put_keys [of wmHash refs "[]"] by simp
    then have "planFor dpHash (wmHash r) plans \<noteq> None" using g(3) by (auto simp: find_None_iff)
    then have "wmHash r \<in> dpHash ` set plans"
      using fold_put_keys [of dpHash plans "[]"] by (auto simp: planFor_def tbl_get_None)
    with all have "wmHash r \<in> fst ` set bytes"
      using fold_put_keys [of fst "numbered fresh got" "[]"] by (auto simp: g(2) numbered_keys)
    then show ?thesis by (cases "tbl_get fst (wmHash r) bytes") (auto simp: tbl_get_None)
  qed
  moreover have "sha256Hex H (snd (snd p)) = fst p" if "p \<in> set bytes" for p
    using that fold_put_mem [of p fst "numbered fresh got" "[]"] numbered_mem [of "fst p" "fst (snd p)" "snd (snd p)" fresh got]
      sound [of "fst p" "snd (snd p)"] by (auto simp: g(2))
  ultimately show ?thesis by blast
qed

definition sample_media_api :: media_api where
  "sample_media_api = \<lparr>maPlanUploads = (\<lambda>_ _. Inr []),
     maPlanDownloads = (\<lambda>n hs. Inr (map (\<lambda>h. \<lparr>dpHash = h, dpUrl = (if n = 0 then ''old'' else ''new''),
        dpType = ''image/png'', dpByteLength = 3\<rparr>) hs)),
     maPut = (\<lambda>_ _ _. Inr 200), maGet = (\<lambda>_ url. Inr (if url = ''old'' then (403, []) else (200, ''xyz'')))\<rparr>"

definition sample_ref :: wire_media_ref where
  "sample_ref = \<lparr>wmHash = replicate 64 CHR ''0'', wmType = ''image/png'', wmByteLength = 3\<rparr>"

theorem downloaded_media_verified_witness:
  "case downloadMediaByHash sample_host sample_media_api 7 [sample_ref] of Inl _ \<Rightarrow> False
   | Inr bytes \<Rightarrow> \<exists>p. tbl_get fst (replicate 64 CHR ''0'') bytes = Some p"
proof -
  have "plans_honest sample_media_api" by (auto simp: plans_honest_def sample_media_api_def)
  note v = downloaded_media_verified [OF this, of sample_host 7 "[sample_ref]"]
  have "\<not> isl (downloadMediaByHash sample_host sample_media_api 7 [sample_ref])" by code_simp
  with v show ?thesis by (auto simp: sample_ref_def split: sum.splits)
qed

end
