(* ===== verification/StudyMirror.thy ===== *)
theory StudyMirror
  imports StudyStore
begin

text \<open>
  Memory mirrors IndexedDB. \<open>mirrors\<close> says that a tab that is alone holds in memory what the
  stores hold, with every store well formed. The operations of the user interface keep it
  whatever the browser does to their transactions, and one that rejects leaves everything as
  it was. The operations that delete in several transactions are the exception, shown at the
  end.
\<close>

section \<open>The invariant\<close>

definition titles_unique :: "topic list \<Rightarrow> bool" where
  "titles_unique ts \<longleftrightarrow> (\<forall>t \<in> set ts. \<forall>u \<in> set ts. tpTitle t = tpTitle u \<longrightarrow> tpId t = tpId u)"

definition db_shape :: "client_db \<Rightarrow> bool" where
  "db_shape db \<longleftrightarrow> idb_ok tpId (cbTopics db) \<and> idb_ok cdId (cbCards db) \<and> idb_ok fst (cbMeta db)
     \<and> queue_ok (cbQueue db) \<and> titles_unique (cbTopics db)"

definition agree :: "('a \<Rightarrow> 'k) \<Rightarrow> 'a list \<Rightarrow> 'a list \<Rightarrow> bool" where
  "agree key xs ys \<longleftrightarrow> (\<forall>k. tbl_get key k xs = tbl_get key k ys)"

definition mirrors :: "client_db \<Rightarrow> study_memory \<Rightarrow> bool" where
  "mirrors db m \<longleftrightarrow> db_shape db \<and> mem_ok m \<and> agree tpId (smTopics m) (cbTopics db)
     \<and> agree cdId (smCards m) (cbCards db)"

definition same_memory :: "study_memory \<Rightarrow> study_memory \<Rightarrow> bool" where
  "same_memory m m' \<longleftrightarrow> agree tpId (smTopics m) (smTopics m') \<and> agree cdId (smCards m) (smCards m')"

lemma agreeD: "agree key xs ys \<Longrightarrow> tbl_get key k xs = tbl_get key k ys"
  by (simp add: agree_def)

lemma agree_refl [simp]: "agree key xs xs"
  by (simp add: agree_def)

lemma agree_trans: "agree key xs ys \<Longrightarrow> agree key ys zs \<Longrightarrow> agree key xs zs"
  by (simp add: agree_def)

lemma agree_put: "idb_ok key ys \<Longrightarrow> agree key xs ys \<Longrightarrow> agree key (tbl_put key r xs) (idb_put key r ys)"
  by (simp add: agree_def tbl_get_put idb_get_put)

lemma agree_del: "agree key xs ys \<Longrightarrow> agree key (tbl_del key k xs) (tbl_del key k ys)"
  by (simp add: agree_def tbl_get_del)

lemma agree_members: "tbl_ok key xs \<Longrightarrow> tbl_ok key ys \<Longrightarrow> agree key xs ys \<Longrightarrow> set xs = set ys"
  by (auto simp: agree_def) (metis tbl_get_iff)+

lemma same_memory_refl [simp]: "same_memory m m"
  by (simp add: same_memory_def)

lemma mirrors_same:
  "mirrors db m \<Longrightarrow> mem_ok m' \<Longrightarrow> same_memory m m' \<Longrightarrow> mirrors db m'"
  by (auto simp: mirrors_def same_memory_def agree_def)

section \<open>Frames\<close>

lemma queueOps_frame [simp]:
  "cbTopics (queueOps env n f ops db) = cbTopics db" "cbCards (queueOps env n f ops db) = cbCards db"
  "cbMeta (queueOps env n f ops db) = cbMeta db"
  by (simp_all add: queueOps_def)

lemma queueOps_shape: "db_shape db \<Longrightarrow> db_shape (queueOps env n f ops db)"
  by (simp add: db_shape_def queueOps_def putSyncQueueOps_ok)

lemma mirrors_queueOps: "mirrors db m \<Longrightarrow> mirrors (queueOps env n f ops db) m"
  by (simp add: mirrors_def queueOps_shape)

lemma afterWrite_frame [simp]:
  "clDb (afterWrite env cl) = clDb cl" "clMem (afterWrite env cl) = clMem cl"
  "clInFlight (afterWrite env cl) = clInFlight cl"
  by (simp_all add: afterWrite_def triggerSync_def)

lemma writeMeta_frame [simp]:
  "cbTopics (writeMeta s db) = cbTopics db" "cbCards (writeMeta s db) = cbCards db"
  "cbMeta (writeMeta s db) = cbMeta db" "cbQueue (writeMeta s db) = cbQueue db"
  by (simp_all add: writeMeta_def)

lemma getStats_frame:
  "getCardMediaStats db = (s, db') \<Longrightarrow> cbTopics db' = cbTopics db \<and> cbCards db' = cbCards db
     \<and> cbMeta db' = cbMeta db \<and> cbQueue db' = cbQueue db"
  by (auto simp: getCardMediaStats_def rebuildCardMediaStats_def split: option.splits)

lemma adjust_frame:
  assumes "adjustCardMediaStats fault delta db = Inr db'"
  shows "cbTopics db' = cbTopics db \<and> cbCards db' = cbCards db \<and> cbMeta db' = cbMeta db \<and> cbQueue db' = cbQueue db"
  using assms getStats_frame
  by (fastforce simp: adjustCardMediaStats_def split: if_splits option.splits prod.splits)

lemma mirrors_adjust:
  "mirrors db m \<Longrightarrow> adjustCardMediaStats fault delta db = Inr db' \<Longrightarrow> mirrors db' m"
  by (drule adjust_frame) (simp add: mirrors_def db_shape_def)

lemma thenStats_mirrors:
  assumes "mirrors (clDb cl) (clMem cl)"
    and "\<And>fault. \<exists>delta. f fault = adjustCardMediaStats fault delta"
  shows "mirrors (clDb (snd (thenStats env f cl))) (clMem (snd (thenStats env f cl)))"
proof -
  obtain delta where "f (ceStatsFault env) = adjustCardMediaStats (ceStatsFault env) delta" using assms(2) by blast
  with assms(1) show ?thesis
    by (auto simp: thenStats_def split: sum.split intro: mirrors_adjust)
qed

lemma adjust_no_fault: "\<exists>db'. adjustCardMediaStats None delta db = Inr db'"
  by (simp add: adjustCardMediaStats_def split: prod.split)

lemma thenStats_ok:
  assumes "ceStatsFault env = None" "\<And>fault. \<exists>delta. f fault = adjustCardMediaStats fault delta"
  shows "fst (thenStats env f cl) = None"
proof -
  obtain delta where "f None = adjustCardMediaStats None delta" using assms(2) by blast
  then show ?thesis using assms(1) adjust_no_fault [of delta "clDb cl"] by (auto simp: thenStats_def)
qed

section \<open>Rows\<close>

lemma putTopics_Cons [simp]:
  "fst (putTopicsInMemory (t # ts) m)
    = (tpId t, fst (putTopicInMemory t m)) # fst (putTopicsInMemory ts (snd (putTopicInMemory t m)))"
  "snd (putTopicsInMemory (t # ts) m) = snd (putTopicsInMemory ts (snd (putTopicInMemory t m)))"
  by (simp_all split: prod.split)

lemma putCards_Cons [simp]:
  "fst (putCardsInMemory (c # cs) m)
    = (cdId c, fst (putCardInMemory c m)) # fst (putCardsInMemory cs (snd (putCardInMemory c m)))"
  "snd (putCardsInMemory (c # cs) m) = snd (putCardsInMemory cs (snd (putCardInMemory c m)))"
  by (simp_all split: prod.split)

declare putTopicsInMemory.simps(2) [simp del] putCardsInMemory.simps(2) [simp del]

lemma titles_unique_put:
  assumes "titles_unique ts" "\<not> titleTaken t ts" "idb_ok tpId ts"
  shows "titles_unique (idb_put tpId t ts)"
  unfolding titles_unique_def
proof (intro ballI impI)
  fix u v assume uv: "u \<in> set (idb_put tpId t ts)" "v \<in> set (idb_put tpId t ts)" "tpTitle u = tpTitle v"
  have free: "w \<in> set ts \<Longrightarrow> tpTitle w = tpTitle t \<Longrightarrow> tpId w = tpId t" for w
    using assms(2) by (auto simp: titleTaken_def list_ex_iff)
  have mem: "w = t \<or> w \<in> set ts" if "w \<in> set (idb_put tpId t ts)" for w
    using that set_idb_put [OF assms(3)] by blast
  from mem [OF uv(1)] mem [OF uv(2)] show "tpId u = tpId v"
    using assms(1) uv(3) free unfolding titles_unique_def by metis
qed

lemma putTopicRow_ok:
  assumes "putTopicRow t db = Inr db'" "mirrors db m"
  shows "mirrors db' (snd (putTopicInMemory t m))"
proof -
  have d: "\<not> titleTaken t (cbTopics db)" "db' = db\<lparr>cbTopics := idb_put tpId t (cbTopics db)\<rparr>"
    using assms(1) by (auto simp: putTopicRow_def split: if_splits)
  have m: "db_shape db" "mem_ok m" "agree tpId (smTopics m) (cbTopics db)" "agree cdId (smCards m) (cbCards db)"
    using assms(2) by (simp_all add: mirrors_def)
  have ix: "idb_ok tpId (cbTopics db)" "titles_unique (cbTopics db)" using m(1) by (simp_all add: db_shape_def)
  have "mem_ok (snd (putTopicInMemory t m))" using m(2) by (rule topicmem.inv_put)
  moreover have "db_shape db'"
    using m(1) titles_unique_put [OF ix(2) d(1) ix(1)] idb_ok_put [OF ix(1)] by (simp add: db_shape_def d(2))
  ultimately show ?thesis
    using agree_put [OF ix(1) m(3)] m(4) by (simp add: mirrors_def d(2) putTopicInMemory_def)
qed

lemma putTopicRows_ok:
  "putTopicRows ts db = Inr db' \<Longrightarrow> mirrors db m \<Longrightarrow> mirrors db' (snd (putTopicsInMemory ts m))"
proof (induction ts arbitrary: db m)
  case (Cons t ts)
  from Cons.prems obtain d where d: "putTopicRow t db = Inr d" "putTopicRows ts d = Inr db'"
    by (auto split: sum.splits)
  have "mirrors d (snd (putTopicInMemory t m))" using putTopicRow_ok [OF d(1) Cons.prems(2)] .
  with Cons.IH [OF d(2)] show ?case by simp
qed simp

lemma putCardRow_ok: "mirrors db m \<Longrightarrow> mirrors (putCardRow c db) (snd (putCardInMemory c m))"
  by (simp add: mirrors_def db_shape_def putCardRow_def putCardInMemory_def setCard_ok agree_put idb_ok_put)

lemma putCardRows_ok:
  "mirrors db m \<Longrightarrow> mirrors (fold putCardRow cs db) (snd (putCardsInMemory cs m))"
proof (induction cs arbitrary: db m)
  case (Cons c cs)
  from Cons.IH [OF putCardRow_ok [OF Cons.prems]] show ?case by simp
qed simp

lemma agree_removeCard:
  "agree cdId (smCards m) xs \<Longrightarrow> agree cdId (smCards (snd (removeCard i m))) (tbl_del cdId i xs)"
  by (simp add: agree_def get_removeCard tbl_get_del del: smCards_set)

lemma deleteCardRow_ok: "mirrors db m \<Longrightarrow> mirrors (deleteCardRows [i] db) (snd (deleteCardFromMemory i m))"
  using agree_removeCard [of m "cbCards db" i] removeCard_ok [of m i]
  by (simp add: mirrors_def db_shape_def deleteCardRows_def deleteCardFromMemory_def idb_ok_del)

section \<open>Rollback\<close>

lemma restoreTopic_one: "restoreTopicInMemory i p m
    = restoreOne (\<lambda>t m. snd (putTopicInMemory t m)) (\<lambda>i m. snd (deleteTopicFromMemory i m)) (i, p) m"
  by (simp add: restoreTopicInMemory_def restoreOne_def putTopicInMemory_def deleteTopicFromMemory_def
      split: option.split)

lemma restoreCard_one: "restoreCardInMemory i p m
    = restoreOne (\<lambda>c m. snd (putCardInMemory c m)) (\<lambda>i m. snd (deleteCardFromMemory i m)) (i, p) m"
  by (simp add: restoreCardInMemory_def restoreOne_def putCardInMemory_def deleteCardFromMemory_def
      split: option.split)

lemma restoreTopics_fold: "restoreTopics ps m
    = fold (restoreOne (\<lambda>t m. snd (putTopicInMemory t m)) (\<lambda>i m. snd (deleteTopicFromMemory i m))) ps m"
  unfolding restoreTopics_def by (rule fold_cong) (simp_all add: restoreTopic_one fun_eq_iff)

lemma restoreCards_fold: "restoreCards ps m
    = fold (restoreOne (\<lambda>c m. snd (putCardInMemory c m)) (\<lambda>i m. snd (deleteCardFromMemory i m))) ps m"
  unfolding restoreCards_def by (rule fold_cong) (simp_all add: restoreCard_one fun_eq_iff)

lemma putTopicsInMemory_fold:
  "snd (putTopicsInMemory ts m) = fold (\<lambda>t m. snd (putTopicInMemory t m)) ts m"
  by (induction ts arbitrary: m) simp_all

lemma putCardsInMemory_fold:
  "snd (putCardsInMemory cs m) = fold (\<lambda>c m. snd (putCardInMemory c m)) cs m"
  by (induction cs arbitrary: m) simp_all

lemma putCard_previous: "fst (putCardInMemory c m) = getCardFromMemory (cdId c) m"
  by (simp add: putCardInMemory_def setCard_def Let_def getCardFromMemory_def)

lemma putTopic_previous: "fst (putTopicInMemory t m) = getTopicFromMemory (tpId t) m"
  by (simp add: putTopicInMemory_def getTopicFromMemory_def)

lemma putTopicsInMemory_prev:
  "mem_ok m \<Longrightarrow> distinct (map tpId ts) \<Longrightarrow>
   fst (putTopicsInMemory ts m) = map (\<lambda>t. (tpId t, getTopicFromMemory (tpId t) m)) ts"
proof (induction ts arbitrary: m)
  case (Cons t ts)
  have ok: "mem_ok (snd (putTopicInMemory t m))" using topicmem.inv_put Cons.prems(1) .
  have "tpId u \<noteq> tpId t" if "u \<in> set ts" for u using Cons.prems(2) that by (force simp: image_iff)
  then have "map (\<lambda>u. (tpId u, getTopicFromMemory (tpId u) (snd (putTopicInMemory t m)))) ts
      = map (\<lambda>u. (tpId u, getTopicFromMemory (tpId u) m)) ts"
    by (simp add: topicmem.get_put [OF Cons.prems(1)])
  with Cons.IH [OF ok] Cons.prems(2) show ?case by (simp add: putTopic_previous)
qed simp

lemma putCardsInMemory_prev:
  "mem_ok m \<Longrightarrow> distinct (map cdId cs) \<Longrightarrow>
   fst (putCardsInMemory cs m) = map (\<lambda>c. (cdId c, getCardFromMemory (cdId c) m)) cs"
proof (induction cs arbitrary: m)
  case (Cons c cs)
  have ok: "mem_ok (snd (putCardInMemory c m))" using cardmem.inv_put Cons.prems(1) .
  have "cdId u \<noteq> cdId c" if "u \<in> set cs" for u using Cons.prems(2) that by (force simp: image_iff)
  then have "map (\<lambda>u. (cdId u, getCardFromMemory (cdId u) (snd (putCardInMemory c m)))) cs
      = map (\<lambda>u. (cdId u, getCardFromMemory (cdId u) m)) cs"
    by (simp add: cardmem.get_put [OF Cons.prems(1)])
  with Cons.IH [OF ok] Cons.prems(2) show ?case by (simp add: putCard_previous)
qed simp

lemma topicOps_cards [simp]:
  "smCards (snd (putTopicInMemory t m)) = smCards m" "smCards (restoreTopicInMemory i p m) = smCards m"
  "smCards (snd (deleteTopicFromMemory i m)) = smCards m"
  by (simp_all add: putTopicInMemory_def restoreTopicInMemory_def deleteTopicFromMemory_def split: option.split)

lemma cardOps_topics [simp]:
  "smTopics (snd (putCardInMemory c m)) = smTopics m" "smTopics (restoreCardInMemory i p m) = smTopics m"
  "smTopics (snd (deleteCardFromMemory i m)) = smTopics m"
  by (simp_all add: putCardInMemory_def restoreCardInMemory_def deleteCardFromMemory_def split: option.split)

lemma putTopics_cards: "smCards (snd (putTopicsInMemory ts m)) = smCards m"
  by (induction ts arbitrary: m) simp_all

lemma putCards_topics: "smTopics (snd (putCardsInMemory cs m)) = smTopics m"
  by (induction cs arbitrary: m) simp_all

lemma restoreTopics_cards: "smCards (restoreTopics ps m) = smCards m"
  by (induction ps arbitrary: m) (simp_all add: restoreTopics_def)

lemma restoreCards_topics: "smTopics (restoreCards ps m) = smTopics m"
  by (induction ps arbitrary: m) (simp_all add: restoreCards_def)

lemma undo_topics:
  assumes "mem_ok m" "distinct (map tpId ts)" "putTopicsInMemory ts m = (ps, m1)"
  shows "mem_ok (restoreTopics ps m1) \<and> same_memory m (restoreTopics ps m1)"
proof -
  have ps: "ps = map (\<lambda>t. (tpId t, getTopicFromMemory (tpId t) m)) ts"
    using putTopicsInMemory_prev [OF assms(1,2)] assms(3) by simp
  have m1: "m1 = fold (\<lambda>t m. snd (putTopicInMemory t m)) ts m"
    using putTopicsInMemory_fold [of ts m] assms(3) by simp
  have "getTopicFromMemory k (restoreTopics ps m1) = getTopicFromMemory k m" for k
    unfolding m1 restoreTopics_fold by (rule topicmem.rollback_all [OF assms(1) ps])
  moreover have "smCards (restoreTopics ps m1) = smCards m"
    using putTopics_cards [of ts m] assms(3) by (simp add: restoreTopics_cards)
  moreover have "mem_ok (restoreTopics ps m1)"
    unfolding m1 restoreTopics_fold by (intro topicmem.inv_restore_all topicmem.inv_fold_put assms(1))
  ultimately show ?thesis by (simp add: same_memory_def agree_def getTopicFromMemory_def)
qed

lemma undo_cards:
  assumes "mem_ok m" "distinct (map cdId cs)" "putCardsInMemory cs m = (ps, m1)"
  shows "mem_ok (restoreCards ps m1) \<and> same_memory m (restoreCards ps m1)"
proof -
  have ps: "ps = map (\<lambda>c. (cdId c, getCardFromMemory (cdId c) m)) cs"
    using putCardsInMemory_prev [OF assms(1,2)] assms(3) by simp
  have m1: "m1 = fold (\<lambda>c m. snd (putCardInMemory c m)) cs m"
    using putCardsInMemory_fold [of cs m] assms(3) by simp
  have "getCardFromMemory k (restoreCards ps m1) = getCardFromMemory k m" for k
    unfolding m1 restoreCards_fold by (rule cardmem.rollback_all [OF assms(1) ps])
  moreover have "smTopics (restoreCards ps m1) = smTopics m"
    using putCards_topics [of cs m] assms(3) by (simp add: restoreCards_topics)
  moreover have "mem_ok (restoreCards ps m1)"
    unfolding m1 restoreCards_fold by (intro cardmem.inv_restore_all cardmem.inv_fold_put assms(1))
  ultimately show ?thesis by (simp add: same_memory_def agree_def getCardFromMemory_def)
qed

lemma undo_delete_card:
  assumes "mem_ok m" "deleteCardFromMemory i m = (p, m1)"
  shows "mem_ok (restoreCardInMemory i p m1) \<and> same_memory m (restoreCardInMemory i p m1)"
proof -
  have p: "p = getCardFromMemory i m" "m1 = snd (deleteCardFromMemory i m)"
    using assms(2) by (auto simp: deleteCardFromMemory_def removeCard_def getCardFromMemory_def Let_def)
  have "getCardFromMemory k (restoreCardInMemory i p m1) = getCardFromMemory k m" for k
    using cardmem.rollback_del [OF assms(1), of k i]
    by (cases "getCardFromMemory i m") (simp_all add: restoreCard_one restoreOne_def p)
  moreover have "mem_ok (restoreCardInMemory i p m1)"
    unfolding restoreCard_one p by (intro cardmem.inv_restore cardmem.inv_del assms(1))
  ultimately show ?thesis using p(2) by (simp add: same_memory_def agree_def getCardFromMemory_def)
qed

section \<open>The operations\<close>

definition good_result :: "call_env \<Rightarrow> client \<Rightarrow> client_error option \<times> client \<Rightarrow> bool" where
  "good_result env cl r \<longleftrightarrow> mirrors (clDb (snd r)) (clMem (snd r))
     \<and> (fst r \<noteq> None \<and> ceStatsFault env = None \<longrightarrow>
          clDb (snd r) = clDb cl \<and> same_memory (clMem cl) (clMem (snd r)))"

lemma good_same: "mirrors (clDb cl) (clMem cl) \<Longrightarrow> good_result env cl (e, cl)"
  by (simp add: good_result_def)

lemma good_rollback:
  "mirrors (clDb cl) (clMem cl) \<Longrightarrow> mem_ok m \<and> same_memory (clMem cl) m \<Longrightarrow>
   good_result env cl (e, cl\<lparr>clMem := m\<rparr>)"
  by (auto simp: good_result_def intro: mirrors_same)

lemma good_commit:
  "mirrors db m \<Longrightarrow> good_result env cl (None, afterWrite env (cl\<lparr>clMem := m, clDb := db\<rparr>))"
  by (simp add: good_result_def)

lemma good_commit': "mirrors db m \<Longrightarrow> good_result env cl (None, afterWrite env (cl\<lparr>clDb := db, clMem := m\<rparr>))"
  by (simp add: good_result_def)

lemma good_stats:
  assumes "mirrors db m" "\<And>fault. \<exists>delta. f fault = adjustCardMediaStats fault delta"
  shows "good_result env cl (thenStats env f (cl\<lparr>clMem := m, clDb := db\<rparr>))"
  using thenStats_mirrors [of "cl\<lparr>clMem := m, clDb := db\<rparr>" f env] assms thenStats_ok [OF _ assms(2)]
  by (auto simp: good_result_def)

lemma mirrors_mem: "mirrors db m \<Longrightarrow> mem_ok m"
  by (simp add: mirrors_def)

lemma upsert_delta: "\<exists>delta. recordCardMediaUpsert fault p c = adjustCardMediaStats fault delta"
  by (auto simp: recordCardMediaUpsert_def fun_eq_iff)

lemma delete_delta: "\<exists>delta. recordCardMediaDelete fault p = adjustCardMediaStats fault delta"
  by (auto simp: recordCardMediaDelete_def fun_eq_iff)

lemma createTopic_good:
  assumes "mirrors (clDb cl) (clMem cl)"
  shows "good_result env cl (createTopicService env t cl)"
proof (cases "findTopicByTitle (tpTitle t) (clMem cl)")
  case (Some u)
  with assms show ?thesis by (simp add: createTopicService_def good_same)
next
  case None
  obtain p mem where p: "putTopicInMemory t (clMem cl) = (p, mem)" by fastforce
  then have undo: "mem_ok (restoreTopicInMemory (tpId t) p mem) \<and>
      same_memory (clMem cl) (restoreTopicInMemory (tpId t) p mem)"
    using undo_topics [OF mirrors_mem [OF assms], of "[t]" "[(tpId t, p)]" mem]
    by (simp add: restoreTopics_def putTopicsInMemory.simps)
  let ?body = "\<lambda>db. case addTopicRow t db of Inl e \<Rightarrow> Inl e
    | Inr db1 \<Rightarrow> Inr ((), queueOps env 0 (clInFlight cl) [opFor Topics Upsert (tpId t)] db1)"
  show ?thesis
  proof (cases "withTransaction (ceFault env 0) ?body (clDb cl)")
    case (Inl e)
    with None p undo assms show ?thesis by (simp add: createTopicService_def good_rollback)
  next
    case (Inr r)
    then obtain db1 where "putTopicRow t (clDb cl) = Inr db1"
      and r: "snd r = queueOps env 0 (clInFlight cl) [opFor Topics Upsert (tpId t)] db1"
      by (auto simp: withTransaction_Inr addTopicRow_def split: sum.splits if_splits)
    then have "mirrors (snd r) mem" using putTopicRow_ok assms p by (fastforce intro: mirrors_queueOps)
    with None p Inr show ?thesis by (cases r) (simp add: createTopicService_def good_commit)
  qed
qed

lemma persistTopics_good:
  assumes "mirrors (clDb cl) (clMem cl)" "distinct (map tpId ts0)"
  shows "good_result env cl (persistTopics env ts0 cl)"
proof (cases "titleClash ts0 (clMem cl)")
  case (Some u)
  with assms show ?thesis by (simp add: persistTopics_def good_same)
next
  case None
  let ?ts = "map (\<lambda>t. t\<lparr>tpUpdatedAt := Some (ceNow env)\<rparr>) ts0"
  obtain ps mem where p: "putTopicsInMemory ?ts (clMem cl) = (ps, mem)" by fastforce
  have "distinct (map tpId ?ts)" using assms(2) by (simp add: comp_def)
  then have undo: "mem_ok (restoreTopics ps mem) \<and> same_memory (clMem cl) (restoreTopics ps mem)"
    using undo_topics [OF mirrors_mem [OF assms(1)] _ p] by blast
  let ?q = "queueOps env 0 (clInFlight cl) (map (opFor Topics Upsert \<circ> tpId) ?ts)"
  let ?body = "\<lambda>db. case putTopicRows ?ts db of Inl e \<Rightarrow> Inl e | Inr db1 \<Rightarrow> Inr ((), ?q db1)"
  show ?thesis
  proof (cases "withTransaction (ceFault env 0) ?body (clDb cl)")
    case (Inl e)
    with None p undo assms show ?thesis by (simp add: persistTopics_def good_rollback Let_def)
  next
    case (Inr r)
    then obtain db1 where d: "putTopicRows ?ts (clDb cl) = Inr db1" and r: "snd r = ?q db1"
      by (auto simp: withTransaction_Inr split: sum.splits)
    have "mirrors db1 mem" using putTopicRows_ok [OF d assms(1)] p by simp
    then have "mirrors (snd r) mem" unfolding r by (rule mirrors_queueOps)
    with None p Inr show ?thesis by (cases r) (simp add: persistTopics_def good_commit Let_def)
  qed
qed

lemma undo_card:
  assumes "mem_ok m" "putCardInMemory c m = (p, m1)"
  shows "mem_ok (restoreCardInMemory (cdId c) p m1) \<and> same_memory m (restoreCardInMemory (cdId c) p m1)"
  using undo_cards [OF assms(1), of "[c]" "[(cdId c, p)]" m1] assms(2)
  by (simp add: restoreCards_def putCardsInMemory.simps)

lemma createCard_good:
  assumes "mirrors (clDb cl) (clMem cl)"
  shows "good_result env cl (createCard env c cl)"
proof -
  obtain p mem where p: "putCardInMemory c (clMem cl) = (p, mem)" by fastforce
  note undo = undo_card [OF mirrors_mem [OF assms] p]
  let ?q = "queueOps env 0 (clInFlight cl) [opFor Cards Upsert (cdId c)]"
  let ?body = "\<lambda>db. case addCardRow c db of Inl e \<Rightarrow> Inl e | Inr db1 \<Rightarrow> Inr ((), ?q db1)"
  show ?thesis
  proof (cases "withTransaction (ceFault env 0) ?body (clDb cl)")
    case (Inl e)
    with p undo assms show ?thesis by (simp add: createCard_def good_rollback)
  next
    case (Inr r)
    then have "snd r = ?q (putCardRow c (clDb cl))"
      by (auto simp: withTransaction_Inr addCardRow_def split: sum.splits if_splits)
    moreover have "mirrors (putCardRow c (clDb cl)) mem" using putCardRow_ok [OF assms, of c] p by simp
    ultimately have "mirrors (snd r) mem" by (simp add: mirrors_queueOps)
    with p Inr show ?thesis
      by (cases r) (simp add: createCard_def good_stats upsert_delta)
  qed
qed

lemma updateCard_good:
  assumes "mirrors (clDb cl) (clMem cl)"
  shows "good_result env cl (updateCard env c0 cl)"
proof -
  let ?c = "c0\<lparr>cdUpdatedAt := Some (ceNow env)\<rparr>"
  obtain p mem where p: "putCardInMemory ?c (clMem cl) = (p, mem)" by fastforce
  have undo: "mem_ok (restoreCardInMemory (cdId c0) p mem) \<and> same_memory (clMem cl) (restoreCardInMemory (cdId c0) p mem)"
    using undo_card [OF mirrors_mem [OF assms] p] by simp
  let ?q = "queueOps env 0 (clInFlight cl) [opFor Cards Upsert (cdId ?c)]"
  show ?thesis
  proof (cases "withTransaction (ceFault env 0) (\<lambda>db. Inr ((), ?q (putCardRow ?c db))) (clDb cl)")
    case (Inl e)
    with p undo assms show ?thesis by (simp add: updateCard_def good_rollback Let_def)
  next
    case (Inr r)
    then have "snd r = ?q (putCardRow ?c (clDb cl))" by (auto simp: withTransaction_Inr)
    moreover have "mirrors (putCardRow ?c (clDb cl)) mem" using putCardRow_ok [OF assms, of ?c] p by simp
    ultimately have "mirrors (snd r) mem" by (simp add: mirrors_queueOps)
    with p Inr show ?thesis
      by (cases r) (simp add: updateCard_def good_stats upsert_delta Let_def)
  qed
qed

lemma deleteCardById_good:
  assumes "mirrors (clDb cl) (clMem cl)"
  shows "good_result env cl (deleteCardById env i cl)"
proof -
  obtain p mem where p: "deleteCardFromMemory i (clMem cl) = (p, mem)" by fastforce
  note undo = undo_delete_card [OF mirrors_mem [OF assms] p]
  let ?q = "queueOps env 0 (clInFlight cl) [opFor Cards Delete i]"
  show ?thesis
  proof (cases "withTransaction (ceFault env 0) (\<lambda>db. Inr ((), ?q (deleteCardRows [i] db))) (clDb cl)")
    case (Inl e)
    with p undo assms show ?thesis by (simp add: deleteCardById_def good_rollback)
  next
    case (Inr r)
    then have "snd r = ?q (deleteCardRows [i] (clDb cl))" by (auto simp: withTransaction_Inr)
    moreover have "mirrors (deleteCardRows [i] (clDb cl)) mem" using deleteCardRow_ok [OF assms, of i] p by simp
    ultimately have "mirrors (snd r) mem" by (simp add: mirrors_queueOps)
    with p Inr show ?thesis
      by (cases r; cases p) (simp_all add: deleteCardById_def good_stats good_commit delete_delta)
  qed
qed

lemma putAllCards_good:
  assumes "mirrors (clDb cl) (clMem cl)" "distinct (map cdId cs)" "putCardsInMemory cs (clMem cl) = (ps, mem)"
  shows "putAllCards env f cs enqueue (clDb cl) = Inl e \<Longrightarrow> good_result env cl (e', cl\<lparr>clMem := restoreCards ps mem\<rparr>)"
    and "putAllCards env f cs enqueue (clDb cl) = Inr r \<Longrightarrow> mirrors (snd r) mem"
proof -
  show "putAllCards env f cs enqueue (clDb cl) = Inl e \<Longrightarrow> good_result env cl (e', cl\<lparr>clMem := restoreCards ps mem\<rparr>)"
    using undo_cards [OF mirrors_mem [OF assms(1)] assms(2,3)] assms(1) by (simp add: good_rollback)
  have "mirrors (fold putCardRow cs (clDb cl)) mem" using putCardRows_ok [OF assms(1), of cs] assms(3) by simp
  then show "putAllCards env f cs enqueue (clDb cl) = Inr r \<Longrightarrow> mirrors (snd r) mem"
    by (auto simp: putAllCards_def withTransaction_Inr mirrors_queueOps)
qed

lemma updateCardsLevelBulk_good:
  assumes "mirrors (clDb cl) (clMem cl)" "distinct (map cdId cs0)"
  shows "good_result env cl (updateCardsLevelBulk env cs0 level cl)"
proof -
  let ?cs = "map (\<lambda>c. c\<lparr>cdLevel := level, cdUpdatedAt := Some (ceNow env)\<rparr>) cs0"
  obtain ps mem where p: "putCardsInMemory ?cs (clMem cl) = (ps, mem)" by fastforce
  have "distinct (map cdId ?cs)" using assms(2) by (simp add: comp_def)
  note good = putAllCards_good [OF assms(1) this p, of env "clInFlight cl" True]
  show ?thesis
  proof (cases "putAllCards env (clInFlight cl) ?cs True (clDb cl)")
    case (Inl e)
    with p good(1) [OF Inl] assms(1) show ?thesis by (simp add: updateCardsLevelBulk_def good_same)
  next
    case (Inr r)
    with p good(2) [OF Inr] assms(1) show ?thesis
      by (cases r) (simp add: updateCardsLevelBulk_def good_same good_commit')
  qed
qed

lemma migrate_good:
  assumes "mirrors (clDb cl) (clMem cl)"
  shows "good_result env cl (migrateCardsToNewSchema env cl)"
proof -
  let ?cs = "map (toNewSchema (ceNow env)) (getAllCardsFromMemory (clMem cl))"
  obtain ps mem where p: "putCardsInMemory ?cs (clMem cl) = (ps, mem)" by fastforce
  have "cdId (toNewSchema n c) = cdId c" for n c by (simp add: toNewSchema_def)
  then have "distinct (map cdId ?cs)"
    using mem_okD(2) [OF mirrors_mem [OF assms]] by (simp add: comp_def getAllCardsFromMemory_def)
  note good = putAllCards_good [OF assms(1) this p, of env "clInFlight cl" False]
  show ?thesis
  proof (cases "putAllCards env (clInFlight cl) ?cs False (clDb cl)")
    case (Inl e)
    with p good(1) [OF Inl] assms(1) show ?thesis by (simp add: migrateCardsToNewSchema_def good_same Let_def)
  next
    case (Inr r)
    with p good(2) [OF Inr] assms(1) show ?thesis
      by (cases r) (simp add: migrateCardsToNewSchema_def good_same Let_def good_result_def)
  qed
qed

section \<open>Properties\<close>

datatype study_op =
    CreateTopic topic
  | UpdateTopics "topic list"
  | ArchiveTopics "topic list"
  | CreateCard card
  | UpdateCard card
  | DeleteCard id
  | SetLevel "card list" int
  | MigrateCards

fun runStudyOp :: "call_env \<Rightarrow> study_op \<Rightarrow> client \<Rightarrow> client_error option \<times> client" where
  "runStudyOp env (CreateTopic t) cl = createTopicService env t cl"
| "runStudyOp env (UpdateTopics ts) cl = updateTopics env ts cl"
| "runStudyOp env (ArchiveTopics ts) cl = archiveTopics env ts cl"
| "runStudyOp env (CreateCard c) cl = createCard env c cl"
| "runStudyOp env (UpdateCard c) cl = updateCard env c cl"
| "runStudyOp env (DeleteCard i) cl = deleteCardById env i cl"
| "runStudyOp env (SetLevel cs level) cl = updateCardsLevelBulk env cs level cl"
| "runStudyOp env MigrateCards cl = migrateCardsToNewSchema env cl"

fun opDistinct :: "study_op \<Rightarrow> bool" where
  "opDistinct (UpdateTopics ts) \<longleftrightarrow> distinct (map tpId ts)"
| "opDistinct (ArchiveTopics ts) \<longleftrightarrow> distinct (map tpId ts)"
| "opDistinct (SetLevel cs level) \<longleftrightarrow> distinct (map cdId cs)"
| "opDistinct _ \<longleftrightarrow> True"

lemma runStudyOp_good:
  "mirrors (clDb cl) (clMem cl) \<Longrightarrow> opDistinct op \<Longrightarrow> good_result env cl (runStudyOp env op cl)"
  by (cases op) (simp_all add: createTopic_good persistTopics_good updateTopics_def archiveTopics_def
      createCard_good updateCard_good deleteCardById_good updateCardsLevelBulk_good migrate_good comp_def)

definition runStudyOps :: "(call_env \<times> study_op) list \<Rightarrow> client \<Rightarrow> client" where
  "runStudyOps ops cl = fold (\<lambda>p cl. snd (runStudyOp (fst p) (snd p) cl)) ops cl"

text \<open>
  C21. Memory never drifts from the durable stores. After any sequence of creating and editing
  topics and cards, deleting cards, moving cards between levels and migrating them, each
  aborted by the browser or not, the tab's memory holds exactly the stored topics and cards,
  its index by topic is exact, titles are unique and the outbox holds one operation per
  record.
\<close>

theorem memory_mirrors_store:
  assumes "mirrors (clDb cl) (clMem cl)" "\<forall>p \<in> set ops. opDistinct (snd p)"
  shows "mirrors (clDb (runStudyOps ops cl)) (clMem (runStudyOps ops cl))"
  using assms
proof (induction ops arbitrary: cl)
  case (Cons p ops)
  have "mirrors (clDb (snd (runStudyOp (fst p) (snd p) cl))) (clMem (snd (runStudyOp (fst p) (snd p) cl)))"
    using runStudyOp_good [OF Cons.prems(1), of "snd p" "fst p"] Cons.prems(2) by (simp add: good_result_def)
  from Cons.IH [OF this] Cons.prems(2) show ?case by (simp add: runStudyOps_def)
qed (simp add: runStudyOps_def)


section \<open>Concrete clients\<close>

definition utc_zone :: tz where
  "utc_zone = \<lparr>tzLocal = (\<lambda>t. t), tzUtc = (\<lambda>l. l)\<rparr>"

definition plain_env :: call_env where
  "plain_env = \<lparr>ceBackend = True, ceOnline = True, ceNow = 1000, ceTz = utc_zone,
     ceUuid = (\<lambda>i. ''op'' @ natToString i), ceFault = (\<lambda>_. None), ceStatsFault = None,
     ceUnclonable = (\<lambda>_. False)\<rparr>"

definition full_env :: call_env where
  "full_env = plain_env\<lparr>ceFault := (\<lambda>_. Some QuotaExceededError)\<rparr>"

definition new_client :: client where
  "new_client = \<lparr>clDb = empty_db, clMem = emptyMemory, clState = initialState, clInFlight = {},
     clUser = Some ''u'', clEntitled = True, clTriggerTimer = False\<rparr>"

definition latin :: topic where
  "latin = \<lparr>tpId = ''t1'', tpTitle = ''Latin'', tpPivot = 5, tpWeek = JArr [], tpNextUpdateDate = 9,
     tpUpdatedAt = Some 5, tpDeletedAt = None, tpIsArchived = None\<rparr>"

definition amo :: card where
  "amo = newCard ''c1'' stored_sample ''t1'' 1 5"

definition study_client :: client where
  "study_client = runStudyOps [(plain_env, CreateTopic latin), (plain_env, CreateCard amo)] new_client"

lemma new_client_mirrors: "mirrors (clDb new_client) (clMem new_client)"
  by (simp add: new_client_def mirrors_def db_shape_def empty_db_def emptyMemory_ok titles_unique_def)
     (simp add: emptyMemory_def)

lemma study_client_mirrors: "mirrors (clDb study_client) (clMem study_client)"
  using new_client_mirrors runStudyOp_good [of new_client "CreateTopic latin" plain_env]
    runStudyOp_good [of "snd (runStudyOp plain_env (CreateTopic latin) new_client)" "CreateCard amo" plain_env]
  by (simp add: study_client_def runStudyOps_def good_result_def)

theorem memory_mirrors_store_witness:
  "let cl = runStudyOps [(plain_env, CreateTopic latin), (full_env, CreateCard amo), (plain_env, CreateCard amo)] new_client
   in mirrors (clDb cl) (clMem cl)"
  using memory_mirrors_store [OF new_client_mirrors,
      of "[(plain_env, CreateTopic latin), (full_env, CreateCard amo), (plain_env, CreateCard amo)]"]
  by simp

lemma full_disk: "fst (runStudyOp full_env (UpdateCard (amo\<lparr>cdLevel := 3\<rparr>)) study_client) = Some QuotaExceededMessage
   \<and> getCardFromMemory ''c1'' (clMem study_client) = Some amo"
  by code_simp


section \<open>Where the code does not keep its promises\<close>

text \<open>
  Deleting a topic takes one transaction per fifty cards and one for the topic. When the last
  one fails the earlier ones stay committed, but memory gets every card back: the user sees a
  card that is gone from the store and whose deletion is queued for the server.
\<close>

lemma delete_topic_half_done:
  "case deleteTopic (plain_env\<lparr>ceFault := (\<lambda>k. if k = 1 then Some QuotaExceededError else None)\<rparr>) ''t1''
       (study_client\<lparr>clDb := (clDb study_client)\<lparr>cbQueue := []\<rparr>\<rparr>) of
     (e, cl) \<Rightarrow> e = Some QuotaExceededMessage
       \<and> getCardFromMemory ''c1'' (clMem cl) = Some amo
       \<and> cbCards (clDb cl) = [] \<and> map tpId (cbTopics (clDb cl)) = [''t1'']
       \<and> map (\<lambda>q. (qiRecordId q, qiOperation q)) (cbQueue (clDb cl)) = [(''c1'', Delete)]"
  by code_simp

text \<open>
  Media statistics are adjusted after the row is stored. Without a stored value they are first
  rebuilt from the rows, which already hold the card, and then the card is added once more.
\<close>

lemma cold_statistics_count_twice:
  "cbMediaStats (clDb (snd (createCard plain_env amo new_client)))
     = Some \<lparr>msBytes = 12, msImages = 2, msAudio = 2\<rparr>
   \<and> sumCards (cbCards (clDb (snd (createCard plain_env amo new_client))))
     = \<lparr>msBytes = 6, msImages = 1, msAudio = 1\<rparr>"
  by code_simp

text \<open>
  A card that the server already holds (nothing is queued for it) is edited and then deleted
  before the next push. The two operations cancel: the card is gone from this device and
  nothing will ever tell the server.
\<close>

lemma updateCard_queue:
  assumes "updateCard env c cl = (None, cl')"
  shows "cbQueue (clDb cl') = putSyncQueueOps (ceBackend env) (clInFlight cl) (ceNow env) (ceUuid env)
      [opFor Cards Upsert (cdId c)] (cbQueue (clDb cl)) \<and> clInFlight cl' = clInFlight cl"
  using assms adjust_frame
  by (auto simp: updateCard_def Let_def thenStats_def recordCardMediaUpsert_def withTransaction_Inr
      queueOps_def putCardRow_def split: prod.splits sum.splits)

lemma deleteCard_queue:
  assumes "deleteCardById env i cl = (None, cl')"
  shows "cbQueue (clDb cl') = putSyncQueueOps (ceBackend env) (clInFlight cl) (ceNow env) (ceUuid env)
      [opFor Cards Delete i] (cbQueue (clDb cl)) \<and> cbCards (clDb cl') = tbl_del cdId i (cbCards (clDb cl))"
  using assms adjust_frame
  by (auto simp: deleteCardById_def thenStats_def recordCardMediaDelete_def withTransaction_Inr
      queueOps_def deleteCardRows_def split: prod.splits sum.splits option.splits)

theorem edited_then_deleted_is_never_pushed:
  assumes "queue_ok (cbQueue (clDb cl))" "queued Cards (cdId c) (cbQueue (clDb cl)) = None"
    and "ceBackend env" "ceBackend env'"
    and "\<And>i. ceUuid env i \<notin> clInFlight cl" "\<And>i. ceUuid env' i \<notin> clInFlight cl"
    and "updateCard env c cl = (None, cl1)" "deleteCardById env' (cdId c) cl1 = (None, cl2)"
  shows "pendingOp Cards (cdId c) (cbQueue (clDb cl2)) = None \<and> tbl_get cdId (cdId c) (cbCards (clDb cl2)) = None"
proof -
  let ?q1 = "cbQueue (clDb cl1)"
  note q1 = updateCard_queue [OF assms(7)]
  note q2 = deleteCard_queue [OF assms(8)]
  have ok: "queue_ok ?q1" using assms(1) q1 by (simp add: putSyncQueueOps_ok)
  have "pendingOp Cards (cdId c) (cbQueue (clDb cl)) = None" using assms(2) by (simp add: pendingOp_def)
  then have "pendingOp Cards (cdId c) ?q1 = Some Upsert"
    using q1 assms(3) putSyncQueueOps_pending [OF assms(1) assms(5)]
    by (simp add: opsOn_def opFor_def coalesceQueuedOperation_def)
  moreover have "\<not> flying (clInFlight cl) Cards (cdId c) ?q1"
  proof -
    have fresh: "qiOpId x \<in> range (ceUuid env)" if x: "queued Cards (cdId c) ?q1 = Some x" for x
    proof -
      have "queued Cards (cdId c) (enqueueEach (clInFlight cl) (ceNow env) (ceUuid env)
          [opFor Cards Upsert (cdId c)] (cbQueue (clDb cl))) = Some x"
        using x q1 assms(3) by (simp add: putSyncQueueOps_def)
      from enqueueEach_opIds [OF assms(1) this] assms(2) show ?thesis by simp
    qed
    show ?thesis
    proof (cases "queued Cards (cdId c) ?q1")
      case (Some x)
      with fresh [OF Some] assms(5) show ?thesis by (auto simp: flying_def)
    qed (simp add: flying_def)
  qed
  ultimately show ?thesis
    using q1 q2 assms(4) putSyncQueueOps_pending [OF ok assms(6)]
    by (simp add: opsOn_def opFor_def coalesceQueuedOperation_def tbl_get_del)
qed

end
