(* ===== verification/ClientPull.thy ===== *)
theory ClientPull
  imports ClientMedia StudyMirror
begin

text \<open>
  apps/client/src/services: applying what the server sends. sync-local.ts writes one record to
  memory and IndexedDB, sync-pull.ts applies a delta record by record with last write wins,
  quarantines records it can never read, advances the cursor and pages through the backlog.

  \<open>applyChain\<close> runs deltas one after the other, so an application is one function of the
  client. The k-th transaction of a delta meets the fault \<open>ceFault env k\<close>.
\<close>

section \<open>Local writes (sync-local.ts)\<close>

definition readDurableTopic :: "id \<Rightarrow> client_db \<Rightarrow> topic option" where
  "readDurableTopic i db = tbl_get tpId i (cbTopics db)"

definition readDurableCard :: "id \<Rightarrow> client_db \<Rightarrow> card option" where
  "readDurableCard i db = tbl_get cdId i (cbCards db)"

definition recordTopics :: "sync_record list \<Rightarrow> topic_record list" where
  "recordTopics rs = concat (map (\<lambda>r. case srTopic r of None \<Rightarrow> [] | Some t \<Rightarrow> [t]) rs)"

definition recordCards :: "sync_record list \<Rightarrow> card_record list" where
  "recordCards rs = concat (map (\<lambda>r. case srCard r of None \<Rightarrow> [] | Some c \<Rightarrow> [c]) rs)"

definition readDurableRows :: "pull_delta \<Rightarrow> client_db \<Rightarrow> topic list \<times> card list" where
  "readDurableRows d db =
     (fold (\<lambda>r ts. case readDurableTopic (trId r) db of None \<Rightarrow> ts | Some t \<Rightarrow> tbl_put tpId t ts) (recordTopics (pdRecords d)) [],
      fold (\<lambda>r cs. case readDurableCard (crId r) db of None \<Rightarrow> cs | Some c \<Rightarrow> tbl_put cdId c cs) (recordCards (pdRecords d)) [])"

definition keepStats :: "call_env \<Rightarrow> (client_error option \<Rightarrow> client_db \<Rightarrow> client_error + client_db)
    \<Rightarrow> client \<Rightarrow> client_error option \<times> client" where
  "keepStats env f cl =
     (case f (ceStatsFault env) (clDb cl) of Inl e \<Rightarrow> (Some e, cl) | Inr db \<Rightarrow> (None, cl\<lparr>clDb := db\<rparr>))"

definition putLocalCard :: "call_env \<Rightarrow> nat \<Rightarrow> card \<Rightarrow> client \<Rightarrow> client_error option \<times> client" where
  "putLocalCard env k c cl =
     (case putCardInMemory c (clMem cl) of (previous, mem) \<Rightarrow>
        (case withTransaction (ceFault env k) (\<lambda>db. Inr ((), putCardRow c db)) (clDb cl) of
           Inl e \<Rightarrow> (Some e, cl\<lparr>clMem := restoreCardInMemory (cdId c) previous mem\<rparr>)
         | Inr (_, db) \<Rightarrow>
             keepStats env (\<lambda>f. recordCardMediaUpsert f previous c) (cl\<lparr>clMem := mem, clDb := db\<rparr>)))"

definition putLocalTopic :: "call_env \<Rightarrow> nat \<Rightarrow> topic \<Rightarrow> client \<Rightarrow> client_error option \<times> client" where
  "putLocalTopic env k t cl =
     (case putTopicInMemory t (clMem cl) of (previous, mem) \<Rightarrow>
        (case withTransaction (ceFault env k)
            (\<lambda>db. case putTopicRow t db of Inl e \<Rightarrow> Inl e | Inr db1 \<Rightarrow> Inr ((), db1)) (clDb cl) of
           Inl e \<Rightarrow> (Some e, cl\<lparr>clMem := restoreTopicInMemory (tpId t) previous mem\<rparr>)
         | Inr (_, db) \<Rightarrow> (None, cl\<lparr>clMem := mem, clDb := db\<rparr>)))"

definition deleteLocalTopic :: "call_env \<Rightarrow> nat \<Rightarrow> id \<Rightarrow> client \<Rightarrow> client_error option \<times> client" where
  "deleteLocalTopic env k i cl =
     (let previousCards = getCardsByTopicFromMemory i (clMem cl)
      in case deleteTopicFromMemory i (clMem cl) of (previousTopic, mem0) \<Rightarrow>
        (let mem = fold (\<lambda>c m. snd (deleteCardFromMemory (cdId c) m)) previousCards mem0
         in case withTransaction (ceFault env k)
              (\<lambda>db. Inr (removedMedia (filter (\<lambda>c. cdTopicId c = i) (cbCards db)),
                 db\<lparr>cbTopics := tbl_del tpId i (cbTopics db),
                    cbCards := filter (\<lambda>c. cdTopicId c \<noteq> i) (cbCards db)\<rparr>)) (clDb cl) of
              Inl e \<Rightarrow> (Some e, cl\<lparr>clMem := restoreCards (map (\<lambda>c. (cdId c, Some c)) previousCards)
                          (restoreTopicInMemory i previousTopic mem)\<rparr>)
            | Inr (delta, db) \<Rightarrow>
                keepStats env (\<lambda>f. adjustCardMediaStats f delta) (cl\<lparr>clMem := mem, clDb := db\<rparr>)))"

definition deleteLocalCard :: "call_env \<Rightarrow> nat \<Rightarrow> id \<Rightarrow> client \<Rightarrow> client_error option \<times> client" where
  "deleteLocalCard env k i cl =
     (case deleteCardFromMemory i (clMem cl) of (previous, mem) \<Rightarrow>
        (case withTransaction (ceFault env k) (\<lambda>db. Inr ((), deleteCardRows [i] db)) (clDb cl) of
           Inl e \<Rightarrow> (Some e, cl\<lparr>clMem := restoreCardInMemory i previous mem\<rparr>)
         | Inr (_, db) \<Rightarrow>
             (case previous of None \<Rightarrow> (None, cl\<lparr>clMem := mem, clDb := db\<rparr>)
              | Some p \<Rightarrow> keepStats env (\<lambda>f. recordCardMediaDelete f p) (cl\<lparr>clMem := mem, clDb := db\<rparr>))))"

section \<open>Applying a delta (sync-pull.ts)\<close>

definition POISON_CODE :: string where
  "POISON_CODE = ''POISON_RECORD''"

definition poisonOp :: "sync_table \<Rightarrow> id \<Rightarrow> string \<Rightarrow> ms \<Rightarrow> failed_op" where
  "poisonOp t r message now =
     \<lparr>foOpId = ''pull:'' @ tableName t @ '':'' @ r, foTable = t, foRecordId = r, foCode = POISON_CODE,
      foMessage = message, foAt = now\<rparr>"

definition applyTopicConflict :: "call_env \<Rightarrow> nat \<Rightarrow> topic_conflict \<Rightarrow> client \<Rightarrow> client_error option \<times> client" where
  "applyTopicConflict env k conflict cl =
     (case readDurableTopic (tcTopicId conflict) (clDb cl) of
        None \<Rightarrow> (None, cl)
      | Some local \<Rightarrow> putLocalTopic env k
          (local\<lparr>tpTitle := tcNewTitle conflict, tpUpdatedAt := Some (jsTrunc (tcUpdatedAt conflict))\<rparr>) cl)"

record apply_state =
  apClient :: client
  apTopics :: "topic list"
  apCards :: "card list"
  apMutated :: bool
  apPoisoned :: "failed_op list"

definition localTime :: "ms option option \<Rightarrow> rat option" where
  "localTime t = (case t of None \<Rightarrow> None | Some u \<Rightarrow> map_option of_int u)"

definition stepDone :: "(apply_state \<Rightarrow> apply_state) \<Rightarrow> apply_state \<Rightarrow> client_error option \<times> client
    \<Rightarrow> client_error option \<times> apply_state" where
  "stepDone f s r = (case r of
      (Some e, cl) \<Rightarrow> (Some e, s\<lparr>apClient := cl\<rparr>)
    | (None, cl) \<Rightarrow> (None, (f s)\<lparr>apClient := cl, apMutated := True\<rparr>))"

text \<open>The put of a topic, with the second try under another title.\<close>

definition putOrRename :: "call_env \<Rightarrow> nat \<Rightarrow> topic \<Rightarrow> apply_state \<Rightarrow> client_error option \<times> apply_state" where
  "putOrRename env k incoming s =
     (case putLocalTopic env k incoming (apClient s) of
        (Some ConstraintError, cl) \<Rightarrow>
          (let renamed = incoming\<lparr>tpTitle := tpTitle incoming @ '' ('' @ take 4 (tpId incoming) @ '')''\<rparr>
           in stepDone (\<lambda>s. s\<lparr>apTopics := tbl_put tpId renamed (apTopics s)\<rparr>) s
                (putLocalTopic env (Suc k) renamed cl))
      | r \<Rightarrow> stepDone (\<lambda>s. s\<lparr>apTopics := tbl_put tpId incoming (apTopics s)\<rparr>) s r)"

definition applyTopicRecord :: "host \<Rightarrow> call_env \<Rightarrow> nat \<Rightarrow> topic_record \<Rightarrow> apply_state
    \<Rightarrow> client_error option \<times> apply_state" where
  "applyTopicRecord H env k remote s =
     (let local = tbl_get tpId (trId remote) (apTopics s)
      in if isTruthyTime (trDeletedAt remote) then
           (if local \<noteq> None \<and> shouldApplyRemote (localTime (map_option tpUpdatedAt local)) (trUpdatedAt remote)
            then stepDone (\<lambda>s. s\<lparr>apTopics := tbl_del tpId (trId remote) (apTopics s)\<rparr>) s
                   (deleteLocalTopic env k (trId remote) (apClient s))
            else (None, s))
         else if \<not> shouldApplyRemote (localTime (map_option tpUpdatedAt local)) (trUpdatedAt remote) then (None, s)
         else case recordToTopic H (ceNow env) remote of
                Inl e \<Rightarrow> (None, s\<lparr>apPoisoned := apPoisoned s @ [poisonOp Topics (trId remote) e (ceNow env)]\<rparr>)
              | Inr incoming \<Rightarrow> putOrRename env k incoming s)"

definition applyCardRecord :: "(id \<times> jsv) list \<Rightarrow> call_env \<Rightarrow> nat \<Rightarrow> card_record \<Rightarrow> apply_state
    \<Rightarrow> client_error option \<times> apply_state" where
  "applyCardRecord hydrated env k remote s =
     (let local = tbl_get cdId (crId remote) (apCards s);
          poison = (\<lambda>e. (None, s\<lparr>apPoisoned := apPoisoned s @ [poisonOp Cards (crId remote) e (ceNow env)]\<rparr>))
      in if isTruthyTime (crDeletedAt remote) then
           (if local \<noteq> None \<and> shouldApplyRemote (localTime (map_option cdUpdatedAt local)) (crUpdatedAt remote)
            then stepDone (\<lambda>s. s\<lparr>apCards := tbl_del cdId (crId remote) (apCards s)\<rparr>) s
                   (deleteLocalCard env k (crId remote) (apClient s))
            else (None, s))
         else if \<not> shouldApplyRemote (localTime (map_option cdUpdatedAt local)) (crUpdatedAt remote) then (None, s)
         else case tbl_get fst (crId remote) hydrated of
                None \<Rightarrow> poison ''Card data is unreadable''
              | Some p \<Rightarrow>
                  (case recordToCard k remote (snd p) of
                     Inl e \<Rightarrow> poison e
                   | Inr incoming \<Rightarrow>
                       stepDone (\<lambda>s. s\<lparr>apCards := tbl_put cdId incoming (apCards s)\<rparr>) s
                         (putLocalCard env k incoming (apClient s))))"

definition applyRecord :: "host \<Rightarrow> (id \<times> jsv) list \<Rightarrow> call_env \<Rightarrow> nat \<Rightarrow> sync_record \<Rightarrow> apply_state
    \<Rightarrow> client_error option \<times> apply_state" where
  "applyRecord H hydrated env k r s =
     (case (case srTopic r of None \<Rightarrow> (None, s) | Some t \<Rightarrow> applyTopicRecord H env k t s) of
        (Some e, s1) \<Rightarrow> (Some e, s1)
      | (None, s1) \<Rightarrow> (case srCard r of None \<Rightarrow> (None, s1)
          | Some c \<Rightarrow> applyCardRecord hydrated env (k + 2) c s1))"

fun applyRecords :: "host \<Rightarrow> (id \<times> jsv) list \<Rightarrow> call_env \<Rightarrow> nat \<Rightarrow> sync_record list \<Rightarrow> apply_state
    \<Rightarrow> client_error option \<times> apply_state" where
  "applyRecords H hydrated env k [] s = (None, s)"
| "applyRecords H hydrated env k (r # rs) s =
     (case applyRecord H hydrated env k r s of
        (Some e, s1) \<Rightarrow> (Some e, s1)
      | (None, s1) \<Rightarrow> applyRecords H hydrated env (k + 4) rs s1)"

definition noteFailedOps :: "failed_op list \<Rightarrow> client \<Rightarrow> client" where
  "noteFailedOps ops cl =
     (case addFailedOps ops (clDb cl, clState cl) of (db, st) \<Rightarrow> cl\<lparr>clDb := db, clState := st\<rparr>)"

text \<open>The flag says whether the user interface and the other tabs are told of a change.\<close>

definition applyPullDelta :: "host \<Rightarrow> media_api \<Rightarrow> call_env \<Rightarrow> pull_delta \<Rightarrow> client
    \<Rightarrow> client_error option \<times> bool \<times> client" where
  "applyPullDelta H api env delta cl =
     (case hydrateIncomingCardData H api (4 * length (pdRecords delta)) delta of
        Inl e \<Rightarrow> (Some e, False, cl)
      | Inr hydrated \<Rightarrow>
          (case readDurableRows delta (clDb cl) of (ts, cs) \<Rightarrow>
             (case applyRecords H hydrated env 0 (pdRecords delta)
                 \<lparr>apClient = cl, apTopics = ts, apCards = cs, apMutated = False, apPoisoned = []\<rparr> of
                (err, s) \<Rightarrow>
                  (let cl1 = noteFailedOps (apPoisoned s) (apClient s)
                   in case err of
                        Some e \<Rightarrow> (Some e, apMutated s, cl1)
                      | None \<Rightarrow> (None, apMutated s,
                          if pdWatermark delta = '''' then cl1
                          else cl1\<lparr>clDb := advanceCursor (pdWatermark delta) (clDb cl1)\<rparr>)))))"

section \<open>Paging\<close>

text \<open>
  \<open>pull\<close> is the request of the backend for one page. The loop has no bound in the source;
  \<open>fuel\<close> bounds the pages here and \<open>None\<close> is running out of it.
\<close>

fun pullLoop :: "nat \<Rightarrow> host \<Rightarrow> media_api \<Rightarrow> call_env \<Rightarrow> (string \<Rightarrow> client_error + pull_delta) \<Rightarrow> string \<Rightarrow> client
    \<Rightarrow> (client_error option \<times> client) option" where
  "pullLoop 0 H api env pull since cl = None"
| "pullLoop (Suc n) H api env pull since cl =
     (case pull since of
        Inl e \<Rightarrow> Some (Some e, cl)
      | Inr delta \<Rightarrow>
          (case applyPullDelta H api env delta cl of
             (Some e, _, cl1) \<Rightarrow> Some (Some e, cl1)
           | (None, _, cl1) \<Rightarrow>
               if \<not> pdMore delta then Some (None, cl1)
               else pullLoop n H api env pull
                      (if pdWatermark delta = '''' then getCursor (clDb cl1) else pdWatermark delta) cl1))"

definition pullChangesClient :: "nat \<Rightarrow> host \<Rightarrow> media_api \<Rightarrow> call_env \<Rightarrow> (string \<Rightarrow> client_error + pull_delta) \<Rightarrow> client
    \<Rightarrow> (client_error option \<times> client) option" where
  "pullChangesClient fuel H api env pull cl =
     (if \<not> ceBackend env then Some (None, cl)
      else pullLoop fuel H api env pull (getCursor (clDb cl)) cl)"

definition bootstrapPull :: "nat \<Rightarrow> host \<Rightarrow> media_api \<Rightarrow> call_env
    \<Rightarrow> (string \<Rightarrow> nat \<Rightarrow> client_error + pull_delta) \<Rightarrow> (string \<Rightarrow> client_error + pull_delta) \<Rightarrow> string \<Rightarrow> client
    \<Rightarrow> (client_error option \<times> client) option" where
  "bootstrapPull fuel H api env bootstrap pull lastPulledAt cl =
     (if \<not> ceBackend env then Some (None, cl)
      else case bootstrap lastPulledAt (length (getQueue (clDb cl))) of
             Inl e \<Rightarrow> Some (Some e, cl)
           | Inr delta \<Rightarrow>
               (case applyPullDelta H api env delta cl of
                  (Some e, _, cl1) \<Rightarrow> Some (Some e, cl1)
                | (None, _, cl1) \<Rightarrow>
                    if pdMore delta then pullChangesClient fuel H api env pull cl1 else Some (None, cl1)))"

end
