(* ===== verification/ClientPush.thy ===== *)
theory ClientPush
  imports ClientPull
begin

text \<open>
  apps/client/src/services/sync-push.ts: draining the outbox. A round takes the operations that
  are due into one batch, uploads their media, sends the batch and settles the answers.

  \<open>push_world\<close> is what a drain meets, round by round: the call environment (clock, random ids,
  failing transactions) while the batch is built and when its answer is settled, the backend over HTTP and over the socket when that is active, the
  object store, and what the user does to the client while a batch is under way
  (\<open>pwMeanwhile\<close>). The backend keeps a state of its own, the type variable, which a request may
  change.
\<close>

record 's push_world =
  pwEnv :: "nat \<Rightarrow> call_env"
  pwAckEnv :: "nat \<Rightarrow> call_env"
  pwRandom :: "nat \<Rightarrow> rat"
  pwHttp :: "id \<Rightarrow> mutation list \<Rightarrow> 's \<Rightarrow> (client_error + push_ack) \<times> 's"
  pwRealtime :: "(mutation list \<Rightarrow> 's \<Rightarrow> (client_error + push_ack) \<times> 's) option"
  pwMedia :: media_api
  pwMeanwhile :: "nat \<Rightarrow> client \<Rightarrow> client"

definition MAX_PUSH_BATCH :: nat where "MAX_PUSH_BATCH = 50"
definition MAX_PUSH_BYTES :: nat where "MAX_PUSH_BYTES = 700000"
definition MAX_ATTEMPTS :: nat where "MAX_ATTEMPTS = 10"
definition INITIAL_RATE_LIMIT_DELAY_MS :: nat where "INITIAL_RATE_LIMIT_DELAY_MS = 2000"
definition MAX_RATE_LIMIT_DELAY_MS :: nat where "MAX_RATE_LIMIT_DELAY_MS = 60000"

section \<open>Building a batch\<close>

record mutation_batch =
  mbMutations :: "mutation list"
  mbItems :: "queue_item list"
  mbMedia :: media_by_hash
  mbBytes :: nat

definition mutationBytes :: "host \<Rightarrow> mutation \<Rightarrow> nat" where
  "mutationBytes H m = length (jsonStringify H (encMutation m)) + 1"

definition tryAdd :: "host \<Rightarrow> queue_item \<Rightarrow> mutation \<Rightarrow> mutation_batch \<Rightarrow> mutation_batch option" where
  "tryAdd H item m b =
     (if mbMutations b \<noteq> [] \<and> mbBytes b + mutationBytes H m > MAX_PUSH_BYTES then None
      else Some (b\<lparr>mbMutations := mbMutations b @ [m], mbItems := mbItems b @ [item],
                   mbBytes := mbBytes b + mutationBytes H m\<rparr>))"

text \<open>One transaction of the outbox, the k-th of its caller.\<close>

definition queueTx :: "call_env \<Rightarrow> nat \<Rightarrow> (queue_item list \<Rightarrow> queue_item list) \<Rightarrow> client
    \<Rightarrow> client_error option \<times> client" where
  "queueTx env k f cl =
     (case withTransaction (ceFault env k) (\<lambda>db. Inr ((), db\<lparr>cbQueue := f (cbQueue db)\<rparr>)) (clDb cl) of
        Inl e \<Rightarrow> (Some e, cl)
      | Inr (_, db) \<Rightarrow> (None, cl\<lparr>clDb := db\<rparr>))"

definition mutationFor :: "call_env \<Rightarrow> id \<Rightarrow> nat \<Rightarrow> queue_item \<Rightarrow> ms \<Rightarrow> topic_record option \<Rightarrow> card_record option \<Rightarrow> mutation" where
  "mutationFor env device k item updatedAt t c =
     \<lparr>muOpId = (if qiOpId item = '''' then ceUuid env k else qiOpId item), muDeviceId = device,
      muTable = qiTable item, muRecordId = qiRecordId item, muOperation = qiOperation item,
      muUpdatedAt = of_int updatedAt, muTopic = t, muCard = c\<rparr>"

text \<open>The outcome of one item: skipped, added, the end of the batch, or an error.\<close>

datatype build_step = Next mutation_batch client | Stop client | Fail client_error client

definition added :: "mutation_batch option \<Rightarrow> client \<Rightarrow> build_step" where
  "added r cl = (case r of None \<Rightarrow> Stop cl | Some b \<Rightarrow> Next b cl)"

definition dropItem :: "call_env \<Rightarrow> nat \<Rightarrow> queue_item \<Rightarrow> mutation_batch \<Rightarrow> client \<Rightarrow> build_step" where
  "dropItem env k item b cl =
     (case queueTx env k (removeQueueItem (qiId item)) cl of
        (Some e, cl1) \<Rightarrow> Fail e cl1
      | (None, cl1) \<Rightarrow> Next b cl1)"

definition buildOne :: "host \<Rightarrow> call_env \<Rightarrow> id \<Rightarrow> nat \<Rightarrow> queue_item \<Rightarrow> mutation_batch \<Rightarrow> client \<Rightarrow> build_step" where
  "buildOne H env device k item b cl =
     (if qiNextRetryAt item > of_int (ceNow env) then Next b cl
      else if length (mbMutations b) \<ge> MAX_PUSH_BATCH then Stop cl
      else case qiOperation item of
        Delete \<Rightarrow> added (tryAdd H item (mutationFor env device k item (qiCreatedAt item) None None) b) cl
      | Upsert \<Rightarrow>
          (case qiTable item of
             Topics \<Rightarrow>
               (case readDurableTopic (qiRecordId item) (clDb cl) of
                  None \<Rightarrow> dropItem env k item b cl
                | Some t \<Rightarrow> added (tryAdd H item (mutationFor env device k item (orNow (tpUpdatedAt t) (ceNow env))
                     (Some (topicToRecord H (ceNow env) t)) None) b) cl)
           | Cards \<Rightarrow>
               (case readDurableCard (qiRecordId item) (clDb cl) of
                  None \<Rightarrow> dropItem env k item b cl
                | Some c \<Rightarrow>
                    (case cardToWireRecord H (ceNow env) c of
                       Inl e \<Rightarrow> Fail (AppFailure e) cl
                     | Inr (r, media) \<Rightarrow>
                         (case tryAdd H item (mutationFor env device k item (orNow (cdUpdatedAt c) (ceNow env))
                              None (Some r)) b of
                            None \<Rightarrow> Stop cl
                          | Some b1 \<Rightarrow> Next (b1\<lparr>mbMedia := mergePreparedMedia (mbMedia b1) media\<rparr>) cl)))))"

fun buildEach :: "host \<Rightarrow> call_env \<Rightarrow> id \<Rightarrow> nat \<Rightarrow> queue_item list \<Rightarrow> mutation_batch \<Rightarrow> client
    \<Rightarrow> (client_error + mutation_batch) \<times> client" where
  "buildEach H env device k [] b cl = (Inr b, cl)"
| "buildEach H env device k (item # items) b cl =
     (case buildOne H env device k item b cl of
        Next b1 cl1 \<Rightarrow> buildEach H env device (Suc k) items b1 cl1
      | Stop cl1 \<Rightarrow> (Inr b, cl1)
      | Fail e cl1 \<Rightarrow> (Inl e, cl1))"

definition emptyBatch :: mutation_batch where
  "emptyBatch = \<lparr>mbMutations = [], mbItems = [], mbMedia = [], mbBytes = 256\<rparr>"

definition buildMutations :: "host \<Rightarrow> call_env \<Rightarrow> queue_item list \<Rightarrow> client
    \<Rightarrow> (client_error + mutation_batch) \<times> client" where
  "buildMutations H env items cl =
     (case getDeviceId (ceUuid env 0) (clDb cl) of
        (device, db) \<Rightarrow> buildEach H env device 1 items emptyBatch (cl\<lparr>clDb := db\<rparr>))"

section \<open>Settling the answers\<close>

text \<open>Transactions one after the other, up to the first that fails.\<close>

fun queueTxs :: "call_env \<Rightarrow> nat \<Rightarrow> (queue_item list \<Rightarrow> queue_item list) list \<Rightarrow> client
    \<Rightarrow> client_error option \<times> client" where
  "queueTxs env k [] cl = (None, cl)"
| "queueTxs env k (f # fs) cl =
     (case queueTx env k f cl of
        (Some e, cl1) \<Rightarrow> (Some e, cl1)
      | (None, cl1) \<Rightarrow> queueTxs env (Suc k) fs cl1)"

definition byOpId :: "queue_item list \<Rightarrow> queue_item list" where
  "byOpId items = fold (tbl_put qiOpId) items []"

definition settleAccepted :: "queue_item list \<Rightarrow> id \<Rightarrow> (queue_item list \<Rightarrow> queue_item list) list" where
  "settleAccepted items opId =
     (case tbl_get qiOpId opId (byOpId items) of None \<Rightarrow> [] | Some item \<Rightarrow> [removeQueueItemIfOp item])"

fun settleConflicts :: "call_env \<Rightarrow> nat \<Rightarrow> queue_item list \<Rightarrow> topic_conflict list \<Rightarrow> client
    \<Rightarrow> client_error option \<times> client" where
  "settleConflicts env k items [] cl = (None, cl)"
| "settleConflicts env k items (c # cs) cl =
     (case applyTopicConflict env k c cl of
        (Some e, cl1) \<Rightarrow> (Some e, cl1)
      | (None, cl1) \<Rightarrow>
          (case find (\<lambda>i. qiRecordId i = tcTopicId c) (byOpId items) of
             None \<Rightarrow> settleConflicts env (k + 2) items cs cl1
           | Some item \<Rightarrow>
               (case queueTx env (k + 1) (removeQueueItemIfOp item) cl1 of
                  (Some e, cl2) \<Rightarrow> (Some e, cl2)
                | (None, cl2) \<Rightarrow> settleConflicts env (k + 2) items cs cl2)))"

definition givesUp :: "queue_item \<Rightarrow> rejected_op \<Rightarrow> bool" where
  "givesUp item r \<longleftrightarrow> \<not> roRetryable r \<or> qiAttempts item + 1 \<ge> MAX_ATTEMPTS"

definition settleRejected :: "call_env \<Rightarrow> rat \<Rightarrow> queue_item list \<Rightarrow> rejected_op
    \<Rightarrow> (queue_item list \<Rightarrow> queue_item list) list" where
  "settleRejected env rnd items r =
     (case tbl_get qiOpId (roOpId r) (byOpId items) of None \<Rightarrow> []
      | Some item \<Rightarrow> [if givesUp item r then removeQueueItemIfOp item
                      else bumpQueueAttempts (ceNow env) rnd item])"

definition failedFor :: "call_env \<Rightarrow> queue_item list \<Rightarrow> rejected_op \<Rightarrow> failed_op list" where
  "failedFor env items r =
     (case tbl_get qiOpId (roOpId r) (byOpId items) of None \<Rightarrow> []
      | Some item \<Rightarrow> if givesUp item r
          then [\<lparr>foOpId = roOpId r, foTable = qiTable item, foRecordId = qiRecordId item, foCode = roCode r,
                 foMessage = roMessage r, foAt = ceNow env\<rparr>]
          else [])"

definition applyPushAck :: "call_env \<Rightarrow> rat \<Rightarrow> push_ack \<Rightarrow> queue_item list \<Rightarrow> client \<Rightarrow> client_error option \<times> client" where
  "applyPushAck env rnd ack items cl =
     (let accepted = concat (map (settleAccepted items) (paAcceptedOpIds ack));
          rejected = concat (map (settleRejected env rnd items) (paRejected ack));
          nA = length accepted;
          nC = 2 * length (paConflicts ack)
      in case queueTxs env 0 accepted cl of
           (Some e, cl1) \<Rightarrow> (Some e, cl1)
         | (None, cl1) \<Rightarrow>
             (case settleConflicts env nA items (paConflicts ack) cl1 of
                (Some e, cl2) \<Rightarrow> (Some e, cl2)
              | (None, cl2) \<Rightarrow>
                  (case queueTxs env (nA + nC) rejected cl2 of
                     (Some e, cl3) \<Rightarrow> (Some e, cl3)
                   | (None, cl3) \<Rightarrow>
                       (let cl4 = noteFailedOps (concat (map (failedFor env items) (paRejected ack))) cl3
                        in (None, cl4\<lparr>clState := (clState cl4)\<lparr>ssQueueDepth := length (getQueue (clDb cl4))\<rparr>\<rparr>)))))"

section \<open>Sending\<close>

definition setConnection :: "sync_connection \<Rightarrow> client \<Rightarrow> client" where
  "setConnection c cl = cl\<lparr>clState := (clState cl)\<lparr>ssConnection := c\<rparr>\<rparr>"

definition sendBatch :: "'s push_world \<Rightarrow> id \<Rightarrow> mutation list \<Rightarrow> client \<Rightarrow> 's
    \<Rightarrow> (client_error + push_ack) \<times> client \<times> 's" where
  "sendBatch w deviceId mutations cl s =
     (let http = (\<lambda>s. case pwHttp w deviceId mutations s of
            (Inl e, s1) \<Rightarrow> (Inl e, cl, s1) | (Inr ack, s1) \<Rightarrow> (Inr ack, setConnection ConnHttp cl, s1))
      in case pwRealtime w of
           None \<Rightarrow> http s
         | Some rt \<Rightarrow> (case rt mutations s of
              (Inr ack, s1) \<Rightarrow> (Inr ack, setConnection ConnWs cl, s1)
            | (Inl _, s1) \<Rightarrow> http s1))"

definition isRateLimited :: "client_error \<Rightarrow> bool" where
  "isRateLimited e \<longleftrightarrow> (case e of ApiError code status \<Rightarrow> code = ''RATE_LIMITED'' \<or> status = 429 | _ \<Rightarrow> False)"

definition maxAccepted :: "push_ack \<Rightarrow> mutation list \<Rightarrow> rat" where
  "maxAccepted ack mutations =
     foldl max 0 (map muUpdatedAt (filter (\<lambda>m. muOpId m \<in> set (paAcceptedOpIds ack)) mutations))"

definition pushBatchOnce :: "'s push_world \<Rightarrow> nat \<Rightarrow> id \<Rightarrow> mutation_batch \<Rightarrow> client \<Rightarrow> 's
    \<Rightarrow> (client_error + rat) \<times> client \<times> 's" where
  "pushBatchOnce w n deviceId b cl s =
     (case uploadOwnedMedia (pwMedia w) (mbMedia b) of
        Inl e \<Rightarrow> (Inl e, pwMeanwhile w n cl, s)
      | Inr _ \<Rightarrow>
          (case sendBatch w deviceId (mbMutations b) (pwMeanwhile w n cl) s of
             (Inl e, cl1, s1) \<Rightarrow> (Inl e, cl1, s1)
           | (Inr ack, cl1, s1) \<Rightarrow>
               (case applyPushAck (pwAckEnv w n) (pwRandom w n) ack (mbItems b) cl1 of
                  (Some e, cl2) \<Rightarrow> (Inl e, cl2, s1)
                | (None, cl2) \<Rightarrow> (Inr (maxAccepted ack (mbMutations b)), cl2, s1))))"

section \<open>Draining\<close>

text \<open>
  The loop of \<open>pushQueue\<close>; \<open>fuel\<close> bounds its rounds and \<open>None\<close> is running out of it. The result
  carries the waits of the rate limit.
\<close>

fun pushLoop :: "nat \<Rightarrow> host \<Rightarrow> 's push_world \<Rightarrow> id \<Rightarrow> nat \<Rightarrow> nat \<Rightarrow> rat \<Rightarrow> client \<Rightarrow> 's
    \<Rightarrow> ((client_error + rat) \<times> nat list \<times> client \<times> 's) option" where
  "pushLoop 0 H w deviceId n delay maxAcc cl s = None"
| "pushLoop (Suc fuel) H w deviceId n delay maxAcc cl s =
     (if getQueue (clDb cl) = [] then Some (Inr maxAcc, [], cl, s)
      else case buildMutations H (pwEnv w n) (getQueue (clDb cl)) cl of
        (Inl e, cl1) \<Rightarrow> Some (Inl e, [], cl1, s)
      | (Inr b, cl1) \<Rightarrow>
          if mbMutations b = [] then Some (Inr maxAcc, [], cl1, s)
          else (let ops = set (map qiOpId (mbItems b))
                in case pushBatchOnce w n deviceId b (cl1\<lparr>clInFlight := clInFlight cl1 \<union> ops\<rparr>) s of
                     (r, cl2, s1) \<Rightarrow>
                       (let cl3 = cl2\<lparr>clInFlight := clInFlight cl2 - ops\<rparr>
                        in case r of
                             Inr accepted \<Rightarrow> pushLoop fuel H w deviceId (Suc n) INITIAL_RATE_LIMIT_DELAY_MS
                                 (max maxAcc accepted) cl3 s1
                           | Inl e \<Rightarrow>
                               if \<not> isRateLimited e then Some (Inl e, [], cl3, s1)
                               else map_option (\<lambda>(res, waits, rest). (res, delay # waits, rest))
                                   (pushLoop fuel H w deviceId (Suc n) (min MAX_RATE_LIMIT_DELAY_MS (delay * 2))
                                      maxAcc cl3 s1))))"

definition pushQueue :: "nat \<Rightarrow> host \<Rightarrow> 's push_world \<Rightarrow> id \<Rightarrow> client \<Rightarrow> 's
    \<Rightarrow> ((client_error + rat) \<times> nat list \<times> client \<times> 's) option" where
  "pushQueue fuel H w deviceId cl s =
     (if \<not> ceBackend (pwEnv w 0) then Some (Inr 0, [], cl, s)
      else pushLoop fuel H w deviceId 0 INITIAL_RATE_LIMIT_DELAY_MS 0 cl s)"

end
