(* ===== verification/ClientPullProps.thy ===== *)
theory ClientPullProps
  imports ClientPull
begin

text \<open>
  What pulling guarantees. \<open>wrote\<close> is the contract of one local write; the operations of
  sync-local.ts meet it whatever transaction fails. From it: memory keeps mirroring the stores,
  a delta never touches the outbox, the cursor moves only after every record, and a delta
  leaves the last write of each of its records.
\<close>

section \<open>The contract of a local write\<close>

definition wrote :: "client \<Rightarrow> client \<Rightarrow> bool" where
  "wrote cl cl' \<longleftrightarrow> mirrors (clDb cl') (clMem cl') \<and> cbQueue (clDb cl') = cbQueue (clDb cl)
     \<and> cbMeta (clDb cl') = cbMeta (clDb cl) \<and> clUser cl' = clUser cl \<and> clInFlight cl' = clInFlight cl
     \<and> clEntitled cl' = clEntitled cl"

lemma wrote_refl: "mirrors (clDb cl) (clMem cl) \<Longrightarrow> wrote cl cl"
  by (simp add: wrote_def)

lemma wrote_trans: "wrote a b \<Longrightarrow> wrote b c \<Longrightarrow> wrote a c"
  by (simp add: wrote_def)

lemma wrote_mirrors: "wrote a b \<Longrightarrow> mirrors (clDb b) (clMem b)"
  by (simp add: wrote_def)

lemma keepStats_wrote:
  assumes "\<And>fault. \<exists>delta. f fault = adjustCardMediaStats fault delta"
    and "mirrors (clDb cl) (clMem cl)" "keepStats env f cl = (e, cl')"
  shows "wrote cl cl' \<and> cbTopics (clDb cl') = cbTopics (clDb cl) \<and> cbCards (clDb cl') = cbCards (clDb cl)"
proof -
  obtain delta where d: "f (ceStatsFault env) = adjustCardMediaStats (ceStatsFault env) delta" using assms(1) by blast
  show ?thesis
  proof (cases "f (ceStatsFault env) (clDb cl)")
    case (Inl x)
    with assms show ?thesis by (auto simp: keepStats_def wrote_refl)
  next
    case (Inr db)
    with d have a: "adjustCardMediaStats (ceStatsFault env) delta (clDb cl) = Inr db" by simp
    have "cl' = cl\<lparr>clDb := db\<rparr>" using assms(3) Inr by (simp add: keepStats_def)
    with adjust_frame [OF a] mirrors_adjust [OF assms(2) a] show ?thesis by (simp add: wrote_def)
  qed
qed

lemma wrote_rollback:
  "mirrors (clDb cl) (clMem cl) \<Longrightarrow> mem_ok m \<and> same_memory (clMem cl) m \<Longrightarrow> wrote cl (cl\<lparr>clMem := m\<rparr>)"
  by (auto simp: wrote_def intro: mirrors_same)

lemma putLocalTopic_spec:
  assumes "mirrors (clDb cl) (clMem cl)" "putLocalTopic env k t cl = (e, cl')"
  shows "wrote cl cl' \<and> cbCards (clDb cl') = cbCards (clDb cl)
    \<and> cbTopics (clDb cl') = (if e = None then idb_put tpId t (cbTopics (clDb cl)) else cbTopics (clDb cl))"
proof -
  obtain p mem where p: "putTopicInMemory t (clMem cl) = (p, mem)" by fastforce
  then have undo: "mem_ok (restoreTopicInMemory (tpId t) p mem) \<and>
      same_memory (clMem cl) (restoreTopicInMemory (tpId t) p mem)"
    using undo_topics [OF mirrors_mem [OF assms(1)], of "[t]" "[(tpId t, p)]" mem]
    by (simp add: restoreTopics_def putTopicsInMemory.simps)
  let ?body = "\<lambda>db. case putTopicRow t db of Inl e \<Rightarrow> Inl e | Inr db1 \<Rightarrow> Inr ((), db1)"
  show ?thesis
  proof (cases "withTransaction (ceFault env k) ?body (clDb cl)")
    case (Inl x)
    with assms p undo show ?thesis by (auto simp: putLocalTopic_def wrote_rollback)
  next
    case (Inr r)
    then have d: "putTopicRow t (clDb cl) = Inr (snd r)" by (auto simp: withTransaction_Inr split: sum.splits)
    then have "mirrors (snd r) mem" using putTopicRow_ok [OF d assms(1)] p by simp
    moreover have "snd r = (clDb cl)\<lparr>cbTopics := idb_put tpId t (cbTopics (clDb cl))\<rparr>"
      using d by (auto simp: putTopicRow_def split: if_splits)
    ultimately show ?thesis using assms(2) p Inr by (cases r) (auto simp: putLocalTopic_def wrote_def)
  qed
qed

lemma putLocalCard_spec:
  assumes "mirrors (clDb cl) (clMem cl)" "putLocalCard env k c cl = (e, cl')"
  shows "wrote cl cl' \<and> cbTopics (clDb cl') = cbTopics (clDb cl)
    \<and> (e = None \<longrightarrow> cbCards (clDb cl') = idb_put cdId c (cbCards (clDb cl)))"
proof -
  obtain p mem where p: "putCardInMemory c (clMem cl) = (p, mem)" by fastforce
  note undo = undo_card [OF mirrors_mem [OF assms(1)] p]
  show ?thesis
  proof (cases "withTransaction (ceFault env k) (\<lambda>db. Inr ((), putCardRow c db)) (clDb cl)")
    case (Inl x)
    with assms p undo show ?thesis by (auto simp: putLocalCard_def wrote_rollback)
  next
    case (Inr r)
    then have r: "snd r = putCardRow c (clDb cl)" by (auto simp: withTransaction_Inr)
    have m: "mirrors (snd r) mem" using putCardRow_ok [OF assms(1), of c] p r by simp
    have "keepStats env (\<lambda>f. recordCardMediaUpsert f p c) (cl\<lparr>clMem := mem, clDb := snd r\<rparr>) = (e, cl')"
      using assms(2) p Inr by (cases r) (simp add: putLocalCard_def)
    from keepStats_wrote [OF upsert_delta _ this] m
    have "wrote (cl\<lparr>clMem := mem, clDb := snd r\<rparr>) cl' \<and> cbTopics (clDb cl') = cbTopics (snd r)
      \<and> cbCards (clDb cl') = cbCards (snd r)" by simp
    then show ?thesis by (simp add: wrote_def r putCardRow_def)
  qed
qed

lemma deleteLocalCard_spec:
  assumes "mirrors (clDb cl) (clMem cl)" "deleteLocalCard env k i cl = (e, cl')"
  shows "wrote cl cl' \<and> cbTopics (clDb cl') = cbTopics (clDb cl)
    \<and> (e = None \<longrightarrow> cbCards (clDb cl') = tbl_del cdId i (cbCards (clDb cl)))"
proof -
  obtain p mem where p: "deleteCardFromMemory i (clMem cl) = (p, mem)" by fastforce
  note undo = undo_delete_card [OF mirrors_mem [OF assms(1)] p]
  show ?thesis
  proof (cases "withTransaction (ceFault env k) (\<lambda>db. Inr ((), deleteCardRows [i] db)) (clDb cl)")
    case (Inl x)
    with assms p undo show ?thesis by (auto simp: deleteLocalCard_def wrote_rollback)
  next
    case (Inr r)
    then have r: "snd r = deleteCardRows [i] (clDb cl)" by (auto simp: withTransaction_Inr)
    have m: "mirrors (snd r) mem" using deleteCardRow_ok [OF assms(1), of i] p r by simp
    have fr: "wrote (cl\<lparr>clMem := mem, clDb := snd r\<rparr>) cl' \<and> cbTopics (clDb cl') = cbTopics (snd r)
      \<and> cbCards (clDb cl') = cbCards (snd r)"
    proof (cases p)
      case None
      with assms(2) p Inr have "cl' = cl\<lparr>clMem := mem, clDb := snd r\<rparr>"
        by (cases r) (simp add: deleteLocalCard_def)
      with m show ?thesis by (simp add: wrote_refl)
    next
      case (Some q)
      with assms(2) p Inr have "keepStats env (\<lambda>f. recordCardMediaDelete f q) (cl\<lparr>clMem := mem, clDb := snd r\<rparr>) = (e, cl')"
        by (cases r) (simp add: deleteLocalCard_def)
      from keepStats_wrote [OF delete_delta _ this] m show ?thesis by simp
    qed
    then show ?thesis by (simp add: wrote_def r deleteCardRows_def)
  qed
qed

lemma fold_delete_cards: "fold (\<lambda>c m. snd (deleteCardFromMemory (cdId c) m)) cs m
    = fold (\<lambda>i m. snd (deleteCardFromMemory i m)) (map cdId cs) m"
  by (simp add: fold_map comp_def)

lemma deleteCards_topics: "smTopics (fold (\<lambda>i m. snd (deleteCardFromMemory i m)) is m) = smTopics m"
  by (induction "is" arbitrary: m) simp_all

lemma topicDelete_frame [simp]:
  "getCardFromMemory k (snd (deleteTopicFromMemory i m)) = getCardFromMemory k m"
  by (simp add: deleteTopicFromMemory_def getCardFromMemory_def)

lemma topicDelete_ok: "mem_ok m \<Longrightarrow> mem_ok (snd (deleteTopicFromMemory i m))"
  by (rule topicmem.inv_del)

lemma deleteTopicRows_ok:
  fixes i :: id
  assumes "mirrors db m"
  defines "cs \<equiv> getCardsByTopicFromMemory i m"
  defines "m' \<equiv> fold (\<lambda>i m. snd (deleteCardFromMemory i m)) (map cdId cs) (snd (deleteTopicFromMemory i m))"
  shows "mirrors (db\<lparr>cbTopics := tbl_del tpId i (cbTopics db),
      cbCards := filter (\<lambda>c. cdTopicId c \<noteq> i) (cbCards db)\<rparr>) m'"
    and "mem_ok (restoreCards (map (\<lambda>c. (cdId c, Some c)) cs) (restoreTopicInMemory i (fst (deleteTopicFromMemory i m)) m'))
      \<and> same_memory m (restoreCards (map (\<lambda>c. (cdId c, Some c)) cs)
           (restoreTopicInMemory i (fst (deleteTopicFromMemory i m)) m'))"
proof -
  have m: "mem_ok m" "db_shape db" "agree tpId (smTopics m) (cbTopics db)" "agree cdId (smCards m) (cbCards db)"
    using assms(1) by (simp_all add: mirrors_def)
  let ?m0 = "snd (deleteTopicFromMemory i m)"
  have m0: "mem_ok ?m0" using m(1) by (rule topicDelete_ok)
  have ok': "mem_ok m'" unfolding m'_def using m0 by (rule cardmem.inv_fold_del)
  have cs: "c \<in> set cs \<longleftrightarrow> c \<in> set (smCards m) \<and> cdTopicId c = i" for c
    using mem_okD(4) [OF m(1)] by (simp add: cs_def getCardsByTopicFromMemory_def)
  have get': "getCardFromMemory k m' = (if k \<in> cdId ` set cs then None else getCardFromMemory k m)" for k
    unfolding m'_def by (simp add: cardmem.get_fold_del [OF m0])
  have ids: "k \<in> cdId ` set cs \<longleftrightarrow> (\<exists>c. tbl_get cdId k (smCards m) = Some c \<and> cdTopicId c = i)" for k
    using tbl_get_iff [OF mem_okD(2) [OF m(1)]] cs by (auto simp: image_iff)
  have "tbl_ok cdId (cbCards db)" using m(2) by (simp add: db_shape_def idb_ok_tbl_ok)
  then have "tbl_get cdId k (filter (\<lambda>c. cdTopicId c \<noteq> i) (cbCards db)) = getCardFromMemory k m'" for k
    using agreeD [OF m(4), of k] ids [of k]
    by (auto simp: tbl_get_filter get' [unfolded getCardFromMemory_def] getCardFromMemory_def split: option.split)
  then have a: "agree cdId (smCards m') (filter (\<lambda>c. cdTopicId c \<noteq> i) (cbCards db))"
    by (simp add: agree_def getCardFromMemory_def)
  have t': "smTopics m' = tbl_del tpId i (smTopics m)"
    by (simp add: m'_def deleteCards_topics deleteTopicFromMemory_def)
  have "titles_unique (tbl_del tpId i (cbTopics db))"
    using m(2) by (auto simp: db_shape_def titles_unique_def set_tbl_del)
  with m(2) have shape: "db_shape (db\<lparr>cbTopics := tbl_del tpId i (cbTopics db),
      cbCards := filter (\<lambda>c. cdTopicId c \<noteq> i) (cbCards db)\<rparr>)"
    by (simp add: db_shape_def idb_ok_del idb_ok_filter)
  show "mirrors (db\<lparr>cbTopics := tbl_del tpId i (cbTopics db),
      cbCards := filter (\<lambda>c. cdTopicId c \<noteq> i) (cbCards db)\<rparr>) m'"
    using shape ok' a agree_del [OF m(3)] by (simp add: mirrors_def t')
  let ?r = "restoreTopicInMemory i (fst (deleteTopicFromMemory i m)) m'"
  have own: "c \<in> set cs \<Longrightarrow> getCardFromMemory (cdId c) m = Some c" for c
    using tbl_get_iff [OF mem_okD(2) [OF m(1)], of "cdId c" c] cs [of c] by (simp add: getCardFromMemory_def)
  let ?u = "restoreCards (map (\<lambda>c. (cdId c, Some c)) cs) ?r"
  have okr: "mem_ok ?r" unfolding restoreTopic_one using ok' by (rule topicmem.inv_restore)
  have "getCardFromMemory k ?u = (if k \<in> cdId ` set cs then getCardFromMemory k m else getCardFromMemory k ?r)" for k
    unfolding restoreCards_fold
    by (subst cardmem.get_restore_all [OF m(1) okr])
       (auto simp: image_image own)
  moreover have "getCardFromMemory k ?r = getCardFromMemory k m'" for k by (simp add: getCardFromMemory_def)
  ultimately have c: "getCardFromMemory k ?u = getCardFromMemory k m" for k by (simp add: get')
  have "getTopicFromMemory k ?r = getTopicFromMemory k m" for k
    using topicmem.rollback_del [OF m(1), of k i] m(1)
    by (cases "tbl_get tpId i (smTopics m)")
       (auto simp: restoreTopicInMemory_def getTopicFromMemory_def deleteTopicFromMemory_def t' tbl_facts
          dest: tbl_get_key split: option.splits)
  then have t: "agree tpId (smTopics m) (smTopics ?u)"
    by (simp add: restoreCards_topics agree_def getTopicFromMemory_def)
  have "mem_ok ?u" unfolding restoreCards_fold using okr by (rule cardmem.inv_restore_all)
  with c t show "mem_ok ?u \<and> same_memory m ?u"
    by (simp add: same_memory_def agree_def getCardFromMemory_def)
qed

lemma deleteLocalTopic_spec:
  assumes "mirrors (clDb cl) (clMem cl)" "deleteLocalTopic env k i cl = (e, cl')"
  shows "wrote cl cl' \<and> (e = None \<longrightarrow> cbTopics (clDb cl') = tbl_del tpId i (cbTopics (clDb cl))
     \<and> cbCards (clDb cl') = filter (\<lambda>c. cdTopicId c \<noteq> i) (cbCards (clDb cl)))"
proof -
  let ?cs = "getCardsByTopicFromMemory i (clMem cl)"
  obtain p mem0 where p: "deleteTopicFromMemory i (clMem cl) = (p, mem0)" by fastforce
  let ?mem = "fold (\<lambda>c m. snd (deleteCardFromMemory (cdId c) m)) ?cs mem0"
  let ?db = "(clDb cl)\<lparr>cbTopics := tbl_del tpId i (cbTopics (clDb cl)),
      cbCards := filter (\<lambda>c. cdTopicId c \<noteq> i) (cbCards (clDb cl))\<rparr>"
  have pp: "fst (deleteTopicFromMemory i (clMem cl)) = p" "snd (deleteTopicFromMemory i (clMem cl)) = mem0"
    using p by simp_all
  note rows = deleteTopicRows_ok [OF assms(1), of i, unfolded pp]
  let ?body = "\<lambda>db. Inr (removedMedia (filter (\<lambda>c. cdTopicId c = i) (cbCards db)),
      db\<lparr>cbTopics := tbl_del tpId i (cbTopics db), cbCards := filter (\<lambda>c. cdTopicId c \<noteq> i) (cbCards db)\<rparr>)"
  show ?thesis
  proof (cases "withTransaction (ceFault env k) ?body (clDb cl)")
    case (Inl x)
    with assms p rows(2) show ?thesis
      by (auto simp: deleteLocalTopic_def wrote_rollback Let_def fold_delete_cards)
  next
    case (Inr r)
    then have r: "snd r = ?db" by (auto simp: withTransaction_Inr)
    have "keepStats env (\<lambda>f. adjustCardMediaStats f (fst r)) (cl\<lparr>clMem := ?mem, clDb := ?db\<rparr>) = (e, cl')"
      using assms(2) p Inr r by (cases r) (simp add: deleteLocalTopic_def Let_def)
    from keepStats_wrote [OF _ _ this] rows(1)
    have "wrote (cl\<lparr>clMem := ?mem, clDb := ?db\<rparr>) cl' \<and> cbTopics (clDb cl') = cbTopics ?db
       \<and> cbCards (clDb cl') = cbCards ?db" by (auto simp: fold_delete_cards)
    then show ?thesis by (simp add: wrote_def)
  qed
qed

section \<open>A delta writes nothing but rows\<close>

lemma stepDone_fst [simp]: "fst (stepDone f s r) = fst r"
  by (cases r; cases "fst r") (auto simp: stepDone_def)

lemma stepDone_client [simp]: "apClient (snd (stepDone f s r)) = snd r"
  by (cases r; cases "fst r") (auto simp: stepDone_def)

lemma local_wrote:
  assumes "mirrors (clDb cl) (clMem cl)"
  shows "wrote cl (snd (putLocalTopic env k t cl))" "wrote cl (snd (putLocalCard env k c cl))"
    "wrote cl (snd (deleteLocalTopic env k i cl))" "wrote cl (snd (deleteLocalCard env k i cl))"
  using putLocalTopic_spec [OF assms] putLocalCard_spec [OF assms] deleteLocalTopic_spec [OF assms]
    deleteLocalCard_spec [OF assms] by (metis prod.collapse)+

lemma putOrRename_cases:
  obtains (first) "putOrRename env k t s = stepDone (\<lambda>s. s\<lparr>apTopics := tbl_put tpId t (apTopics s)\<rparr>) s
      (putLocalTopic env k t (apClient s))"
  | (renamed) cl t' where "putLocalTopic env k t (apClient s) = (Some ConstraintError, cl)"
      "t' = t\<lparr>tpTitle := tpTitle t @ '' ('' @ take 4 (tpId t) @ '')''\<rparr>"
      "putOrRename env k t s = stepDone (\<lambda>s. s\<lparr>apTopics := tbl_put tpId t' (apTopics s)\<rparr>) s
      (putLocalTopic env (Suc k) t' cl)"
proof (cases "fst (putLocalTopic env k t (apClient s)) = Some ConstraintError")
  case True
  then obtain cl where "putLocalTopic env k t (apClient s) = (Some ConstraintError, cl)"
    by (cases "putLocalTopic env k t (apClient s)") auto
  then show ?thesis by (intro renamed) (auto simp: putOrRename_def Let_def)
next
  case False
  then show ?thesis
    by (intro first, cases "putLocalTopic env k t (apClient s)")
       (auto simp: putOrRename_def split: option.split client_error.split)
qed

lemma putOrRename_wrote:
  assumes "mirrors (clDb (apClient s)) (clMem (apClient s))"
  shows "wrote (apClient s) (apClient (snd (putOrRename env k t s)))"
proof (cases rule: putOrRename_cases [of env k t s])
  case first
  then show ?thesis by (simp add: local_wrote assms)
next
  case (renamed cl t')
  have "wrote (apClient s) cl" using local_wrote(1) [OF assms, of env k t] renamed(1) by simp
  moreover have "wrote cl (snd (putLocalTopic env (Suc k) t' cl))"
    using wrote_mirrors [OF calculation] by (rule local_wrote(1))
  ultimately show ?thesis using renamed(3) by (simp add: wrote_trans)
qed

lemma applyTopicRecord_wrote:
  assumes "mirrors (clDb (apClient s)) (clMem (apClient s))"
  shows "wrote (apClient s) (apClient (snd (applyTopicRecord H env k r s)))"
  by (cases "recordToTopic H (ceNow env) r")
     (simp_all add: applyTopicRecord_def Let_def wrote_refl assms local_wrote putOrRename_wrote)

lemma applyCardRecord_wrote:
  assumes "mirrors (clDb (apClient s)) (clMem (apClient s))"
  shows "wrote (apClient s) (apClient (snd (applyCardRecord hydrated env k r s)))"
proof (cases "tbl_get fst (crId r) hydrated")
  case None
  then show ?thesis by (simp add: applyCardRecord_def Let_def wrote_refl assms local_wrote)
next
  case (Some p)
  then show ?thesis
    by (cases "recordToCard k r (snd p)")
       (simp_all add: applyCardRecord_def Let_def wrote_refl assms local_wrote)
qed

lemma applyRecord_wrote:
  assumes "mirrors (clDb (apClient s)) (clMem (apClient s))"
  shows "wrote (apClient s) (apClient (snd (applyRecord H hydrated env k r s)))"
proof -
  let ?t = "case srTopic r of None \<Rightarrow> (None, s) | Some t \<Rightarrow> applyTopicRecord H env k t s"
  have t: "wrote (apClient s) (apClient (snd ?t))"
    using assms by (simp add: wrote_refl applyTopicRecord_wrote split: option.split)
  obtain e s1 where s1: "?t = (e, s1)" by fastforce
  with t have w: "wrote (apClient s) (apClient s1)" by simp
  show ?thesis
  proof (cases "e = None \<and> srCard r \<noteq> None")
    case True
    then obtain c where c: "srCard r = Some c" by auto
    with True s1 have "applyRecord H hydrated env k r s = applyCardRecord hydrated env (k + 2) c s1"
      by (simp add: applyRecord_def)
    with w applyCardRecord_wrote [OF wrote_mirrors [OF w]] show ?thesis by (simp add: wrote_trans)
  next
    case False
    with s1 have "applyRecord H hydrated env k r s = (e, s1)"
      by (auto simp: applyRecord_def split: option.splits)
    with w show ?thesis by simp
  qed
qed

lemma applyRecords_wrote:
  "mirrors (clDb (apClient s)) (clMem (apClient s)) \<Longrightarrow>
   wrote (apClient s) (apClient (snd (applyRecords H hydrated env k rs s)))"
proof (induction rs arbitrary: k s)
  case (Cons r rs)
  note w = applyRecord_wrote [OF Cons.prems, of H hydrated env k r]
  obtain e s1 where s1: "applyRecord H hydrated env k r s = (e, s1)" by fastforce
  show ?case
  proof (cases e)
    case None
    with Cons.IH [OF wrote_mirrors [OF w], of "k + 4"] w s1 show ?thesis by (auto intro: wrote_trans)
  next
    case (Some x)
    with w s1 show ?thesis by simp
  qed
qed (simp add: wrote_refl)

lemma noteFailedOps_wrote: "mirrors (clDb cl) (clMem cl) \<Longrightarrow> wrote cl (noteFailedOps ops cl)"
  by (simp add: noteFailedOps_def addFailedOps_def saveFailedOps_def wrote_def mirrors_def db_shape_def Let_def)

section \<open>Whole deltas and pages\<close>

lemma readDurable_eta: "readDurableRows d db = (fst (readDurableRows d db), snd (readDurableRows d db))"
  by simp

definition applyStart :: "pull_delta \<Rightarrow> client \<Rightarrow> apply_state" where
  "applyStart delta cl = \<lparr>apClient = cl, apTopics = fst (readDurableRows delta (clDb cl)),
     apCards = snd (readDurableRows delta (clDb cl)), apMutated = False, apPoisoned = []\<rparr>"

lemma applyPullDelta_cases:
  assumes "applyPullDelta H api env delta cl = (e, told, cl')"
  obtains (media) x where "hydrateIncomingCardData H api (4 * length (pdRecords delta)) delta = Inl x"
      "e = Some x" "cl' = cl"
  | (records) hydrated s where
      "hydrateIncomingCardData H api (4 * length (pdRecords delta)) delta = Inr hydrated"
      "applyRecords H hydrated env 0 (pdRecords delta) (applyStart delta cl) = (e, s)"
      "cl' = (let cl1 = noteFailedOps (apPoisoned s) (apClient s) in
         if e \<noteq> None \<or> pdWatermark delta = '''' then cl1
         else cl1\<lparr>clDb := advanceCursor (pdWatermark delta) (clDb cl1)\<rparr>)"
proof (cases "hydrateIncomingCardData H api (4 * length (pdRecords delta)) delta")
  case (Inl x)
  with assms that(1) show ?thesis by (auto simp: applyPullDelta_def)
next
  case (Inr hydrated)
  obtain err s where s: "applyRecords H hydrated env 0 (pdRecords delta) (applyStart delta cl) = (err, s)" by fastforce
  obtain ts cs where "readDurableRows delta (clDb cl) = (ts, cs)" by fastforce
  with s Inr assms have "e = err \<and> cl' = (let cl1 = noteFailedOps (apPoisoned s) (apClient s) in
         if err \<noteq> None \<or> pdWatermark delta = '''' then cl1
         else cl1\<lparr>clDb := advanceCursor (pdWatermark delta) (clDb cl1)\<rparr>)"
    by (auto simp: applyPullDelta_def applyStart_def Let_def split: option.splits)
  with that(2) [OF Inr, of s] s show ?thesis by simp
qed

lemma mirrors_meta: "mirrors db m \<Longrightarrow> idb_ok fst (cbMeta db)"
  by (simp add: mirrors_def db_shape_def)

lemma advanceCursor_frame [simp]:
  "cbTopics (advanceCursor w db) = cbTopics db" "cbCards (advanceCursor w db) = cbCards db"
  "cbQueue (advanceCursor w db) = cbQueue db"
  by (simp_all add: advanceCursor_def setMeta_def split: option.split)

lemma advanceCursor_mirrors: "mirrors db m \<Longrightarrow> mirrors (advanceCursor w db) m"
  by (simp add: mirrors_def db_shape_def advanceCursor_ok)

lemma noteFailedOps_frame [simp]:
  "cbTopics (clDb (noteFailedOps ops cl)) = cbTopics (clDb cl)"
  "cbCards (clDb (noteFailedOps ops cl)) = cbCards (clDb cl)"
  by (simp_all add: noteFailedOps_def addFailedOps_def saveFailedOps_def Let_def)

lemma applyPullDelta_safe:
  assumes "mirrors (clDb cl) (clMem cl)" "applyPullDelta H api env delta cl = (e, told, cl')"
  shows "mirrors (clDb cl') (clMem cl')" "cbQueue (clDb cl') = cbQueue (clDb cl)"
    "e \<noteq> None \<Longrightarrow> cbMeta (clDb cl') = cbMeta (clDb cl)"
    "e = None \<Longrightarrow> parseCursor (getCursor (clDb cl'))
       = max (parseCursor (getCursor (clDb cl))) (parseCursor (pdWatermark delta))"
proof -
  obtain cl1 where w: "wrote cl cl1" and c: "cl' = (if e \<noteq> None \<or> pdWatermark delta = '''' then cl1
         else cl1\<lparr>clDb := advanceCursor (pdWatermark delta) (clDb cl1)\<rparr>)"
    using assms(2)
  proof (cases rule: applyPullDelta_cases)
    case (media x)
    then show ?thesis using that [OF wrote_refl [OF assms(1)]] by simp
  next
    case (records hydrated s)
    let ?s0 = "applyStart delta cl"
    have "mirrors (clDb (apClient ?s0)) (clMem (apClient ?s0))" using assms(1) by (simp add: applyStart_def)
    from applyRecords_wrote [OF this, of H hydrated env 0 "pdRecords delta"]
    have w: "wrote cl (apClient s)" using records(2) by (simp add: applyStart_def)
    have "wrote cl (noteFailedOps (apPoisoned s) (apClient s))"
      using w noteFailedOps_wrote [OF wrote_mirrors [OF w]] by (rule wrote_trans)
    with that records(3) show ?thesis by (simp add: Let_def)
  qed
  have m: "mirrors (clDb cl1) (clMem cl1)" "cbQueue (clDb cl1) = cbQueue (clDb cl)"
    "cbMeta (clDb cl1) = cbMeta (clDb cl)"
    using w by (simp_all add: wrote_def)
  then have cur: "getCursor (clDb cl1) = getCursor (clDb cl)" by (simp add: getCursor_def getMeta_def)
  show "mirrors (clDb cl') (clMem cl')" "cbQueue (clDb cl') = cbQueue (clDb cl)"
    "e \<noteq> None \<Longrightarrow> cbMeta (clDb cl') = cbMeta (clDb cl)"
    by (simp_all add: c m advanceCursor_mirrors)
  show "e = None \<Longrightarrow> parseCursor (getCursor (clDb cl'))
       = max (parseCursor (getCursor (clDb cl))) (parseCursor (pdWatermark delta))"
    using parseCursor_range [of "getCursor (clDb cl)"]
    by (simp add: c cur advanceCursor_max [OF mirrors_meta [OF m(1)]])
qed

lemma pullLoop_safe:
  "mirrors (clDb cl) (clMem cl) \<Longrightarrow> pullLoop n H api env pull since cl = Some (e, cl') \<Longrightarrow>
   mirrors (clDb cl') (clMem cl') \<and> cbQueue (clDb cl') = cbQueue (clDb cl)
     \<and> parseCursor (getCursor (clDb cl)) \<le> parseCursor (getCursor (clDb cl'))"
proof (induction n arbitrary: since cl)
  case (Suc n)
  show ?case
  proof (cases "pull since")
    case (Inl x)
    with Suc.prems show ?thesis by auto
  next
    case (Inr delta)
    obtain d told cl1 where d: "applyPullDelta H api env delta cl = (d, told, cl1)" by (metis prod_cases3)
    note safe = applyPullDelta_safe [OF Suc.prems(1) d]
    have step: "parseCursor (getCursor (clDb cl)) \<le> parseCursor (getCursor (clDb cl1))"
      using safe(3,4) by (cases d) (auto simp: getCursor_def getMeta_def)
    consider "cl' = cl1" | "pullLoop n H api env pull
        (if pdWatermark delta = '''' then getCursor (clDb cl1) else pdWatermark delta) cl1 = Some (e, cl')"
      using Suc.prems(2) Inr d by (cases d; cases "pdMore delta") auto
    then show ?thesis
    proof cases
      case 1
      with safe(1,2) step show ?thesis by simp
    next
      case 2
      from Suc.IH [OF safe(1) 2] safe(2) step show ?thesis by simp
    qed
  qed
qed simp

lemma pullChangesClient_safe:
  "mirrors (clDb cl) (clMem cl) \<Longrightarrow> pullChangesClient n H api env pull cl = Some (e, cl') \<Longrightarrow>
   mirrors (clDb cl') (clMem cl') \<and> cbQueue (clDb cl') = cbQueue (clDb cl)
     \<and> parseCursor (getCursor (clDb cl)) \<le> parseCursor (getCursor (clDb cl'))"
  by (auto simp: pullChangesClient_def pullLoop_safe split: if_splits)

section \<open>What a delta leaves\<close>

text \<open>
  The contract of one record, over the value stored before: an older record changes nothing, a
  newer tombstone removes, a newer record that decodes replaces and one that does not decode
  changes nothing. A topic may be stored under a second title.
\<close>

definition cardAfter :: "card option \<Rightarrow> card_record \<Rightarrow> card option \<Rightarrow> card option" where
  "cardAfter decoded r cur =
     (if \<not> shouldApplyRemote (localTime (map_option cdUpdatedAt cur)) (crUpdatedAt r) then cur
      else if isTruthyTime (crDeletedAt r) then None
      else case decoded of None \<Rightarrow> cur | Some c \<Rightarrow> Some c)"

definition decodedCard :: "(id \<times> jsv) list \<Rightarrow> nat \<Rightarrow> card_record \<Rightarrow> card option" where
  "decodedCard hydrated k r =
     (case tbl_get fst (crId r) hydrated of None \<Rightarrow> None
      | Some p \<Rightarrow> (case recordToCard k r (snd p) of Inl _ \<Rightarrow> None | Inr c \<Rightarrow> Some c))"

definition topicAfter :: "topic option \<Rightarrow> topic_record \<Rightarrow> topic option \<Rightarrow> topic option" where
  "topicAfter decoded r cur =
     (if \<not> shouldApplyRemote (localTime (map_option tpUpdatedAt cur)) (trUpdatedAt r) then cur
      else case decoded of None \<Rightarrow> cur | Some t \<Rightarrow> Some t)"

definition decodesTopic :: "host \<Rightarrow> ms \<Rightarrow> topic_record \<Rightarrow> topic option \<Rightarrow> bool" where
  "decodesTopic H now r decoded \<longleftrightarrow> (case recordToTopic H now r of
      Inl _ \<Rightarrow> decoded = None
    | Inr t \<Rightarrow> decoded = Some t
        \<or> decoded = Some (t\<lparr>tpTitle := tpTitle t @ '' ('' @ take 4 (tpId t) @ '')''\<rparr>))"

definition tracked :: "id set \<Rightarrow> id set \<Rightarrow> apply_state \<Rightarrow> bool" where
  "tracked T C s \<longleftrightarrow> mirrors (clDb (apClient s)) (clMem (apClient s))
     \<and> (\<forall>i \<in> T. tbl_get tpId i (apTopics s) = tbl_get tpId i (cbTopics (clDb (apClient s))))
     \<and> (\<forall>i \<in> C. tbl_get cdId i (apCards s) = tbl_get cdId i (cbCards (clDb (apClient s))))"

lemma recordCards_simps [simp]:
  "recordCards [] = []"
  "recordCards (r # rs) = (case srCard r of None \<Rightarrow> [] | Some c \<Rightarrow> [c]) @ recordCards rs"
  by (simp_all add: recordCards_def)

lemma recordTopics_simps [simp]:
  "recordTopics [] = []"
  "recordTopics (r # rs) = (case srTopic r of None \<Rightarrow> [] | Some t \<Rightarrow> [t]) @ recordTopics rs"
  by (simp_all add: recordTopics_def)

lemma mirrors_idb:
  "mirrors db m \<Longrightarrow> idb_ok tpId (cbTopics db)" "mirrors db m \<Longrightarrow> idb_ok cdId (cbCards db)"
  by (simp_all add: mirrors_def db_shape_def)

lemma stepDone_None:
  "stepDone f s r = (None, s') \<longleftrightarrow> (\<exists>cl. r = (None, cl) \<and> s' = (f s)\<lparr>apClient := cl, apMutated := True\<rparr>)"
  by (cases r; cases "fst r") (auto simp: stepDone_def)

lemma recordToCard_id: "recordToCard k r d = Inr c \<Longrightarrow> cdId c = crId r"
  by (auto simp: recordToCard_def rowToCard_def Let_def split: sum.splits option.splits)

lemma recordToTopic_id: "recordToTopic H now r = Inr t \<Longrightarrow> tpId t = trId r"
  by (auto simp: recordToTopic_def rowToTopic_def Let_def split: sum.splits option.splits)

lemma applyCardRecord_spec:
  assumes "tracked T C s" "crId r \<in> C" "applyCardRecord hydrated env k r s = (None, s')"
  shows "tracked T C s' \<and> cbTopics (clDb (apClient s')) = cbTopics (clDb (apClient s))
    \<and> (\<forall>j. tbl_get cdId j (cbCards (clDb (apClient s')))
         = (if j = crId r then cardAfter (decodedCard hydrated k r) r (tbl_get cdId j (cbCards (clDb (apClient s))))
            else tbl_get cdId j (cbCards (clDb (apClient s)))))"
proof -
  let ?cl = "apClient s"
  let ?cur = "tbl_get cdId (crId r) (cbCards (clDb ?cl))"
  have m: "mirrors (clDb ?cl) (clMem ?cl)" and cur: "tbl_get cdId (crId r) (apCards s) = ?cur"
    using assms(1,2) by (simp_all add: tracked_def)
  note ix = mirrors_idb(2) [OF m]
  show ?thesis
  proof (cases "shouldApplyRemote (localTime (map_option cdUpdatedAt ?cur)) (crUpdatedAt r)")
    case False
    with assms cur show ?thesis by (auto simp: applyCardRecord_def Let_def cardAfter_def split: if_splits)
  next
    case newer: True
    show ?thesis
    proof (cases "isTruthyTime (crDeletedAt r)")
      case True
      show ?thesis
      proof (cases ?cur)
        case None
        with assms cur True newer show ?thesis by (auto simp: applyCardRecord_def Let_def cardAfter_def)
      next
        case (Some c)
        with assms(3) cur True newer obtain cl where cl: "deleteLocalCard env k (crId r) ?cl = (None, cl)"
          and s': "s' = s\<lparr>apCards := tbl_del cdId (crId r) (apCards s), apClient := cl, apMutated := True\<rparr>"
          by (auto simp: applyCardRecord_def Let_def stepDone_None)
        from deleteLocalCard_spec [OF m cl] assms(1) newer True show ?thesis
          by (auto simp: tracked_def s' cardAfter_def tbl_get_del wrote_def)
      qed
    next
      case live: False
      show ?thesis
      proof (cases "decodedCard hydrated k r")
        case None
        with assms cur live newer show ?thesis
          by (auto simp: applyCardRecord_def Let_def cardAfter_def decodedCard_def tracked_def split: option.splits sum.splits)
      next
        case (Some c)
        then obtain p where p: "tbl_get fst (crId r) hydrated = Some p" "recordToCard k r (snd p) = Inr c"
          by (auto simp: decodedCard_def split: option.splits sum.splits)
        with assms(3) cur live newer obtain cl where cl: "putLocalCard env k c ?cl = (None, cl)"
          and s': "s' = s\<lparr>apCards := tbl_put cdId c (apCards s), apClient := cl, apMutated := True\<rparr>"
          by (auto simp: applyCardRecord_def Let_def stepDone_None)
        from putLocalCard_spec [OF m cl] assms(1) newer live Some recordToCard_id [OF p(2)] show ?thesis
          by (auto simp: tracked_def s' cardAfter_def tbl_get_put idb_get_put [OF ix] wrote_def)
      qed
    qed
  qed
qed

lemma putOrRename_spec:
  assumes "tracked T C s" "putOrRename env k t s = (None, s')"
  shows "\<exists>t'. (t' = t \<or> t' = t\<lparr>tpTitle := tpTitle t @ '' ('' @ take 4 (tpId t) @ '')''\<rparr>) \<and> tracked T C s'
    \<and> cbCards (clDb (apClient s')) = cbCards (clDb (apClient s))
    \<and> (\<forall>j. tbl_get tpId j (cbTopics (clDb (apClient s')))
         = (if j = tpId t then Some t' else tbl_get tpId j (cbTopics (clDb (apClient s)))))"
proof -
  let ?cl = "apClient s"
  have m: "mirrors (clDb ?cl) (clMem ?cl)" using assms(1) by (simp add: tracked_def)
  show ?thesis
  proof (cases rule: putOrRename_cases [of env k t s])
    case first
    with assms(2) obtain cl where cl: "putLocalTopic env k t ?cl = (None, cl)"
      and s': "s' = s\<lparr>apTopics := tbl_put tpId t (apTopics s), apClient := cl, apMutated := True\<rparr>"
      by (auto simp: stepDone_None)
    from putLocalTopic_spec [OF m cl] assms(1) show ?thesis
      by (auto simp: tracked_def s' tbl_get_put idb_get_put [OF mirrors_idb(1) [OF m]] wrote_def)
  next
    case (renamed cl1 t')
    from putLocalTopic_spec [OF m renamed(1)]
    have one: "wrote ?cl cl1" "cbCards (clDb cl1) = cbCards (clDb ?cl)" "cbTopics (clDb cl1) = cbTopics (clDb ?cl)"
      by simp_all
    from renamed(3) assms(2) have "stepDone (\<lambda>s. s\<lparr>apTopics := tbl_put tpId t' (apTopics s)\<rparr>) s
      (putLocalTopic env (Suc k) t' cl1) = (None, s')" by simp
    then obtain cl where cl: "putLocalTopic env (Suc k) t' cl1 = (None, cl)"
      and s': "s' = s\<lparr>apTopics := tbl_put tpId t' (apTopics s), apClient := cl, apMutated := True\<rparr>"
      unfolding stepDone_None by auto
    have "tpId t' = tpId t" using renamed(2) by simp
    with putLocalTopic_spec [OF wrote_mirrors [OF one(1)] cl] assms(1) renamed(2) one show ?thesis
      by (auto simp: tracked_def s' tbl_get_put idb_get_put [OF mirrors_idb(1) [OF m]] wrote_def)
  qed
qed

lemma applyTopicRecord_spec:
  assumes "tracked T C s" "trId r \<in> T" "\<not> isTruthyTime (trDeletedAt r)"
    and "applyTopicRecord H env k r s = (None, s')"
  shows "\<exists>d. decodesTopic H (ceNow env) r d \<and> tracked T C s'
    \<and> cbCards (clDb (apClient s')) = cbCards (clDb (apClient s))
    \<and> (\<forall>j. tbl_get tpId j (cbTopics (clDb (apClient s')))
         = (if j = trId r then topicAfter d r (tbl_get tpId j (cbTopics (clDb (apClient s))))
            else tbl_get tpId j (cbTopics (clDb (apClient s)))))"
proof -
  let ?cl = "apClient s"
  let ?cur = "tbl_get tpId (trId r) (cbTopics (clDb ?cl))"
  have cur: "tbl_get tpId (trId r) (apTopics s) = ?cur" using assms(1,2) by (simp add: tracked_def)
  have dec: "\<exists>d. decodesTopic H (ceNow env) r d"
    by (cases "recordToTopic H (ceNow env) r") (auto simp: decodesTopic_def)
  show ?thesis
  proof (cases "shouldApplyRemote (localTime (map_option tpUpdatedAt ?cur)) (trUpdatedAt r)")
    case False
    with assms cur dec show ?thesis by (auto simp: applyTopicRecord_def Let_def topicAfter_def split: if_splits)
  next
    case newer: True
    show ?thesis
    proof (cases "recordToTopic H (ceNow env) r")
      case (Inl e)
      with assms cur newer have "s' = s\<lparr>apPoisoned := apPoisoned s @ [poisonOp Topics (trId r) e (ceNow env)]\<rparr>"
        by (auto simp: applyTopicRecord_def Let_def)
      moreover have "decodesTopic H (ceNow env) r None" using Inl by (simp add: decodesTopic_def)
      ultimately show ?thesis using assms(1) by (intro exI [of _ None]) (simp add: tracked_def topicAfter_def)
    next
      case (Inr t)
      with assms(3,4) cur newer have "putOrRename env k t s = (None, s')"
        by (simp add: applyTopicRecord_def Let_def)
      from putOrRename_spec [OF assms(1) this] obtain t' where
        t': "t' = t \<or> t' = t\<lparr>tpTitle := tpTitle t @ '' ('' @ take 4 (tpId t) @ '')''\<rparr>"
        and r: "tracked T C s'" "cbCards (clDb (apClient s')) = cbCards (clDb (apClient s))"
          "\<forall>j. tbl_get tpId j (cbTopics (clDb (apClient s')))
         = (if j = tpId t then Some t' else tbl_get tpId j (cbTopics (clDb (apClient s))))" by blast
      have "decodesTopic H (ceNow env) r (Some t')" using Inr t' by (auto simp: decodesTopic_def)
      with r newer recordToTopic_id [OF Inr] show ?thesis
        by (intro exI [of _ "Some t'"]) (simp add: topicAfter_def)
    qed
  qed
qed

lemma applyRecord_spec:
  assumes "tracked T C s" "applyRecord H hydrated env k r s = (None, s')"
    and "\<And>t. srTopic r = Some t \<Longrightarrow> trId t \<in> T \<and> \<not> isTruthyTime (trDeletedAt t)"
    and "\<And>c. srCard r = Some c \<Longrightarrow> crId c \<in> C"
  shows "\<exists>d. tracked T C s'
    \<and> (\<forall>t. srTopic r = Some t \<longrightarrow> decodesTopic H (ceNow env) t d)
    \<and> (\<forall>j. tbl_get tpId j (cbTopics (clDb (apClient s'))) =
         (case srTopic r of Some t \<Rightarrow> if j = trId t then topicAfter d t (tbl_get tpId j (cbTopics (clDb (apClient s))))
            else tbl_get tpId j (cbTopics (clDb (apClient s)))
          | None \<Rightarrow> tbl_get tpId j (cbTopics (clDb (apClient s)))))
    \<and> (\<forall>j. tbl_get cdId j (cbCards (clDb (apClient s'))) =
         (case srCard r of Some c \<Rightarrow> if j = crId c then cardAfter (decodedCard hydrated (k + 2) c) c
              (tbl_get cdId j (cbCards (clDb (apClient s))))
            else tbl_get cdId j (cbCards (clDb (apClient s)))
          | None \<Rightarrow> tbl_get cdId j (cbCards (clDb (apClient s)))))"
proof -
  let ?first = "case srTopic r of None \<Rightarrow> (None, s) | Some t \<Rightarrow> applyTopicRecord H env k t s"
  obtain s1 where s1: "?first = (None, s1)"
    and s2: "(case srCard r of None \<Rightarrow> (None, s1) | Some c \<Rightarrow> applyCardRecord hydrated env (k + 2) c s1) = (None, s')"
    using assms(2) by (auto simp: applyRecord_def split: prod.splits option.splits)
  obtain d where d: "tracked T C s1" "\<forall>t. srTopic r = Some t \<longrightarrow> decodesTopic H (ceNow env) t d"
    "cbCards (clDb (apClient s1)) = cbCards (clDb (apClient s))"
    "\<forall>j. tbl_get tpId j (cbTopics (clDb (apClient s1))) =
         (case srTopic r of Some t \<Rightarrow> if j = trId t then topicAfter d t (tbl_get tpId j (cbTopics (clDb (apClient s))))
            else tbl_get tpId j (cbTopics (clDb (apClient s)))
          | None \<Rightarrow> tbl_get tpId j (cbTopics (clDb (apClient s))))"
  proof (cases "srTopic r")
    case None
    with s1 assms(1) that show ?thesis by simp
  next
    case (Some t)
    with s1 have a: "applyTopicRecord H env k t s = (None, s1)" by simp
    from Some assms(3) have "trId t \<in> T" "\<not> isTruthyTime (trDeletedAt t)" by auto
    from applyTopicRecord_spec [OF assms(1) this a] Some that show ?thesis by auto
  qed
  show ?thesis
  proof (cases "srCard r")
    case None
    with s2 have "s' = s1" by simp
    with d None show ?thesis by auto
  next
    case (Some c)
    with s2 have a: "applyCardRecord hydrated env (k + 2) c s1 = (None, s')" by simp
    from applyCardRecord_spec [OF d(1) assms(4) [OF Some] a] d Some show ?thesis by auto
  qed
qed

lemma applyRecords_spec:
  "tracked T C s \<Longrightarrow> applyRecords H hydrated env k rs s = (None, s') \<Longrightarrow>
   \<forall>t \<in> set (recordTopics rs). trId t \<in> T \<and> \<not> isTruthyTime (trDeletedAt t) \<Longrightarrow>
   \<forall>c \<in> set (recordCards rs). crId c \<in> C \<Longrightarrow>
   distinct (map trId (recordTopics rs)) \<Longrightarrow> distinct (map crId (recordCards rs)) \<Longrightarrow>
   tracked T C s'
   \<and> (\<forall>t \<in> set (recordTopics rs). \<exists>d. decodesTopic H (ceNow env) t d
        \<and> tbl_get tpId (trId t) (cbTopics (clDb (apClient s')))
          = topicAfter d t (tbl_get tpId (trId t) (cbTopics (clDb (apClient s)))))
   \<and> (\<forall>i. i \<notin> trId ` set (recordTopics rs) \<longrightarrow>
        tbl_get tpId i (cbTopics (clDb (apClient s'))) = tbl_get tpId i (cbTopics (clDb (apClient s))))
   \<and> (\<forall>c \<in> set (recordCards rs). \<exists>n. tbl_get cdId (crId c) (cbCards (clDb (apClient s')))
          = cardAfter (decodedCard hydrated n c) c (tbl_get cdId (crId c) (cbCards (clDb (apClient s)))))
   \<and> (\<forall>i. i \<notin> crId ` set (recordCards rs) \<longrightarrow>
        tbl_get cdId i (cbCards (clDb (apClient s'))) = tbl_get cdId i (cbCards (clDb (apClient s))))"
proof (induction rs arbitrary: k s)
  case (Cons r rs)
  obtain s1 where one: "applyRecord H hydrated env k r s = (None, s1)"
    and rest: "applyRecords H hydrated env (k + 4) rs s1 = (None, s')"
    using Cons.prems(2) by (auto split: prod.splits option.splits)
  have "\<And>t. srTopic r = Some t \<Longrightarrow> trId t \<in> T \<and> \<not> isTruthyTime (trDeletedAt t)"
    "\<And>c. srCard r = Some c \<Longrightarrow> crId c \<in> C" using Cons.prems(3,4) by auto
  from applyRecord_spec [OF Cons.prems(1) one this] obtain d where
    s1: "tracked T C s1" "\<forall>t. srTopic r = Some t \<longrightarrow> decodesTopic H (ceNow env) t d"
    and gt: "\<And>j. tbl_get tpId j (cbTopics (clDb (apClient s1))) =
         (case srTopic r of Some t \<Rightarrow> if j = trId t then topicAfter d t (tbl_get tpId j (cbTopics (clDb (apClient s))))
            else tbl_get tpId j (cbTopics (clDb (apClient s)))
          | None \<Rightarrow> tbl_get tpId j (cbTopics (clDb (apClient s))))"
    and gc: "\<And>j. tbl_get cdId j (cbCards (clDb (apClient s1))) =
         (case srCard r of Some c \<Rightarrow> if j = crId c then cardAfter (decodedCard hydrated (k + 2) c) c
              (tbl_get cdId j (cbCards (clDb (apClient s))))
            else tbl_get cdId j (cbCards (clDb (apClient s)))
          | None \<Rightarrow> tbl_get cdId j (cbCards (clDb (apClient s))))"
    by blast
  have "\<forall>t \<in> set (recordTopics rs). trId t \<in> T \<and> \<not> isTruthyTime (trDeletedAt t)"
    "\<forall>c \<in> set (recordCards rs). crId c \<in> C" "distinct (map trId (recordTopics rs))"
    "distinct (map crId (recordCards rs))" using Cons.prems(3-6) by auto
  note ih0 = Cons.IH [OF s1(1) rest this]
  have ih: "tracked T C s'"
    "\<forall>t \<in> set (recordTopics rs). \<exists>d. decodesTopic H (ceNow env) t d
        \<and> tbl_get tpId (trId t) (cbTopics (clDb (apClient s')))
          = topicAfter d t (tbl_get tpId (trId t) (cbTopics (clDb (apClient s1))))"
    "\<forall>i. i \<notin> trId ` set (recordTopics rs) \<longrightarrow>
        tbl_get tpId i (cbTopics (clDb (apClient s'))) = tbl_get tpId i (cbTopics (clDb (apClient s1)))"
    "\<forall>c \<in> set (recordCards rs). \<exists>n. tbl_get cdId (crId c) (cbCards (clDb (apClient s')))
          = cardAfter (decodedCard hydrated n c) c (tbl_get cdId (crId c) (cbCards (clDb (apClient s1))))"
    "\<forall>i. i \<notin> crId ` set (recordCards rs) \<longrightarrow>
        tbl_get cdId i (cbCards (clDb (apClient s'))) = tbl_get cdId i (cbCards (clDb (apClient s1)))"
    using conjunct1 [OF ih0] conjunct1 [OF conjunct2 [OF ih0]] conjunct1 [OF conjunct2 [OF conjunct2 [OF ih0]]]
      conjunct1 [OF conjunct2 [OF conjunct2 [OF conjunct2 [OF ih0]]]]
      conjunct2 [OF conjunct2 [OF conjunct2 [OF conjunct2 [OF ih0]]]] by -
  have t: "\<exists>d. decodesTopic H (ceNow env) t d \<and> tbl_get tpId (trId t) (cbTopics (clDb (apClient s')))
          = topicAfter d t (tbl_get tpId (trId t) (cbTopics (clDb (apClient s))))"
    if "t \<in> set (recordTopics (r # rs))" for t
  proof (cases "srTopic r = Some t")
    case True
    with Cons.prems(5) have "trId t \<notin> trId ` set (recordTopics rs)" by auto
    with ih(3) gt [of "trId t"] True s1(2) show ?thesis by auto
  next
    case False
    with that have t: "t \<in> set (recordTopics rs)" by (auto split: option.splits)
    have "trId u \<notin> trId ` set (recordTopics rs)" if "srTopic r = Some u" for u using Cons.prems(5) that by simp
    with t have "srTopic r = Some u \<Longrightarrow> trId t \<noteq> trId u" for u by (metis image_eqI)
    then have "tbl_get tpId (trId t) (cbTopics (clDb (apClient s1))) = tbl_get tpId (trId t) (cbTopics (clDb (apClient s)))"
      by (auto simp: gt split: option.split)
    with bspec [OF ih(2) t] show ?thesis by metis
  qed
  have c: "\<exists>n. tbl_get cdId (crId c) (cbCards (clDb (apClient s')))
          = cardAfter (decodedCard hydrated n c) c (tbl_get cdId (crId c) (cbCards (clDb (apClient s))))"
    if "c \<in> set (recordCards (r # rs))" for c
  proof (cases "srCard r = Some c")
    case True
    with Cons.prems(6) have "crId c \<notin> crId ` set (recordCards rs)" by auto
    with ih(5) gc [of "crId c"] True show ?thesis by auto
  next
    case False
    with that have c: "c \<in> set (recordCards rs)" by (auto split: option.splits)
    have "crId u \<notin> crId ` set (recordCards rs)" if "srCard r = Some u" for u using Cons.prems(6) that by simp
    with c have "srCard r = Some u \<Longrightarrow> crId c \<noteq> crId u" for u by (metis image_eqI)
    then have "tbl_get cdId (crId c) (cbCards (clDb (apClient s1))) = tbl_get cdId (crId c) (cbCards (clDb (apClient s)))"
      by (auto simp: gc split: option.split)
    with bspec [OF ih(4) c] show ?thesis by metis
  qed
  have "\<forall>i. i \<notin> trId ` set (recordTopics (r # rs)) \<longrightarrow>
      tbl_get tpId i (cbTopics (clDb (apClient s'))) = tbl_get tpId i (cbTopics (clDb (apClient s)))"
    using ih(3) gt by (cases "srTopic r") simp_all
  moreover have "\<forall>i. i \<notin> crId ` set (recordCards (r # rs)) \<longrightarrow>
      tbl_get cdId i (cbCards (clDb (apClient s'))) = tbl_get cdId i (cbCards (clDb (apClient s)))"
    using ih(5) gc by (cases "srCard r") simp_all
  ultimately show ?case using ih(1) t c by blast
qed auto

lemma durable_get:
  "tbl_get tpId i (fold (\<lambda>r ts. case readDurableTopic (trId r) db of None \<Rightarrow> ts | Some t \<Rightarrow> tbl_put tpId t ts) rs acc)
    = (if i \<in> trId ` set rs \<and> readDurableTopic i db \<noteq> None then readDurableTopic i db else tbl_get tpId i acc)"
  by (induction rs arbitrary: acc)
     (auto simp: tbl_get_put readDurableTopic_def dest: tbl_get_key split: option.splits)

lemma durable_card_get:
  "tbl_get cdId i (fold (\<lambda>r cs. case readDurableCard (crId r) db of None \<Rightarrow> cs | Some c \<Rightarrow> tbl_put cdId c cs) rs acc)
    = (if i \<in> crId ` set rs \<and> readDurableCard i db \<noteq> None then readDurableCard i db else tbl_get cdId i acc)"
  by (induction rs arbitrary: acc)
     (auto simp: tbl_get_put readDurableCard_def dest: tbl_get_key split: option.splits)

lemma tracked_start:
  "mirrors (clDb cl) (clMem cl) \<Longrightarrow>
   tracked (trId ` set (recordTopics (pdRecords delta))) (crId ` set (recordCards (pdRecords delta))) (applyStart delta cl)"
  by (auto simp: tracked_def applyStart_def readDurableRows_def durable_get durable_card_get)
     (auto simp: readDurableTopic_def readDurableCard_def)

section \<open>Properties\<close>

lemma applyPullDelta_records:
  assumes "mirrors (clDb cl) (clMem cl)" "applyPullDelta H api env delta cl = (None, told, cl')"
    and "\<forall>t \<in> set (recordTopics (pdRecords delta)). \<not> isTruthyTime (trDeletedAt t)"
    and "distinct (map trId (recordTopics (pdRecords delta)))" "distinct (map crId (recordCards (pdRecords delta)))"
  shows "\<exists>hydrated. hydrateIncomingCardData H api (4 * length (pdRecords delta)) delta = Inr hydrated
   \<and> (\<forall>t \<in> set (recordTopics (pdRecords delta)). \<exists>d. decodesTopic H (ceNow env) t d
        \<and> tbl_get tpId (trId t) (cbTopics (clDb cl')) = topicAfter d t (tbl_get tpId (trId t) (cbTopics (clDb cl))))
   \<and> (\<forall>i. i \<notin> trId ` set (recordTopics (pdRecords delta)) \<longrightarrow>
        tbl_get tpId i (cbTopics (clDb cl')) = tbl_get tpId i (cbTopics (clDb cl)))
   \<and> (\<forall>c \<in> set (recordCards (pdRecords delta)). \<exists>n. tbl_get cdId (crId c) (cbCards (clDb cl'))
          = cardAfter (decodedCard hydrated n c) c (tbl_get cdId (crId c) (cbCards (clDb cl))))
   \<and> (\<forall>i. i \<notin> crId ` set (recordCards (pdRecords delta)) \<longrightarrow>
        tbl_get cdId i (cbCards (clDb cl')) = tbl_get cdId i (cbCards (clDb cl)))"
  using assms(2)
proof (cases rule: applyPullDelta_cases)
  case (media x)
  then show ?thesis by simp
next
  case (records hydrated s)
  have cl': "cbTopics (clDb cl') = cbTopics (clDb (apClient s))" "cbCards (clDb cl') = cbCards (clDb (apClient s))"
    unfolding records(3) by (simp_all add: Let_def)
  have "\<forall>t \<in> set (recordTopics (pdRecords delta)). trId t \<in> trId ` set (recordTopics (pdRecords delta))
      \<and> \<not> isTruthyTime (trDeletedAt t)"
    "\<forall>c \<in> set (recordCards (pdRecords delta)). crId c \<in> crId ` set (recordCards (pdRecords delta))"
    using assms(3) by auto
  from applyRecords_spec [OF tracked_start [OF assms(1)] records(2) this assms(4,5)] records(1)
  show ?thesis by (simp add: cl' applyStart_def)
qed

lemma decodeBlock_fresh: "isl (decodeBlock n b) = isl (decodeBlock m b)"
  by (auto simp: decodeBlock_def base64ToArrayBuffer_def split: sum.split option.split bool.split)

lemma decodeBlocks_fresh: "isl (decodeBlocks n bs) = isl (decodeBlocks m bs)"
proof (induction bs arbitrary: n m)
  case (Cons b bs)
  from Cons.IH [of "Suc n" "Suc m"] decodeBlock_fresh [of n b m] show ?case by (auto split: sum.splits)
qed simp

lemma decodeSide_fresh: "isl (decodeSide n s) = isl (decodeSide m s)"
proof (cases "blocksOf s")
  case None
  then show ?thesis by (auto simp: decodeSide_def base64ToArrayBuffer_def split: sum.split option.split)
next
  case (Some bs)
  with decodeBlocks_fresh [of n bs m] show ?thesis by (auto simp: decodeSide_def split: sum.split)
qed

lemma decodeCardData_fresh: "isl (decodeCardData n d) = isl (decodeCardData m d)"
  using decodeSide_fresh [of n "getProp ''front'' d" m]
    decodeSide_fresh [of "n + sideSize (getProp ''front'' d)" "getProp ''back'' d" "m + sideSize (getProp ''front'' d)"]
  by (auto simp: decodeCardData_def split: sum.split)

lemma recordToCard_fresh: "isl (recordToCard n r d) = isl (recordToCard m r d)"
proof (cases "isoTime (crUpdatedAt r)")
  case (Inr u)
  then show ?thesis using decodeCardData_fresh [of n d m]
    by (cases "isoTimeOpt (crDeletedAt r)") (auto simp: recordToCard_def rowToCard_def split: sum.split)
qed (simp add: recordToCard_def)

lemma decodedCard_fresh: "decodedCard hydrated n r = None \<longleftrightarrow> decodedCard hydrated m r = None"
proof (cases "tbl_get fst (crId r) hydrated")
  case (Some p)
  with recordToCard_fresh [of n r "snd p" m] show ?thesis by (auto simp: decodedCard_def split: sum.split)
qed (simp add: decodedCard_def)

lemma decodedCard_time: "decodedCard hydrated n r = Some c \<Longrightarrow> cdUpdatedAt c = Some (jsTrunc (crUpdatedAt r))"
  by (auto simp: decodedCard_def recordToCard_def rowToCard_def isoTime_def split: option.splits sum.splits if_splits)

lemma decodesTopic_time: "decodesTopic H now r (Some t) \<Longrightarrow> tpUpdatedAt t = Some (jsTrunc (trUpdatedAt r))"
  by (auto simp: decodesTopic_def recordToTopic_def rowToTopic_def isoTime_def split: option.splits sum.splits if_splits)

lemma decodesTopic_none:
  assumes "decodesTopic H now r None" "decodesTopic H later r d"
  shows "d = None"
proof -
  have "isl (recordToTopic H now r)" using assms(1) by (auto simp: decodesTopic_def split: sum.splits)
  moreover have "isl (recordToTopic H now r) = isl (recordToTopic H later r)"
    by (auto simp: recordToTopic_def split: option.split sum.split)
  ultimately show ?thesis using assms(2) by (auto simp: decodesTopic_def split: sum.splits)
qed

lemma same_time_is_not_newer: "isWhole u \<Longrightarrow> \<not> shouldApplyRemote (localTime (Some (Some (jsTrunc u)))) u"
  by (simp add: shouldApplyRemote_def localTime_def isWhole_trunc)

lemma cardAfter_again:
  assumes "isWhole (crUpdatedAt r)" "d = None \<longleftrightarrow> d' = None"
    and "\<And>c. d = Some c \<Longrightarrow> cdUpdatedAt c = Some (jsTrunc (crUpdatedAt r))"
  shows "cardAfter d' r (cardAfter d r cur) = cardAfter d r cur"
  using assms same_time_is_not_newer [OF assms(1)]
  by (cases d) (auto simp: cardAfter_def)

lemma topicAfter_again:
  assumes "isWhole (trUpdatedAt r)" "d = None \<Longrightarrow> d' = None"
    and "\<And>t. d = Some t \<Longrightarrow> tpUpdatedAt t = Some (jsTrunc (trUpdatedAt r))"
  shows "topicAfter d' r (topicAfter d r cur) = topicAfter d r cur"
  using assms same_time_is_not_newer [OF assms(1)]
  by (cases d) (auto simp: topicAfter_def)

definition array_host :: host where
  "array_host = sample_host\<lparr>jsonParse := (\<lambda>_. Some (JArr []))\<rparr>"

definition greek_record :: topic_record where
  "greek_record = \<lparr>trId = ''t2'', trTitle = ''Greek'', trPivot = 1, trWeekJson = ''[]'', trNextUpdateDate = 2,
     trIsArchived = None, trUpdatedAt = 70, trDeletedAt = None\<rparr>"

definition gone_record :: card_record where
  "gone_record = \<lparr>crId = ''c1'', crTopicId = ''t1'', crLevel = 0, crDataJson = ''[]'', crReviewDate = None,
     crUpdatedAt = 2000, crDeletedAt = Some 2000\<rparr>"

definition odd_record :: card_record where
  "odd_record = \<lparr>crId = ''c9'', crTopicId = ''t2'', crLevel = 0, crDataJson = ''[]'', crReviewDate = None,
     crUpdatedAt = 71, crDeletedAt = None\<rparr>"

definition sample_delta :: pull_delta where
  "sample_delta = \<lparr>pdRecords = [\<lparr>srTopic = Some greek_record, srCard = None\<rparr>,
      \<lparr>srTopic = None, srCard = Some gone_record\<rparr>, \<lparr>srTopic = None, srCard = Some odd_record\<rparr>],
     pdWatermark = ''7'', pdMore = False\<rparr>"

lemma sample_delta_shape:
  "recordTopics (pdRecords sample_delta) = [greek_record]"
  "recordCards (pdRecords sample_delta) = [gone_record, odd_record]"
  by (simp_all add: sample_delta_def)

lemma sample_delta_ids:
  "\<forall>t \<in> set (recordTopics (pdRecords sample_delta)). \<not> isTruthyTime (trDeletedAt t)"
  "distinct (map trId (recordTopics (pdRecords sample_delta)))"
  "distinct (map crId (recordCards (pdRecords sample_delta)))"
  by (simp_all add: sample_delta_shape greek_record_def gone_record_def odd_record_def isTruthyTime_def)

lemma sample_delta_runs:
  "fst (applyPullDelta array_host sample_media_api plain_env sample_delta study_client) = None"
  "fst (applyPullDelta array_host sample_media_api plain_env sample_delta
     (snd (snd (applyPullDelta array_host sample_media_api plain_env sample_delta study_client)))) = None"
  by code_simp+

lemma sample_delta_applied:
  obtains told cl' where "applyPullDelta array_host sample_media_api plain_env sample_delta study_client = (None, told, cl')"
  using sample_delta_runs(1) by (metis prod.collapse)

text \<open>
  C24. A delta leaves the last write of each of its records. When a delta without topic
  tombstones and with one record per topic and card is applied, every record meets the
  contract \<open>topicAfter\<close> or \<open>cardAfter\<close> over the value stored before (a record that is not
  newer changes nothing, a newer tombstone removes the card, a newer record that decodes
  replaces it, one that does not decode changes nothing; a topic may come in under a second
  title) and every other topic and card is as it was.
\<close>

theorem pulled_records_last_write_wins:
  assumes "mirrors (clDb cl) (clMem cl)" "applyPullDelta H api env delta cl = (None, told, cl')"
    and "\<forall>t \<in> set (recordTopics (pdRecords delta)). \<not> isTruthyTime (trDeletedAt t)"
    and "distinct (map trId (recordTopics (pdRecords delta)))" "distinct (map crId (recordCards (pdRecords delta)))"
  shows "\<exists>hydrated. hydrateIncomingCardData H api (4 * length (pdRecords delta)) delta = Inr hydrated
   \<and> (\<forall>t \<in> set (recordTopics (pdRecords delta)). \<exists>d. decodesTopic H (ceNow env) t d
        \<and> tbl_get tpId (trId t) (cbTopics (clDb cl')) = topicAfter d t (tbl_get tpId (trId t) (cbTopics (clDb cl))))
   \<and> (\<forall>i. i \<notin> trId ` set (recordTopics (pdRecords delta)) \<longrightarrow>
        tbl_get tpId i (cbTopics (clDb cl')) = tbl_get tpId i (cbTopics (clDb cl)))
   \<and> (\<forall>c \<in> set (recordCards (pdRecords delta)). \<exists>n. tbl_get cdId (crId c) (cbCards (clDb cl'))
          = cardAfter (decodedCard hydrated n c) c (tbl_get cdId (crId c) (cbCards (clDb cl))))
   \<and> (\<forall>i. i \<notin> crId ` set (recordCards (pdRecords delta)) \<longrightarrow>
        tbl_get cdId i (cbCards (clDb cl')) = tbl_get cdId i (cbCards (clDb cl)))"
  using assms by (rule applyPullDelta_records)

theorem pulled_records_last_write_wins_witness:
  "\<exists>told cl'. applyPullDelta array_host sample_media_api plain_env sample_delta study_client = (None, told, cl')
     \<and> tbl_get cdId ''c1'' (cbCards (clDb cl')) = None
     \<and> tbl_get tpId ''t1'' (cbTopics (clDb cl')) = tbl_get tpId ''t1'' (cbTopics (clDb study_client))"
proof -
  obtain told cl' where r: "applyPullDelta array_host sample_media_api plain_env sample_delta study_client = (None, told, cl')"
    by (rule sample_delta_applied)
  have "cdUpdatedAt amo = Some 5" "cdId amo = ''c1''" by code_simp+
  moreover have "tbl_get cdId ''c1'' (cbCards (clDb study_client)) = Some amo" by code_simp
  ultimately have "cardAfter d gone_record (tbl_get cdId ''c1'' (cbCards (clDb study_client))) = None" for d
    by (simp add: cardAfter_def gone_record_def isTruthyTime_def shouldApplyRemote_def localTime_def)
  moreover have "crId gone_record = ''c1''" "crId odd_record = ''c9''" "trId greek_record = ''t2''"
    by (simp_all add: gone_record_def odd_record_def greek_record_def)
  ultimately show ?thesis
    using pulled_records_last_write_wins [OF study_client_mirrors r sample_delta_ids] r
    by (auto simp: sample_delta_shape)
qed



text \<open>
  C26. Pulling never loses local work nor skips a record. Whatever the server answers and
  whichever transactions fail, memory mirrors the stores and the outbox is untouched; a delta
  that fails leaves the cursor, so its records are pulled again, and one that succeeds moves it
  to the watermark if that is ahead.
\<close>

theorem cursor_moves_after_records:
  assumes "mirrors (clDb cl) (clMem cl)" "applyPullDelta H api env delta cl = (e, told, cl')"
  shows "mirrors (clDb cl') (clMem cl') \<and> cbQueue (clDb cl') = cbQueue (clDb cl)
    \<and> (if e = None then parseCursor (getCursor (clDb cl'))
         = max (parseCursor (getCursor (clDb cl))) (parseCursor (pdWatermark delta))
       else getCursor (clDb cl') = getCursor (clDb cl))"
  using applyPullDelta_safe [OF assms] by (cases e) (simp_all add: getCursor_def getMeta_def)

lemma full_disk_delta:
  "fst (applyPullDelta array_host sample_media_api full_env sample_delta study_client) = Some QuotaExceededMessage"
  by code_simp

theorem cursor_moves_after_records_witness:
  "\<exists>told cl'. applyPullDelta array_host sample_media_api full_env sample_delta study_client
       = (Some QuotaExceededMessage, told, cl')
     \<and> cbQueue (clDb cl') = cbQueue (clDb study_client) \<and> getCursor (clDb cl') = getCursor (clDb study_client)"
proof -
  obtain told cl' where r: "applyPullDelta array_host sample_media_api full_env sample_delta study_client
      = (Some QuotaExceededMessage, told, cl')" using full_disk_delta by (metis prod.collapse)
  from cursor_moves_after_records [OF study_client_mirrors r] r show ?thesis by simp
qed

section \<open>Quarantine\<close>

definition no_faults :: "call_env \<Rightarrow> bool" where
  "no_faults env \<longleftrightarrow> ceFault env = (\<lambda>_. None) \<and> ceStatsFault env = None"

lemma keepStats_ok:
  assumes "no_faults env" "\<And>fault. \<exists>delta. f fault = adjustCardMediaStats fault delta"
  shows "fst (keepStats env f cl) = None"
proof -
  obtain delta where "f None = adjustCardMediaStats None delta" using assms(2) by blast
  then show ?thesis
    using adjust_no_fault [of delta "clDb cl"] assms(1) by (auto simp: keepStats_def no_faults_def)
qed

lemma localCards_ok:
  assumes "no_faults env"
  shows "fst (putLocalCard env k c cl) = None" "fst (deleteLocalCard env k i cl) = None"
proof -
  obtain p mem where p: "putCardInMemory c (clMem cl) = (p, mem)" by fastforce
  have "withTransaction (ceFault env k) (\<lambda>db. Inr ((), putCardRow c db)) (clDb cl) = Inr ((), putCardRow c (clDb cl))"
    using assms by (simp add: withTransaction_def no_faults_def)
  with p keepStats_ok [OF assms upsert_delta] show "fst (putLocalCard env k c cl) = None"
    by (simp add: putLocalCard_def)
  obtain q mem' where q: "deleteCardFromMemory i (clMem cl) = (q, mem')" by fastforce
  have "withTransaction (ceFault env k) (\<lambda>db. Inr ((), deleteCardRows [i] db)) (clDb cl)
      = Inr ((), deleteCardRows [i] (clDb cl))"
    using assms by (simp add: withTransaction_def no_faults_def)
  with q keepStats_ok [OF assms delete_delta] show "fst (deleteLocalCard env k i cl) = None"
    by (cases q) (simp_all add: deleteLocalCard_def)
qed

lemma applyCardRecord_ok: "no_faults env \<Longrightarrow> fst (applyCardRecord hydrated env k r s) = None"
  by (simp add: applyCardRecord_def Let_def localCards_ok split: option.split sum.split)

text \<open>The entries a record adds: at most one, and one for a newer live card that does not
  decode.\<close>

lemma stepDone_poisoned:
  "apPoisoned (f s) = apPoisoned s \<Longrightarrow> apPoisoned (snd (stepDone f s r)) = apPoisoned s"
  by (cases r; cases "fst r") (auto simp: stepDone_def)

lemma applyCardRecord_poison:
  assumes "tracked T C s" "crId r \<in> C"
  shows "\<exists>new. apPoisoned (snd (applyCardRecord hydrated env k r s)) = apPoisoned s @ new \<and> length new \<le> 1
    \<and> (shouldApplyRemote (localTime (map_option cdUpdatedAt (tbl_get cdId (crId r) (cbCards (clDb (apClient s))))))
          (crUpdatedAt r) \<and> \<not> isTruthyTime (crDeletedAt r) \<and> decodedCard hydrated k r = None
        \<longrightarrow> (\<exists>e. new = [poisonOp Cards (crId r) e (ceNow env)]))"
proof -
  have cur: "tbl_get cdId (crId r) (cbCards (clDb (apClient s))) = tbl_get cdId (crId r) (apCards s)"
    using assms by (simp add: tracked_def)
  show ?thesis
    unfolding cur
    by (cases "tbl_get fst (crId r) hydrated")
       (auto simp: applyCardRecord_def Let_def stepDone_poisoned decodedCard_def split: sum.split)
qed

lemma recordTopics_None: "recordTopics (r # rs) = [] \<Longrightarrow> srTopic r = None \<and> recordTopics rs = []"
  by (auto split: option.splits)

lemma applyRecord_card:
  "srTopic r = None \<Longrightarrow> applyRecord H hydrated env k r s
     = (case srCard r of None \<Rightarrow> (None, s) | Some c \<Rightarrow> applyCardRecord hydrated env (k + 2) c s)"
  by (simp add: applyRecord_def split: option.split)

lemma applyRecords_quarantine:
  "no_faults env \<Longrightarrow> tracked {} C s \<Longrightarrow> recordTopics rs = [] \<Longrightarrow> \<forall>c \<in> set (recordCards rs). crId c \<in> C \<Longrightarrow>
   distinct (map crId (recordCards rs)) \<Longrightarrow>
   \<exists>s' new. applyRecords H hydrated env k rs s = (None, s') \<and> apPoisoned s' = apPoisoned s @ new
    \<and> length new \<le> length rs
    \<and> (\<forall>c \<in> set (recordCards rs). shouldApplyRemote (localTime (map_option cdUpdatedAt
          (tbl_get cdId (crId c) (cbCards (clDb (apClient s)))))) (crUpdatedAt c)
        \<and> \<not> isTruthyTime (crDeletedAt c) \<and> decodedCard hydrated 0 c = None
        \<longrightarrow> (\<exists>e. poisonOp Cards (crId c) e (ceNow env) \<in> set new))"
proof (induction rs arbitrary: k s)
  case (Cons r rs)
  note nt = recordTopics_None [OF Cons.prems(3)]
  have sub: "\<forall>c \<in> set (recordCards rs). crId c \<in> C" "distinct (map crId (recordCards rs))"
    using Cons.prems(4,5) by auto
  show ?case
  proof (cases "srCard r")
    case None
    from Cons.IH [OF Cons.prems(1,2) conjunct2 [OF nt] sub, of "k + 4"] None nt show ?thesis
      by (auto simp: applyRecord_card)
  next
    case (Some c)
    then have c: "crId c \<in> C" "crId c \<notin> crId ` set (recordCards rs)" using Cons.prems(4,5) by auto
    obtain s1 where s1: "applyCardRecord hydrated env (k + 2) c s = (None, s1)"
      using applyCardRecord_ok [OF Cons.prems(1)] by (metis prod.collapse)
    from applyCardRecord_spec [OF Cons.prems(2) c(1) s1] have t1: "tracked {} C s1"
      and same: "\<And>d. d \<in> set (recordCards rs) \<Longrightarrow> tbl_get cdId (crId d) (cbCards (clDb (apClient s1)))
          = tbl_get cdId (crId d) (cbCards (clDb (apClient s)))"
      using c(2) by (auto simp: image_iff)
    obtain n1 where n1: "apPoisoned s1 = apPoisoned s @ n1" "length n1 \<le> 1"
      "shouldApplyRemote (localTime (map_option cdUpdatedAt (tbl_get cdId (crId c) (cbCards (clDb (apClient s))))))
          (crUpdatedAt c) \<and> \<not> isTruthyTime (crDeletedAt c) \<and> decodedCard hydrated (k + 2) c = None
        \<longrightarrow> (\<exists>e. n1 = [poisonOp Cards (crId c) e (ceNow env)])"
      using applyCardRecord_poison [OF Cons.prems(2) c(1), of hydrated env "k + 2"] s1 by auto
    from Cons.IH [OF Cons.prems(1) t1 conjunct2 [OF nt] sub, of "k + 4"] obtain s' n2 where
      s': "applyRecords H hydrated env (k + 4) rs s1 = (None, s')" "apPoisoned s' = apPoisoned s1 @ n2"
        "length n2 \<le> length rs"
      and n2: "\<forall>c \<in> set (recordCards rs). shouldApplyRemote (localTime (map_option cdUpdatedAt
          (tbl_get cdId (crId c) (cbCards (clDb (apClient s1)))))) (crUpdatedAt c)
        \<and> \<not> isTruthyTime (crDeletedAt c) \<and> decodedCard hydrated 0 c = None
        \<longrightarrow> (\<exists>e. poisonOp Cards (crId c) e (ceNow env) \<in> set n2)" by blast
    have "applyRecords H hydrated env k (r # rs) s = (None, s')" using s1 s'(1) nt Some by (simp add: applyRecord_card)
    moreover have "apPoisoned s' = apPoisoned s @ (n1 @ n2)" using s'(2) n1(1) by simp
    moreover have "length (n1 @ n2) \<le> length (r # rs)" using s'(3) n1(2) by simp
    moreover have "\<forall>d \<in> set (recordCards (r # rs)). shouldApplyRemote (localTime (map_option cdUpdatedAt
          (tbl_get cdId (crId d) (cbCards (clDb (apClient s)))))) (crUpdatedAt d)
        \<and> \<not> isTruthyTime (crDeletedAt d) \<and> decodedCard hydrated 0 d = None
        \<longrightarrow> (\<exists>e. poisonOp Cards (crId d) e (ceNow env) \<in> set (n1 @ n2))"
    proof (intro ballI impI)
      fix d assume d: "d \<in> set (recordCards (r # rs))"
        and p: "shouldApplyRemote (localTime (map_option cdUpdatedAt
          (tbl_get cdId (crId d) (cbCards (clDb (apClient s)))))) (crUpdatedAt d)
        \<and> \<not> isTruthyTime (crDeletedAt d) \<and> decodedCard hydrated 0 d = None"
      show "\<exists>e. poisonOp Cards (crId d) e (ceNow env) \<in> set (n1 @ n2)"
      proof (cases "d = c")
        case True
        with n1(3) p decodedCard_fresh [of hydrated 0 c "k + 2"] show ?thesis by auto
      next
        case False
        with d Some have m: "d \<in> set (recordCards rs)" by simp
        from bspec [OF n2 m] p same [OF m] show ?thesis by auto
      qed
    qed
    ultimately show ?thesis by blast
  qed
qed simp

lemma lastN_keeps: "length ys \<le> n \<Longrightarrow> set ys \<subseteq> set (lastN n (xs @ ys))"
  by (auto simp: lastN_def)

text \<open>
  C27. Records that can never be read do not stop the client. When no transaction fails and the
  media of the delta arrive, a delta of cards is applied to the end and the cursor moves on;
  every newer live card whose data does not decode is left as it was and is shown to the user
  as a failed operation.
\<close>

theorem unreadable_cards_are_quarantined:
  assumes "mirrors (clDb cl) (clMem cl)" "no_faults env"
    and "hydrateIncomingCardData H api (4 * length (pdRecords delta)) delta = Inr hydrated"
    and "recordTopics (pdRecords delta) = []" "distinct (map crId (recordCards (pdRecords delta)))"
    and "length (pdRecords delta) \<le> MAX_FAILED_OPS"
  shows "\<exists>told cl'. applyPullDelta H api env delta cl = (None, told, cl')
    \<and> (\<forall>c \<in> set (recordCards (pdRecords delta)). decodedCard hydrated 0 c = None
        \<and> \<not> isTruthyTime (crDeletedAt c)
        \<and> shouldApplyRemote (localTime (map_option cdUpdatedAt (tbl_get cdId (crId c) (cbCards (clDb cl))))) (crUpdatedAt c)
        \<longrightarrow> tbl_get cdId (crId c) (cbCards (clDb cl')) = tbl_get cdId (crId c) (cbCards (clDb cl))
          \<and> (\<exists>op \<in> set (loadFailedOps (clDb cl')). foCode op = POISON_CODE \<and> foTable op = Cards \<and> foRecordId op = crId c))"
proof -
  let ?C = "crId ` set (recordCards (pdRecords delta))"
  have t0: "tracked {} ?C (applyStart delta cl)" using tracked_start [OF assms(1), of delta] by (simp add: tracked_def)
  have start: "apPoisoned (applyStart delta cl) = []" "apClient (applyStart delta cl) = cl"
    by (simp_all add: applyStart_def)
  have inC: "\<forall>c \<in> set (recordCards (pdRecords delta)). crId c \<in> ?C" by simp
  from applyRecords_quarantine [OF assms(2) t0 assms(4) inC assms(5), of H hydrated 0] obtain s new where
    s: "applyRecords H hydrated env 0 (pdRecords delta) (applyStart delta cl) = (None, s)" "apPoisoned s = new"
      "length new \<le> length (pdRecords delta)"
    and new: "\<forall>c \<in> set (recordCards (pdRecords delta)). shouldApplyRemote (localTime (map_option cdUpdatedAt
          (tbl_get cdId (crId c) (cbCards (clDb cl))))) (crUpdatedAt c)
        \<and> \<not> isTruthyTime (crDeletedAt c) \<and> decodedCard hydrated 0 c = None
        \<longrightarrow> (\<exists>e. poisonOp Cards (crId c) e (ceNow env) \<in> set new)"
    unfolding start by auto
  obtain e told cl' where d: "applyPullDelta H api env delta cl = (e, told, cl')" by (metis prod_cases3)
  then have "e = None"
  proof (cases rule: applyPullDelta_cases)
    case (media x)
    with assms(3) show ?thesis by simp
  next
    case (records hydrated' s')
    with s(1) assms(3) show ?thesis by simp
  qed
  with d have r: "applyPullDelta H api env delta cl = (None, told, cl')" by simp
  have fr: "loadFailedOps (advanceCursor w db) = loadFailedOps db" for w db
    by (simp add: loadFailedOps_def advanceCursor_def setMeta_def split: option.split)
  have "cl' = (let cl1 = noteFailedOps new (apClient s) in if pdWatermark delta = '''' then cl1
         else cl1\<lparr>clDb := advanceCursor (pdWatermark delta) (clDb cl1)\<rparr>)"
    using r
  proof (cases rule: applyPullDelta_cases)
    case (records hydrated' s')
    with s assms(3) show ?thesis by simp
  qed simp
  then have ops: "loadFailedOps (clDb cl') = loadFailedOps (clDb (noteFailedOps new (apClient s)))"
    by (simp add: Let_def fr)
  have kept: "set new \<subseteq> set (loadFailedOps (clDb cl'))"
    using lastN_keeps [of new MAX_FAILED_OPS] s(3) assms(6) unfolding ops
    by (auto simp: noteFailedOps_def addFailedOps_def saveFailedOps_def loadFailedOps_def Let_def)
  have "tbl_get cdId (crId c) (cbCards (clDb cl')) = tbl_get cdId (crId c) (cbCards (clDb cl))
      \<and> (\<exists>op \<in> set (loadFailedOps (clDb cl')). foCode op = POISON_CODE \<and> foTable op = Cards \<and> foRecordId op = crId c)"
    if c: "c \<in> set (recordCards (pdRecords delta))" and u: "decodedCard hydrated 0 c = None"
      "\<not> isTruthyTime (crDeletedAt c)"
      "shouldApplyRemote (localTime (map_option cdUpdatedAt (tbl_get cdId (crId c) (cbCards (clDb cl))))) (crUpdatedAt c)" for c
  proof
    obtain e where e: "poisonOp Cards (crId c) e (ceNow env) \<in> set new" using bspec [OF new c] u by auto
    have "foCode (poisonOp Cards (crId c) e (ceNow env)) = POISON_CODE
      \<and> foTable (poisonOp Cards (crId c) e (ceNow env)) = Cards
      \<and> foRecordId (poisonOp Cards (crId c) e (ceNow env)) = crId c" by (simp add: poisonOp_def)
    with e kept show "\<exists>op \<in> set (loadFailedOps (clDb cl')). foCode op = POISON_CODE \<and> foTable op = Cards \<and> foRecordId op = crId c"
      by blast
    have "\<forall>t \<in> set (recordTopics (pdRecords delta)). \<not> isTruthyTime (trDeletedAt t)"
      "distinct (map trId (recordTopics (pdRecords delta)))" by (simp_all add: assms(4))
    from applyPullDelta_records [OF assms(1) r this assms(5)] assms(3) c obtain n where
      "tbl_get cdId (crId c) (cbCards (clDb cl')) = cardAfter (decodedCard hydrated n c) c
         (tbl_get cdId (crId c) (cbCards (clDb cl)))" by auto
    with u decodedCard_fresh [of hydrated 0 c n] show "tbl_get cdId (crId c) (cbCards (clDb cl'))
        = tbl_get cdId (crId c) (cbCards (clDb cl))" by (simp add: cardAfter_def)
  qed
  with r show ?thesis by blast
qed

lemma odd_card_unread:
  "hydrateIncomingCardData array_host sample_media_api 4
     \<lparr>pdRecords = [\<lparr>srTopic = None, srCard = Some odd_record\<rparr>], pdWatermark = ''9'', pdMore = False\<rparr>
   = Inr [(''c9'', JArr [])]"
  "decodedCard [(''c9'', JArr [])] 0 odd_record = None"
  by code_simp+

theorem unreadable_cards_are_quarantined_witness:
  "\<exists>told cl'. applyPullDelta array_host sample_media_api plain_env
     \<lparr>pdRecords = [\<lparr>srTopic = None, srCard = Some odd_record\<rparr>], pdWatermark = ''9'', pdMore = False\<rparr> study_client
     = (None, told, cl')
   \<and> (\<exists>op \<in> set (loadFailedOps (clDb cl')). foCode op = POISON_CODE \<and> foRecordId op = ''c9'')"
proof -
  let ?d = "\<lparr>pdRecords = [\<lparr>srTopic = None, srCard = Some odd_record\<rparr>], pdWatermark = ''9'', pdMore = False\<rparr>"
  have h: "hydrateIncomingCardData array_host sample_media_api (4 * length (pdRecords ?d)) ?d = Inr [(''c9'', JArr [])]"
    using odd_card_unread(1) by simp
  have c: "no_faults plain_env" "recordTopics (pdRecords ?d) = []" "recordCards (pdRecords ?d) = [odd_record]"
    "length (pdRecords ?d) \<le> MAX_FAILED_OPS"
    by (simp_all add: no_faults_def plain_env_def MAX_FAILED_OPS_def)
  then have "distinct (map crId (recordCards (pdRecords ?d)))" by simp
  note q = unreadable_cards_are_quarantined [OF study_client_mirrors c(1) h c(2) this c(4)]
  have absent: "tbl_get cdId ''c9'' (cbCards (clDb study_client)) = None" by code_simp
  have id: "crId odd_record = ''c9''" "crDeletedAt odd_record = None" by (simp_all add: odd_record_def)
  then have "shouldApplyRemote (localTime (map_option cdUpdatedAt (tbl_get cdId (crId odd_record) (cbCards (clDb study_client)))))
      (crUpdatedAt odd_record)" by (simp add: absent shouldApplyRemote_def localTime_def)
  with q odd_card_unread(2) show ?thesis unfolding c(3) by (auto simp: id isTruthyTime_def)
qed

section \<open>Where the code does not keep its promises\<close>

text \<open>
  A card and the tombstone of its topic in one delta. The first delivery stores the card and
  removes it with its topic; the second finds neither and stores the card again, now without a
  topic.
\<close>

definition text_host :: host where
  "text_host = sample_host\<lparr>jsonParse := (\<lambda>_. Some (JObj [(''front'', JStr ''a''), (''back'', JStr ''b'')]))\<rparr>"

definition orphan_delta :: pull_delta where
  "orphan_delta = \<lparr>pdRecords = [\<lparr>srTopic = None, srCard = Some (odd_record\<lparr>crTopicId := ''t1''\<rparr>)\<rparr>,
      \<lparr>srTopic = Some (greek_record\<lparr>trId := ''t1'', trUpdatedAt := 3000, trDeletedAt := Some 3000\<rparr>), srCard = None\<rparr>],
     pdWatermark = ''8'', pdMore = False\<rparr>"

lemma redelivery_orphans_a_card:
  "let cl1 = snd (snd (applyPullDelta text_host sample_media_api plain_env orphan_delta study_client));
       cl2 = snd (snd (applyPullDelta text_host sample_media_api plain_env orphan_delta cl1))
   in map tpId (cbTopics (clDb cl1)) = [] \<and> map cdId (cbCards (clDb cl1)) = []
    \<and> map tpId (cbTopics (clDb cl2)) = [] \<and> map (\<lambda>c. (cdId c, cdTopicId c)) (cbCards (clDb cl2)) = [(''c9'', ''t1'')]"
  by code_simp

end
