(* ===== verification/ClientPushProps.thy ===== *)
theory ClientPushProps
  imports ClientPush ClientPullProps
begin

text \<open>
  What a drain of the outbox guarantees: the caps of a batch and what it carries, that an
  answer settles the operations it names and no other, and that the drain ends. The contract of
  the backend is the locale \<open>push_backend\<close>, met by the sync server in ClientServer.
\<close>

section \<open>The batch\<close>

definition carries :: "host \<Rightarrow> call_env \<Rightarrow> client_db \<Rightarrow> queue_item \<Rightarrow> mutation \<Rightarrow> bool" where
  "carries H env db item m \<longleftrightarrow>
     (qiOpId item \<noteq> '''' \<longrightarrow> muOpId m = qiOpId item) \<and> muTable m = qiTable item
     \<and> muRecordId m = qiRecordId item \<and> muOperation m = qiOperation item
     \<and> qiNextRetryAt item \<le> of_int (ceNow env)
     \<and> (case qiOperation item of
          Delete \<Rightarrow> muUpdatedAt m = of_int (qiCreatedAt item) \<and> muTopic m = None \<and> muCard m = None
        | Upsert \<Rightarrow>
            (case qiTable item of
               Topics \<Rightarrow> (\<exists>t. readDurableTopic (qiRecordId item) db = Some t \<and> muCard m = None
                 \<and> muUpdatedAt m = of_int (orNow (tpUpdatedAt t) (ceNow env))
                 \<and> muTopic m = Some (topicToRecord H (ceNow env) t))
             | Cards \<Rightarrow> (\<exists>c r media. readDurableCard (qiRecordId item) db = Some c \<and> muTopic m = None
                 \<and> muUpdatedAt m = of_int (orNow (cdUpdatedAt c) (ceNow env))
                 \<and> cardToWireRecord H (ceNow env) c = Inr (r, media) \<and> muCard m = Some r)))"

definition same_rows :: "client_db \<Rightarrow> client_db \<Rightarrow> bool" where
  "same_rows db db' \<longleftrightarrow> cbTopics db' = cbTopics db \<and> cbCards db' = cbCards db"

lemma queueTx_cases:
  "queueTx env k f cl = (e, cl') \<Longrightarrow> (e = None \<and> cl' = cl\<lparr>clDb := (clDb cl)\<lparr>cbQueue := f (cbQueue (clDb cl))\<rparr>\<rparr>)
     \<or> (e \<noteq> None \<and> cl' = cl)"
  by (auto simp: queueTx_def withTransaction_def split: option.splits)

lemma same_rows_refl [simp]: "same_rows db db"
  by (simp add: same_rows_def)

lemma same_rows_trans: "same_rows a b \<Longrightarrow> same_rows b c \<Longrightarrow> same_rows a c"
  by (simp add: same_rows_def)

lemma same_rows_read:
  "same_rows db db' \<Longrightarrow> readDurableTopic i db' = readDurableTopic i db \<and> readDurableCard i db' = readDurableCard i db"
  by (simp add: same_rows_def readDurableTopic_def readDurableCard_def)

lemma tryAdd_Some:
  "tryAdd H item m b = Some b' \<longleftrightarrow> (mbMutations b \<noteq> [] \<longrightarrow> mbBytes b + mutationBytes H m \<le> MAX_PUSH_BYTES)
     \<and> b' = b\<lparr>mbMutations := mbMutations b @ [m], mbItems := mbItems b @ [item], mbBytes := mbBytes b + mutationBytes H m\<rparr>"
  by (auto simp: tryAdd_def)

lemma tryAdd_items:
  "tryAdd H item m b = Some (b'\<lparr>mbMedia := x\<rparr>) \<Longrightarrow>
   mbItems b' = mbItems b @ [item] \<and> mbMutations b' = mbMutations b @ [m]"
  by (cases b; cases b') (auto simp: tryAdd_def split: if_splits)

lemma mutationFor_fields [simp]:
  "muTable (mutationFor env device k item u t c) = qiTable item"
  "muRecordId (mutationFor env device k item u t c) = qiRecordId item"
  "muOperation (mutationFor env device k item u t c) = qiOperation item"
  "muUpdatedAt (mutationFor env device k item u t c) = of_int u"
  "muTopic (mutationFor env device k item u t c) = t" "muCard (mutationFor env device k item u t c) = c"
  "qiOpId item \<noteq> [] \<Longrightarrow> muOpId (mutationFor env device k item u t c) = qiOpId item"
  by (simp_all add: mutationFor_def)

text \<open>One item: the batch is unchanged, or the item was added with a mutation that carries it.\<close>

lemma buildOne_Next:
  assumes "buildOne H env device k item b cl = Next b' cl'"
  shows "(mbMutations b' = mbMutations b \<and> mbItems b' = mbItems b \<and> mbBytes b' = mbBytes b
       \<or> (\<exists>m. tryAdd H item m b = Some (b'\<lparr>mbMedia := mbMedia b\<rparr>) \<and> carries H env (clDb cl) item m
            \<and> length (mbMutations b) < MAX_PUSH_BATCH \<and> cl' = cl))
     \<and> (cl' = cl \<or> cl' = cl\<lparr>clDb := (clDb cl)\<lparr>cbQueue := removeQueueItem (qiId item) (cbQueue (clDb cl))\<rparr>\<rparr>
          \<and> mbItems b' = mbItems b)"
proof -
  let ?keep = "mbMutations b' = mbMutations b \<and> mbItems b' = mbItems b \<and> mbBytes b' = mbBytes b"
  let ?add = "\<exists>m. tryAdd H item m b = Some (b'\<lparr>mbMedia := mbMedia b\<rparr>) \<and> carries H env (clDb cl) item m
            \<and> length (mbMutations b) < MAX_PUSH_BATCH \<and> cl' = cl"
  have drop: ?thesis if "dropItem env k item b cl = Next b' cl'"
    using that by (auto simp: dropItem_def split: prod.splits option.splits dest!: queueTx_cases)
  have add: ?thesis if "added (tryAdd H item m b) cl = Next b' cl'" "carries H env (clDb cl) item m"
    "length (mbMutations b) < MAX_PUSH_BATCH" for m
    using that by (auto simp: added_def tryAdd_Some split: option.splits)
  show ?thesis
  proof (cases "qiNextRetryAt item > of_int (ceNow env) \<or> length (mbMutations b) \<ge> MAX_PUSH_BATCH")
    case True
    with assms show ?thesis by (auto simp: buildOne_def split: if_splits)
  next
    case False
    then have due: "qiNextRetryAt item \<le> of_int (ceNow env)" "length (mbMutations b) < MAX_PUSH_BATCH" by auto
    show ?thesis
    proof (cases "qiOperation item")
      case Delete
      with assms due have "added (tryAdd H item (mutationFor env device k item (qiCreatedAt item) None None) b) cl = Next b' cl'"
        by (simp add: buildOne_def)
      moreover have "carries H env (clDb cl) item (mutationFor env device k item (qiCreatedAt item) None None)"
        using Delete due by (simp add: carries_def)
      ultimately show ?thesis using due(2) by (rule add)
    next
      case Upsert
      note up = Upsert
      show ?thesis
      proof (cases "qiTable item")
        case Topics
        show ?thesis
        proof (cases "readDurableTopic (qiRecordId item) (clDb cl)")
          case None
          with assms due up Topics drop show ?thesis by (simp add: buildOne_def)
        next
          case (Some t)
          with assms due up Topics have "added (tryAdd H item (mutationFor env device k item
              (orNow (tpUpdatedAt t) (ceNow env)) (Some (topicToRecord H (ceNow env) t)) None) b) cl = Next b' cl'"
            by (simp add: buildOne_def)
          moreover have "carries H env (clDb cl) item (mutationFor env device k item
              (orNow (tpUpdatedAt t) (ceNow env)) (Some (topicToRecord H (ceNow env) t)) None)"
            using up Topics due Some by (simp add: carries_def)
          ultimately show ?thesis using due(2) by (rule add)
        qed
      next
        case Cards
        show ?thesis
        proof (cases "readDurableCard (qiRecordId item) (clDb cl)")
          case None
          with assms due up Cards drop show ?thesis by (simp add: buildOne_def)
        next
          case (Some c)
          with assms due up Cards obtain r media b1 where w: "cardToWireRecord H (ceNow env) c = Inr (r, media)"
            "tryAdd H item (mutationFor env device k item (orNow (cdUpdatedAt c) (ceNow env)) None (Some r)) b = Some b1"
            "b' = b1\<lparr>mbMedia := mergePreparedMedia (mbMedia b1) media\<rparr>" "cl' = cl"
            by (auto simp: buildOne_def split: sum.splits prod.splits option.splits)
          then have "tryAdd H item (mutationFor env device k item (orNow (cdUpdatedAt c) (ceNow env)) None (Some r)) b
              = Some (b'\<lparr>mbMedia := mbMedia b\<rparr>)" by (auto simp: tryAdd_Some)
          moreover have "carries H env (clDb cl) item
              (mutationFor env device k item (orNow (cdUpdatedAt c) (ceNow env)) None (Some r))"
            using up Cards due Some w(1) by (simp add: carries_def)
          ultimately show ?thesis using due w(4) by blast
        qed
      qed
    qed
  qed
qed

definition caps_ok :: "host \<Rightarrow> mutation_batch \<Rightarrow> bool" where
  "caps_ok H b \<longleftrightarrow> length (mbMutations b) \<le> MAX_PUSH_BATCH
     \<and> mbBytes b = 256 + sum_list (map (mutationBytes H) (mbMutations b))
     \<and> (length (mbMutations b) \<le> 1 \<or> mbBytes b \<le> MAX_PUSH_BYTES)"

lemma caps_ok_add:
  "caps_ok H b \<Longrightarrow> length (mbMutations b) < MAX_PUSH_BATCH \<Longrightarrow> tryAdd H item m b = Some b' \<Longrightarrow> caps_ok H b'"
  by (auto simp: caps_ok_def tryAdd_Some)

lemma buildEach_ok:
  "buildEach H env device k items b cl = (Inr b', cl') \<Longrightarrow> distinct items \<Longrightarrow> caps_ok H b \<Longrightarrow>
   list_all2 (carries H env db) (mbItems b) (mbMutations b) \<Longrightarrow> same_rows db (clDb cl) \<Longrightarrow>
   caps_ok H b' \<and> list_all2 (carries H env db) (mbItems b') (mbMutations b') \<and> same_rows db (clDb cl')
   \<and> clInFlight cl' = clInFlight cl
   \<and> (\<exists>P Q. mbItems b' = mbItems b @ filter P items \<and> cbQueue (clDb cl') = filter Q (cbQueue (clDb cl))
        \<and> (\<forall>x. \<not> Q x \<longrightarrow> qiId x \<in> qiId ` set (filter (\<lambda>i. \<not> P i) items)))"
proof (induction items arbitrary: k b cl)
  case Nil
  then show ?case by (auto intro!: exI [of _ "\<lambda>_. True"])
next
  case (Cons item items)
  show ?case
  proof (cases "buildOne H env device k item b cl")
    case (Stop cl1)
    then have "cl1 = cl" by (auto simp: buildOne_def added_def dropItem_def split: if_splits sync_operation.splits
        sync_table.splits option.splits sum.splits prod.splits)
    with Stop Cons.prems have "b' = b" "cl' = cl" by simp_all
    moreover have "mbItems b = mbItems b @ filter (\<lambda>_. False) (item # items)
      \<and> cbQueue (clDb cl) = filter (\<lambda>_. True) (cbQueue (clDb cl))
      \<and> (\<forall>x. \<not> True \<longrightarrow> qiId x \<in> qiId ` set (filter (\<lambda>_. \<not> False) (item # items)))" by simp
    ultimately show ?thesis using Cons.prems(3-5) by blast
  next
    case (Fail e cl1)
    with Cons.prems show ?thesis by simp
  next
    case (Next b1 cl1)
    note one = buildOne_Next [OF Next]
    from Next Cons.prems(1) have rest: "buildEach H env device (Suc k) items b1 cl1 = (Inr b', cl')" by simp
    have rows: "same_rows (clDb cl) (clDb cl1)" "clInFlight cl1 = clInFlight cl"
      using conjunct2 [OF one] by (auto simp: same_rows_def)
    then have db1: "same_rows db (clDb cl1)" using Cons.prems(5) same_rows_trans by blast
    have car: "carries H env (clDb cl) item m \<Longrightarrow> carries H env db item m" for m
      unfolding carries_def conjunct1 [OF same_rows_read [OF Cons.prems(5)]]
        conjunct2 [OF same_rows_read [OF Cons.prems(5)]] .
    have b1: "caps_ok H b1" "list_all2 (carries H env db) (mbItems b1) (mbMutations b1)"
    proof -
      from conjunct1 [OF one] have "caps_ok H b1 \<and> list_all2 (carries H env db) (mbItems b1) (mbMutations b1)"
      proof
        assume "mbMutations b1 = mbMutations b \<and> mbItems b1 = mbItems b \<and> mbBytes b1 = mbBytes b"
        with Cons.prems(3,4) show ?thesis unfolding caps_ok_def by metis
      next
        assume "\<exists>m. tryAdd H item m b = Some (b1\<lparr>mbMedia := mbMedia b\<rparr>) \<and> carries H env (clDb cl) item m
            \<and> length (mbMutations b) < MAX_PUSH_BATCH \<and> cl1 = cl"
        then obtain m where m: "tryAdd H item m b = Some (b1\<lparr>mbMedia := mbMedia b\<rparr>)" "carries H env (clDb cl) item m"
          "length (mbMutations b) < MAX_PUSH_BATCH" by blast
        have "caps_ok H (b1\<lparr>mbMedia := mbMedia b\<rparr>)" using caps_ok_add [OF Cons.prems(3) m(3) m(1)] .
        moreover note tryAdd_items [OF m(1)]
        ultimately show ?thesis using Cons.prems(4) car [OF m(2)]
          by (auto simp: caps_ok_def intro: list_all2_appendI)
      qed
      then show "caps_ok H b1" "list_all2 (carries H env db) (mbItems b1) (mbMutations b1)" by simp_all
    qed
    from Cons.prems(2) have d: "distinct items" "item \<notin> set items" by simp_all
    from Cons.IH [OF rest d(1) b1 db1] obtain P Q where
      ih: "caps_ok H b'" "list_all2 (carries H env db) (mbItems b') (mbMutations b')" "same_rows db (clDb cl')"
        "clInFlight cl' = clInFlight cl1" "mbItems b' = mbItems b1 @ filter P items"
        "cbQueue (clDb cl') = filter Q (cbQueue (clDb cl1))"
        "\<forall>x. \<not> Q x \<longrightarrow> qiId x \<in> qiId ` set (filter (\<lambda>i. \<not> P i) items)" by blast
    have f: "filter (\<lambda>x. if x = item then c else P x) items = filter P items"
      "filter (\<lambda>i. \<not> (if i = item then c else P i)) items = filter (\<lambda>i. \<not> P i) items" for c
      by (rule filter_cong; use d(2) in auto)+
    let ?R = "\<lambda>P Q. mbItems b' = mbItems b @ filter P (item # items) \<and> cbQueue (clDb cl') = filter Q (cbQueue (clDb cl))
        \<and> (\<forall>x. \<not> Q x \<longrightarrow> qiId x \<in> qiId ` set (filter (\<lambda>i. \<not> P i) (item # items)))"
    have fl: "clInFlight cl' = clInFlight cl" using ih(4) rows(2) by simp
    have thesisI: ?thesis if "?R P' Q'" for P' Q'
      using ih(1-3) fl exI [of "\<lambda>P. \<exists>Q. ?R P Q", OF exI [of "?R P'", OF that]] by (intro conjI)
    from conjunct1 [OF one] conjunct2 [OF one]
    consider "mbItems b1 = mbItems b" "cl1 = cl"
      | "mbItems b1 = mbItems b" "cl1 = cl\<lparr>clDb := (clDb cl)\<lparr>cbQueue := removeQueueItem (qiId item) (cbQueue (clDb cl))\<rparr>\<rparr>"
      | "mbItems b1 = mbItems b @ [item]" "cl1 = cl"
      using tryAdd_items by metis
    then show ?thesis
    proof cases
      case 1
      show ?thesis
        by (rule thesisI [of "\<lambda>x. if x = item then False else P x" Q]) (use ih(5-7) 1 in \<open>simp add: f\<close>)
    next
      case 2
      show ?thesis
        by (rule thesisI [of "\<lambda>x. if x = item then False else P x" "\<lambda>x. Q x \<and> qiId x \<noteq> qiId item"])
           (use ih(5-7) 2 in \<open>auto simp: f removeQueueItem_def tbl_del_def conj_commute\<close>)
    next
      case 3
      show ?thesis
        by (rule thesisI [of "\<lambda>x. if x = item then True else P x" Q]) (use ih(5-7) 3 in \<open>simp add: f\<close>)
    qed
  qed
qed

section \<open>Answers\<close>

text \<open>
  \<open>settled A q q'\<close>: from \<open>q\<close> to \<open>q'\<close> only the entries of the items in \<open>A\<close> were touched, each
  removed or put off with one attempt more, and only while it still carried its operation.
\<close>

definition bumped :: "queue_item \<Rightarrow> queue_item \<Rightarrow> bool" where
  "bumped i x \<longleftrightarrow> qiId x = qiId i \<and> qiOpId x = qiOpId i \<and> qiTable x = qiTable i \<and> qiRecordId x = qiRecordId i
     \<and> qiAttempts x = qiAttempts i + 1 \<and> qiAttempts i + 1 < MAX_ATTEMPTS"

definition settled :: "queue_item set \<Rightarrow> queue_item list \<Rightarrow> queue_item list \<Rightarrow> bool" where
  "settled A q q' \<longleftrightarrow> queue_ok q'
     \<and> (\<forall>t r x'. queued t r q' = Some x' \<longrightarrow> queued t r q = Some x'
          \<or> (\<exists>i \<in> A. \<exists>x. queued t r q = Some x \<and> qiOpId x = qiOpId i \<and> qiId x = qiId i \<and> bumped i x'))
     \<and> (\<forall>t r x. queued t r q = Some x \<and> (\<forall>i \<in> A. qiOpId i \<noteq> qiOpId x) \<longrightarrow> queued t r q' = Some x)"

definition keyed_items :: "queue_item list \<Rightarrow> bool" where
  "keyed_items items \<longleftrightarrow> (\<forall>i \<in> set items. qiId i = queueKey (qiTable i) (qiRecordId i))
     \<and> distinct (map qiOpId items)"

lemma settledD:
  "settled A q q' \<Longrightarrow> queued t r q' = Some x' \<Longrightarrow> queued t r q = Some x'
     \<or> (\<exists>i \<in> A. \<exists>x. queued t r q = Some x \<and> qiOpId x = qiOpId i \<and> qiId x = qiId i \<and> bumped i x')"
  by (simp add: settled_def)

lemma settled_refl: "queue_ok q \<Longrightarrow> settled A q q"
  by (simp add: settled_def)

lemma settled_mono: "settled A q q' \<Longrightarrow> A \<subseteq> B \<Longrightarrow> settled B q q'"
  unfolding settled_def by blast

lemma settled_trans:
  assumes "settled A q q1" "settled A q1 q2"
  shows "settled A q q2"
  unfolding settled_def
proof (intro conjI allI impI)
  show "queue_ok q2" using assms(2) by (simp add: settled_def)
next
  fix t r x2 assume "queued t r q2 = Some x2"
  with assms(2) consider "queued t r q1 = Some x2"
    | i x1 where "i \<in> A" "queued t r q1 = Some x1" "qiOpId x1 = qiOpId i" "qiId x1 = qiId i" "bumped i x2"
    unfolding settled_def by blast
  then show "queued t r q = Some x2
      \<or> (\<exists>i \<in> A. \<exists>x. queued t r q = Some x \<and> qiOpId x = qiOpId i \<and> qiId x = qiId i \<and> bumped i x2)"
  proof cases
    case 1
    with assms(1) show ?thesis unfolding settled_def by blast
  next
    case 2
    from 2(2) assms(1) consider "queued t r q = Some x1"
      | j x where "j \<in> A" "queued t r q = Some x" "qiOpId x = qiOpId j" "qiId x = qiId j" "bumped j x1"
      unfolding settled_def by blast
    then show ?thesis
    proof cases
      case 1
      with 2 show ?thesis by blast
    next
      case j: 2
      then have "qiOpId x = qiOpId i" "qiId x = qiId i" using 2(3,4) by (simp_all add: bumped_def)
      with j(2) 2(1,5) show ?thesis by blast
    qed
  qed
next
  fix t r x assume "queued t r q = Some x \<and> (\<forall>i \<in> A. qiOpId i \<noteq> qiOpId x)"
  with assms show "queued t r q2 = Some x" unfolding settled_def by blast
qed

lemma settled_remove:
  assumes "queue_ok q" "i \<in> A" "qiId i = queueKey (qiTable i) (qiRecordId i)"
  shows "settled A q (removeQueueItemIfOp i q)"
  unfolding settled_def
  by (intro conjI allI impI)
     (use assms removeIfOp_ok in \<open>auto simp: removeIfOp_queued split: option.splits if_splits\<close>)

lemma settled_bump:
  assumes "queue_ok q" "i \<in> A" "qiId i = queueKey (qiTable i) (qiRecordId i)" "qiAttempts i + 1 < MAX_ATTEMPTS"
  shows "settled A q (bumpQueueAttempts now rnd i q)"
  unfolding settled_def
proof (intro conjI allI impI)
  show "queue_ok (bumpQueueAttempts now rnd i q)" using assms(1,3) by (rule bump_ok)
next
  fix t r x' assume x': "queued t r (bumpQueueAttempts now rnd i q) = Some x'"
  then obtain x where x: "queued t r q = Some x"
    by (auto simp: bump_queued [OF assms(1,3)] split: option.splits)
  show "queued t r q = Some x'
      \<or> (\<exists>i \<in> A. \<exists>x. queued t r q = Some x \<and> qiOpId x = qiOpId i \<and> qiId x = qiId i \<and> bumped i x')"
  proof (cases "t = qiTable i \<and> r = qiRecordId i \<and> qiOpId x = qiOpId i")
    case True
    with x' x have "bumped i x'" using assms(4) by (auto simp: bump_queued [OF assms(1,3)] bumped_def)
    moreover have "qiId x = qiId i" using queued_facts(4) [OF assms(1) x] True assms(3) by simp
    ultimately show ?thesis using x True assms(2) by blast
  next
    case False
    with x' x show ?thesis by (auto simp: bump_queued [OF assms(1,3)])
  qed
next
  fix t r x assume "queued t r q = Some x \<and> (\<forall>i \<in> A. qiOpId i \<noteq> qiOpId x)"
  with assms(2) show "queued t r (bumpQueueAttempts now rnd i q) = Some x"
    by (auto simp: bump_queued [OF assms(1,3)])
qed

text \<open>Once an item is answered its entry is gone, replaced by another operation, or put off.\<close>

definition answered :: "queue_item \<Rightarrow> queue_item list \<Rightarrow> bool" where
  "answered i q \<longleftrightarrow> (\<forall>x. queued (qiTable i) (qiRecordId i) q = Some x \<and> qiOpId x = qiOpId i \<longrightarrow> bumped i x)"

lemma answered_remove:
  "queue_ok q \<Longrightarrow> qiId i = queueKey (qiTable i) (qiRecordId i) \<Longrightarrow> answered i (removeQueueItemIfOp i q)"
  by (auto simp: answered_def removeIfOp_queued split: option.splits)

lemma answered_bump:
  "queue_ok q \<Longrightarrow> qiId i = queueKey (qiTable i) (qiRecordId i) \<Longrightarrow> qiAttempts i + 1 < MAX_ATTEMPTS \<Longrightarrow>
   answered i (bumpQueueAttempts now rnd i q)"
  by (auto simp: answered_def bump_queued bumped_def split: option.splits if_splits)

lemma answered_settled:
  assumes "answered i q" "settled A q q'" "\<And>j. j \<in> A \<Longrightarrow> qiOpId j = qiOpId i \<Longrightarrow> j = i"
  shows "answered i q'"
  unfolding answered_def
proof (intro allI impI)
  fix x assume x: "queued (qiTable i) (qiRecordId i) q' = Some x \<and> qiOpId x = qiOpId i"
  consider "queued (qiTable i) (qiRecordId i) q = Some x"
    | j where "j \<in> A" "bumped j x"
    using settledD [OF assms(2) conjunct1 [OF x]] by blast
  then show "bumped i x"
  proof cases
    case 1
    with assms(1) x show ?thesis by (simp add: answered_def)
  next
    case 2
    with x have "qiOpId j = qiOpId i" by (simp add: bumped_def)
    with assms(3) [OF 2(1)] 2(2) show ?thesis by simp
  qed
qed

lemma fold_put_distinct: "distinct (map key (acc @ xs)) \<Longrightarrow> fold (tbl_put key) xs acc = acc @ xs"
proof (induction xs arbitrary: acc)
  case (Cons x xs)
  have "key x \<notin> key ` set acc \<Longrightarrow> tbl_put key x acc = acc @ [x]" by (induction acc) auto
  with Cons show ?case by simp
qed simp

lemma byOpId_items: "keyed_items items \<Longrightarrow> byOpId items = items"
  using fold_put_distinct [of qiOpId "[]" items] by (simp add: byOpId_def keyed_items_def)

lemma queueTx_None:
  "queueTx env k f cl = (None, cl') \<Longrightarrow> cl' = cl\<lparr>clDb := (clDb cl)\<lparr>cbQueue := f (cbQueue (clDb cl))\<rparr>\<rparr>"
  by (drule queueTx_cases) simp

lemma queueTx_settled:
  assumes "queueTx env k f cl = (e, cl')" "queue_ok (cbQueue (clDb cl))"
    and "\<And>q. queue_ok q \<Longrightarrow> settled A q (f q)"
  shows "settled A (cbQueue (clDb cl)) (cbQueue (clDb cl'))"
  using queueTx_cases [OF assms(1)] assms(2,3) by (auto intro: settled_refl)

lemma settled_ok: "settled A q q' \<Longrightarrow> queue_ok q'"
  by (simp add: settled_def)

lemma queueTxs_settled:
  "queueTxs env k fs cl = (e, cl') \<Longrightarrow> queue_ok (cbQueue (clDb cl)) \<Longrightarrow>
   (\<And>f q. f \<in> set fs \<Longrightarrow> queue_ok q \<Longrightarrow> settled A q (f q)) \<Longrightarrow>
   settled A (cbQueue (clDb cl)) (cbQueue (clDb cl'))"
proof (induction fs arbitrary: k cl)
  case (Cons f fs)
  obtain e1 cl1 where one: "queueTx env k f cl = (e1, cl1)" by fastforce
  have s: "settled A (cbQueue (clDb cl)) (cbQueue (clDb cl1))"
    using queueTx_settled [OF one Cons.prems(2), of A] Cons.prems(3) by simp
  show ?case
  proof (cases e1)
    case None
    with Cons.prems(1) one have "queueTxs env (Suc k) fs cl1 = (e, cl')" by simp
    from Cons.IH [OF this settled_ok [OF s]] Cons.prems(3) have "settled A (cbQueue (clDb cl1)) (cbQueue (clDb cl'))"
      by simp
    with s show ?thesis by (rule settled_trans)
  next
    case (Some x)
    with Cons.prems(1) one s show ?thesis by simp
  qed
qed (simp add: settled_refl)

lemma queueTxs_once:
  "queueTxs env k fs cl = (None, cl') \<Longrightarrow> queue_ok (cbQueue (clDb cl)) \<Longrightarrow>
   (\<And>f q. f \<in> set fs \<Longrightarrow> queue_ok q \<Longrightarrow> settled A q (f q)) \<Longrightarrow>
   (\<And>q q'. P q \<Longrightarrow> settled A q q' \<Longrightarrow> P q') \<Longrightarrow>
   f \<in> set fs \<Longrightarrow> (\<And>q. queue_ok q \<Longrightarrow> P (f q)) \<Longrightarrow> P (cbQueue (clDb cl'))"
proof (induction fs arbitrary: k cl)
  case (Cons g fs)
  obtain cl1 where one: "queueTx env k g cl = (None, cl1)" and rest: "queueTxs env (Suc k) fs cl1 = (None, cl')"
    using Cons.prems(1) by (auto split: prod.splits option.splits)
  have s: "settled A (cbQueue (clDb cl)) (cbQueue (clDb cl1))"
    using queueTx_settled [OF one Cons.prems(2), of A] Cons.prems(3) by simp
  note ok1 = settled_ok [OF s]
  show ?case
  proof (cases "f = g")
    case True
    then have "P (cbQueue (clDb cl1))"
      using queueTx_None [OF one] Cons.prems(2,6) by simp
    moreover have "settled A (cbQueue (clDb cl1)) (cbQueue (clDb cl'))"
      using queueTxs_settled [OF rest ok1, of A] Cons.prems(3) by simp
    ultimately show ?thesis by (rule Cons.prems(4))
  next
    case False
    with Cons.prems(5) have f: "f \<in> set fs" by simp
    show ?thesis
    proof (rule Cons.IH [OF rest ok1 _ _ f])
      fix h q assume "h \<in> set fs" "queue_ok q"
      then show "settled A q (h q)" by (intro Cons.prems(3)) simp_all
    qed (fact Cons.prems(4), fact Cons.prems(6))
  qed
qed simp

lemma putLocalTopic_queue: "cbQueue (clDb (snd (putLocalTopic env k t cl))) = cbQueue (clDb cl)"
  by (cases "putTopicInMemory t (clMem cl)"; cases "ClientDb.titleTaken t (cbTopics (clDb cl))"; cases "ceFault env k")
     (simp_all add: putLocalTopic_def withTransaction_def putTopicRow_def)

lemma applyTopicConflict_queue: "cbQueue (clDb (snd (applyTopicConflict env k c cl))) = cbQueue (clDb cl)"
  by (simp add: applyTopicConflict_def putLocalTopic_queue split: option.split)

lemma settleConflicts_settled:
  "settleConflicts env k items cs cl = (e, cl') \<Longrightarrow> keyed_items items \<Longrightarrow> queue_ok (cbQueue (clDb cl)) \<Longrightarrow>
   {i \<in> set items. qiRecordId i \<in> tcTopicId ` set cs} \<subseteq> A \<Longrightarrow>
   settled A (cbQueue (clDb cl)) (cbQueue (clDb cl'))"
proof (induction cs arbitrary: k cl)
  case (Cons c cs)
  obtain e1 cl1 where one: "applyTopicConflict env k c cl = (e1, cl1)" by fastforce
  then have q1: "cbQueue (clDb cl1) = cbQueue (clDb cl)" using applyTopicConflict_queue [of env k c cl] by simp
  have sub: "{i \<in> set items. qiRecordId i \<in> tcTopicId ` set cs} \<subseteq> A" using Cons.prems(4) by auto
  show ?case
  proof (cases e1)
    case (Some x)
    with Cons.prems(1) one q1 Cons.prems(3) show ?thesis by (simp add: settled_refl)
  next
    case None
    show ?thesis
    proof (cases "find (\<lambda>i. qiRecordId i = tcTopicId c) (byOpId items)")
      case None
      with Cons.prems(1) one \<open>e1 = None\<close> have "settleConflicts env (k + 2) items cs cl1 = (e, cl')" by simp
      from Cons.IH [OF this Cons.prems(2) _ sub] q1 Cons.prems(3) show ?thesis by simp
    next
      case (Some i)
      then have i: "i \<in> set items" "qiRecordId i = tcTopicId c"
        using byOpId_items [OF Cons.prems(2)] by (auto simp: find_Some_iff)
      then have key: "qiId i = queueKey (qiTable i) (qiRecordId i)" and "i \<in> A"
        using Cons.prems(2,4) by (auto simp: keyed_items_def)
      obtain e2 cl2 where two: "queueTx env (k + 1) (removeQueueItemIfOp i) cl1 = (e2, cl2)" by fastforce
      have s: "settled A (cbQueue (clDb cl)) (cbQueue (clDb cl2))"
        using queueTx_settled [OF two, of A] settled_remove [OF _ \<open>i \<in> A\<close> key] Cons.prems(3) q1 by simp
      show ?thesis
      proof (cases e2)
        case None
        with Cons.prems(1) one \<open>e1 = None\<close> Some two have "settleConflicts env (k + 2) items cs cl2 = (e, cl')" by simp
        from Cons.IH [OF this Cons.prems(2) settled_ok [OF s] sub] s show ?thesis using settled_trans by blast
      next
        case (Some y)
        with Cons.prems(1) one \<open>e1 = None\<close> \<open>find _ _ = Some i\<close> two s show ?thesis by simp
      qed
    qed
  qed
qed (simp add: settled_refl)

definition gone :: "queue_item \<Rightarrow> queue_item list \<Rightarrow> bool" where
  "gone i q \<longleftrightarrow> (\<forall>x. queued (qiTable i) (qiRecordId i) q = Some x \<longrightarrow> qiOpId x \<noteq> qiOpId i)"

lemma gone_remove:
  "queue_ok q \<Longrightarrow> qiId i = queueKey (qiTable i) (qiRecordId i) \<Longrightarrow> gone i (removeQueueItemIfOp i q)"
  by (auto simp: gone_def removeIfOp_queued split: option.splits)

lemma gone_settled:
  assumes "gone i q" "settled A q q'"
  shows "gone i q'"
  unfolding gone_def
proof (intro allI impI)
  fix x assume "queued (qiTable i) (qiRecordId i) q' = Some x"
  from settledD [OF assms(2) this] show "qiOpId x \<noteq> qiOpId i"
    using assms(1) by (auto simp: gone_def bumped_def)
qed

definition answeredBy :: "push_ack \<Rightarrow> queue_item list \<Rightarrow> queue_item set" where
  "answeredBy ack items = {i \<in> set items. qiOpId i \<in> set (paAcceptedOpIds ack)
     \<or> qiOpId i \<in> roOpId ` set (paRejected ack) \<or> qiRecordId i \<in> tcTopicId ` set (paConflicts ack)}"

lemma byOpId_get:
  assumes "keyed_items items"
  shows "tbl_get qiOpId o' (byOpId items) = Some i \<longleftrightarrow> i \<in> set items \<and> qiOpId i = o'"
  using assms by (simp add: byOpId_items tbl_get_iff keyed_items_def)

lemma settleAccepted_fn:
  assumes "keyed_items items" "f \<in> set (concat (map (settleAccepted items) (paAcceptedOpIds ack)))"
  shows "\<exists>i \<in> answeredBy ack items. f = removeQueueItemIfOp i"
proof -
  obtain p where p: "p \<in> set (paAcceptedOpIds ack)" "f \<in> set (settleAccepted items p)" using assms(2) by auto
  then obtain i where "tbl_get qiOpId p (byOpId items) = Some i" "f = removeQueueItemIfOp i"
    by (cases "tbl_get qiOpId p (byOpId items)") (simp_all add: settleAccepted_def)
  with p(1) byOpId_get [OF assms(1)] show ?thesis by (auto simp: answeredBy_def)
qed

lemma settleRejected_fn:
  assumes "keyed_items items" "f \<in> set (concat (map (settleRejected env rnd items) (paRejected ack)))"
  shows "\<exists>i \<in> answeredBy ack items. f = removeQueueItemIfOp i
     \<or> qiAttempts i + 1 < MAX_ATTEMPTS \<and> f = bumpQueueAttempts (ceNow env) rnd i"
proof -
  obtain r where r: "r \<in> set (paRejected ack)" "f \<in> set (settleRejected env rnd items r)" using assms(2) by auto
  then obtain i where i: "tbl_get qiOpId (roOpId r) (byOpId items) = Some i"
    "f = (if givesUp i r then removeQueueItemIfOp i else bumpQueueAttempts (ceNow env) rnd i)"
    by (cases "tbl_get qiOpId (roOpId r) (byOpId items)") (simp_all add: settleRejected_def)
  from i(1) byOpId_get [OF assms(1)] have "i \<in> set items" "qiOpId i = roOpId r" by auto
  then have "i \<in> answeredBy ack items" using r(1) by (auto simp: answeredBy_def)
  moreover have "\<not> givesUp i r \<Longrightarrow> qiAttempts i + 1 < MAX_ATTEMPTS" by (auto simp: givesUp_def)
  ultimately show ?thesis using i(2) by (intro bexI [of _ i]) simp_all
qed

lemma answeredBy_key: "keyed_items items \<Longrightarrow> i \<in> answeredBy ack items \<Longrightarrow> qiId i = queueKey (qiTable i) (qiRecordId i)"
  by (simp add: keyed_items_def answeredBy_def)

lemma settle_fns:
  assumes "keyed_items items" "queue_ok q"
  shows "f \<in> set (concat (map (settleAccepted items) (paAcceptedOpIds ack))) \<Longrightarrow> settled (answeredBy ack items) q (f q)"
    "f \<in> set (concat (map (settleRejected env rnd items) (paRejected ack))) \<Longrightarrow> settled (answeredBy ack items) q (f q)"
  using settleAccepted_fn [OF assms(1)] settleRejected_fn [OF assms(1)] answeredBy_key [OF assms(1)]
    settled_remove [OF assms(2)] settled_bump [OF assms(2)] by blast+

text \<open>The three phases of an ack.\<close>

lemma ack_phases:
  assumes "applyPushAck env rnd ack items cl = (e, cl')" "keyed_items items" "queue_ok (cbQueue (clDb cl))"
  obtains e1 cl1 e2 cl2 e3 cl3 k where
    "queueTxs env 0 (concat (map (settleAccepted items) (paAcceptedOpIds ack))) cl = (e1, cl1)"
    "settled (answeredBy ack items) (cbQueue (clDb cl)) (cbQueue (clDb cl1))"
    "e1 = None \<longrightarrow> settled (answeredBy ack items) (cbQueue (clDb cl1)) (cbQueue (clDb cl2))"
    "e1 = None \<longrightarrow> e2 = None \<longrightarrow>
       queueTxs env k (concat (map (settleRejected env rnd items) (paRejected ack))) cl2 = (e3, cl3)
       \<and> settled (answeredBy ack items) (cbQueue (clDb cl2)) (cbQueue (clDb cl3))"
    "e = (if e1 \<noteq> None then e1 else if e2 \<noteq> None then e2 else e3)"
    "cbQueue (clDb cl') = cbQueue (clDb (if e1 \<noteq> None then cl1 else if e2 \<noteq> None then cl2 else cl3))"
    "e = None \<longrightarrow> loadFailedOps (clDb cl')
       = loadFailedOps (clDb (noteFailedOps (concat (map (failedFor env items) (paRejected ack))) cl3))"
proof -
  let ?A = "answeredBy ack items"
  let ?acc = "concat (map (settleAccepted items) (paAcceptedOpIds ack))"
  let ?rej = "concat (map (settleRejected env rnd items) (paRejected ack))"
  obtain e1 cl1 where one: "queueTxs env 0 ?acc cl = (e1, cl1)" by fastforce
  obtain e2 cl2 where two: "settleConflicts env (length ?acc) items (paConflicts ack) cl1 = (e2, cl2)" by fastforce
  let ?k = "length ?acc + 2 * length (paConflicts ack)"
  obtain e3 cl3 where three: "queueTxs env ?k ?rej cl2 = (e3, cl3)" by fastforce
  have s1: "settled ?A (cbQueue (clDb cl)) (cbQueue (clDb cl1))"
    using queueTxs_settled [OF one assms(3)] settle_fns(1) [OF assms(2)] by blast
  have s2: "settled ?A (cbQueue (clDb cl1)) (cbQueue (clDb cl2))"
    by (rule settleConflicts_settled [OF two assms(2) settled_ok [OF s1]]) (auto simp: answeredBy_def)
  have s3: "settled ?A (cbQueue (clDb cl2)) (cbQueue (clDb cl3))"
    using queueTxs_settled [OF three settled_ok [OF s2]] settle_fns(2) [OF assms(2)] by blast
  have note_queue: "cbQueue (clDb (noteFailedOps ops c)) = cbQueue (clDb c)" for ops c
    by (simp add: noteFailedOps_def addFailedOps_def saveFailedOps_def Let_def)
  show ?thesis
  proof (rule that [OF one s1])
    show "e1 = None \<longrightarrow> settled ?A (cbQueue (clDb cl1)) (cbQueue (clDb cl2))" using s2 by simp
    show "e1 = None \<longrightarrow> e2 = None \<longrightarrow> queueTxs env ?k ?rej cl2 = (e3, cl3) \<and> settled ?A (cbQueue (clDb cl2)) (cbQueue (clDb cl3))"
      using three s3 by simp
    show "e = (if e1 \<noteq> None then e1 else if e2 \<noteq> None then e2 else e3)"
      "cbQueue (clDb cl') = cbQueue (clDb (if e1 \<noteq> None then cl1 else if e2 \<noteq> None then cl2 else cl3))"
      "e = None \<longrightarrow> loadFailedOps (clDb cl')
       = loadFailedOps (clDb (noteFailedOps (concat (map (failedFor env items) (paRejected ack))) cl3))"
      using assms(1) one two three
      by (auto simp: applyPushAck_def Let_def note_queue split: option.splits)
  qed
qed

lemma settled_answered:
  assumes "keyed_items items" "i \<in> set items"
  shows "answered i q \<Longrightarrow> settled (answeredBy ack items) q q' \<Longrightarrow> answered i q'"
proof (erule answered_settled, assumption)
  fix j assume "j \<in> answeredBy ack items" "qiOpId j = qiOpId i"
  then show "j = i" using assms by (auto simp: answeredBy_def keyed_items_def distinct_map dest: inj_onD)
qed

lemma noted_ops:
  assumes "length ops \<le> MAX_FAILED_OPS"
  shows "set ops \<subseteq> set (loadFailedOps (clDb (noteFailedOps ops cl)))"
  using lastN_keeps [OF assms]
  by (auto simp: noteFailedOps_def addFailedOps_def saveFailedOps_def loadFailedOps_def Let_def)

lemma length_concat_le: "(\<And>x. length (f x) \<le> 1) \<Longrightarrow> length (concat (map f xs)) \<le> length xs"
proof (induction xs)
  case (Cons x xs)
  have "length (f x) \<le> 1" by (rule Cons.prems)
  moreover have "length (concat (map f xs)) \<le> length xs" using Cons by simp
  ultimately show ?case by simp
qed simp

lemma ack_queue:
  assumes "applyPushAck env rnd ack items cl = (e, cl')" "keyed_items items" "queue_ok (cbQueue (clDb cl))"
  shows "settled (answeredBy ack items) (cbQueue (clDb cl)) (cbQueue (clDb cl'))"
    and "e = None \<Longrightarrow> i \<in> set items \<Longrightarrow> qiOpId i \<in> set (paAcceptedOpIds ack) \<Longrightarrow> gone i (cbQueue (clDb cl'))"
    and "e = None \<Longrightarrow> i \<in> set items \<Longrightarrow> r \<in> set (paRejected ack) \<Longrightarrow> roOpId r = qiOpId i \<Longrightarrow> givesUp i r \<Longrightarrow>
      gone i (cbQueue (clDb cl'))"
    and "e = None \<Longrightarrow> i \<in> set items \<Longrightarrow> r \<in> set (paRejected ack) \<Longrightarrow> roOpId r = qiOpId i \<Longrightarrow>
      answered i (cbQueue (clDb cl'))"
    and "e = None \<Longrightarrow> length (paRejected ack) \<le> MAX_FAILED_OPS \<Longrightarrow> i \<in> set items \<Longrightarrow> r \<in> set (paRejected ack) \<Longrightarrow>
      roOpId r = qiOpId i \<Longrightarrow> givesUp i r \<Longrightarrow>
      \<exists>fo \<in> set (loadFailedOps (clDb cl')). foOpId fo = qiOpId i \<and> foRecordId fo = qiRecordId i \<and> foCode fo = roCode r"
proof -
  let ?A = "answeredBy ack items"
  obtain e1 cl1 e2 cl2 e3 cl3 k where ph:
    "queueTxs env 0 (concat (map (settleAccepted items) (paAcceptedOpIds ack))) cl = (e1, cl1)"
    "settled ?A (cbQueue (clDb cl)) (cbQueue (clDb cl1))"
    "e1 = None \<longrightarrow> settled ?A (cbQueue (clDb cl1)) (cbQueue (clDb cl2))"
    "e1 = None \<longrightarrow> e2 = None \<longrightarrow>
       queueTxs env k (concat (map (settleRejected env rnd items) (paRejected ack))) cl2 = (e3, cl3)
       \<and> settled ?A (cbQueue (clDb cl2)) (cbQueue (clDb cl3))"
    "e = (if e1 \<noteq> None then e1 else if e2 \<noteq> None then e2 else e3)"
    "cbQueue (clDb cl') = cbQueue (clDb (if e1 \<noteq> None then cl1 else if e2 \<noteq> None then cl2 else cl3))"
    "e = None \<longrightarrow> loadFailedOps (clDb cl')
       = loadFailedOps (clDb (noteFailedOps (concat (map (failedFor env items) (paRejected ack))) cl3))"
    by (rule ack_phases [OF assms])
  have trans: "settled ?A a b \<Longrightarrow> settled ?A b c \<Longrightarrow> settled ?A a c" for a b c by (rule settled_trans)
  show "settled ?A (cbQueue (clDb cl)) (cbQueue (clDb cl'))"
  proof (cases e1)
    case None
    with ph(2,3) have s: "settled ?A (cbQueue (clDb cl)) (cbQueue (clDb cl2))" using trans by blast
    show ?thesis
    proof (cases e2)
      case None
      with \<open>e1 = None\<close> ph(4,6) trans [OF s] show ?thesis by simp
    next
      case (Some x)
      with \<open>e1 = None\<close> s ph(6) show ?thesis by simp
    qed
  next
    case (Some x)
    with ph(2,6) show ?thesis by simp
  qed
  have tail: "settled ?A (cbQueue (clDb cl1)) (cbQueue (clDb cl2))" "settled ?A (cbQueue (clDb cl2)) (cbQueue (clDb cl3))"
    "e1 = None" "e2 = None" "e3 = None" "cbQueue (clDb cl') = cbQueue (clDb cl3)" if "e = None"
    using that ph(3-6) by (auto split: if_splits)
  have key: "qiId i = queueKey (qiTable i) (qiRecordId i)" if "i \<in> set items"
    using that assms(2) by (simp add: keyed_items_def)
  show "gone i (cbQueue (clDb cl'))" if e: "e = None" and i: "i \<in> set items" "qiOpId i \<in> set (paAcceptedOpIds ack)"
  proof -
    have f: "removeQueueItemIfOp i \<in> set (concat (map (settleAccepted items) (paAcceptedOpIds ack)))"
      using i byOpId_get [OF assms(2), of "qiOpId i" i] by (force simp: settleAccepted_def)
    have "queueTxs env 0 (concat (map (settleAccepted items) (paAcceptedOpIds ack))) cl = (None, cl1)"
      using ph(1) tail(3) [OF e] by simp
    then have "gone i (cbQueue (clDb cl1))"
    proof (rule queueTxs_once [where P = "gone i" and A = ?A, OF _ assms(3) _ _ f])
      show "\<And>f q. f \<in> set (concat (map (settleAccepted items) (paAcceptedOpIds ack))) \<Longrightarrow> queue_ok q \<Longrightarrow> settled ?A q (f q)"
        using settle_fns(1) [OF assms(2)] by blast
    qed (use gone_settled gone_remove key i(1) in blast)+
    then show ?thesis using gone_settled tail(1,2,6) [OF e] by metis
  qed
  have rej: "queueTxs env k (concat (map (settleRejected env rnd items) (paRejected ack))) cl2 = (None, cl3)"
    "queue_ok (cbQueue (clDb cl2))" if "e = None"
    using ph(4) tail [OF that] settled_ok by blast+
  have fnsR: "settled ?A q (f q)"
    if "f \<in> set (concat (map (settleRejected env rnd items) (paRejected ack)))" "queue_ok q" for f q
    using settle_fns(2) [OF assms(2)] that by blast
  have fn: "(if givesUp i r then removeQueueItemIfOp i else bumpQueueAttempts (ceNow env) rnd i)
      \<in> set (concat (map (settleRejected env rnd items) (paRejected ack)))"
    if "i \<in> set items" "r \<in> set (paRejected ack)" "roOpId r = qiOpId i"
    using that byOpId_get [OF assms(2), of "qiOpId i" i] by (force simp: settleRejected_def)
  show "gone i (cbQueue (clDb cl'))" if e: "e = None" and i: "i \<in> set items" "r \<in> set (paRejected ack)"
    "roOpId r = qiOpId i" "givesUp i r"
  proof -
    have "removeQueueItemIfOp i \<in> set (concat (map (settleRejected env rnd items) (paRejected ack)))"
      using fn [OF i(1-3)] i(4) by simp
    then have "gone i (cbQueue (clDb cl3))"
    proof (rule queueTxs_once [where P = "gone i" and A = ?A, OF rej [OF e], rotated 2])
      show "\<And>f q. f \<in> set (concat (map (settleRejected env rnd items) (paRejected ack))) \<Longrightarrow> queue_ok q \<Longrightarrow> settled ?A q (f q)"
        by (rule fnsR)
    qed (use gone_settled gone_remove key i(1) in blast)+
    then show ?thesis using tail(6) [OF e] by simp
  qed
  show "answered i (cbQueue (clDb cl'))" if e: "e = None" and i: "i \<in> set items" "r \<in> set (paRejected ack)"
    "roOpId r = qiOpId i"
  proof -
    have "\<not> givesUp i r \<Longrightarrow> qiAttempts i + 1 < MAX_ATTEMPTS" by (auto simp: givesUp_def)
    then have "answered i ((if givesUp i r then removeQueueItemIfOp i else bumpQueueAttempts (ceNow env) rnd i) q)"
      if "queue_ok q" for q
      using answered_remove [OF that key [OF i(1)]] answered_bump [OF that key [OF i(1)]] by simp
    note ans = this
    from fn [OF i] have "answered i (cbQueue (clDb cl3))"
    proof (rule queueTxs_once [where P = "answered i" and A = ?A, OF rej [OF e], rotated 2])
      show "\<And>f q. f \<in> set (concat (map (settleRejected env rnd items) (paRejected ack))) \<Longrightarrow> queue_ok q \<Longrightarrow> settled ?A q (f q)"
        by (rule fnsR)
    qed (fact ans, fact settled_answered [OF assms(2) i(1)])
    then show ?thesis using tail(6) [OF e] by simp
  qed
  show "\<exists>fo \<in> set (loadFailedOps (clDb cl')). foOpId fo = qiOpId i \<and> foRecordId fo = qiRecordId i \<and> foCode fo = roCode r"
    if e: "e = None" and len: "length (paRejected ack) \<le> MAX_FAILED_OPS"
      and i: "i \<in> set items" "r \<in> set (paRejected ack)" "roOpId r = qiOpId i" "givesUp i r"
  proof -
    let ?ops = "concat (map (failedFor env items) (paRejected ack))"
    have "length (failedFor env items x) \<le> 1" for x by (simp add: failedFor_def split: option.split)
    then have "length ?ops \<le> length (paRejected ack)" by (rule length_concat_le)
    then have "set ?ops \<subseteq> set (loadFailedOps (clDb cl'))" using noted_ops [of ?ops cl3] len ph(7) e by simp
    moreover have "\<exists>fo \<in> set ?ops. foOpId fo = qiOpId i \<and> foRecordId fo = qiRecordId i \<and> foCode fo = roCode r"
    proof -
      let ?fo = "\<lparr>foOpId = roOpId r, foTable = qiTable i, foRecordId = qiRecordId i, foCode = roCode r,
                 foMessage = roMessage r, foAt = ceNow env\<rparr>"
      have "tbl_get qiOpId (roOpId r) (byOpId items) = Some i" using i byOpId_get [OF assms(2)] by simp
      then have "failedFor env items r = [?fo]" using i(4) by (simp add: failedFor_def)
      then have "?fo \<in> set (failedFor env items r)" by simp
      then have "?fo \<in> set ?ops" unfolding set_concat set_map using i(2) by blast
      then show ?thesis using i(3) by (intro bexI [of _ ?fo]) simp_all
    qed
    ultimately show ?thesis by blast
  qed
qed

section \<open>The drain ends\<close>

definition cost :: "queue_item \<Rightarrow> nat" where
  "cost x = max 1 (MAX_ATTEMPTS - qiAttempts x)"

definition weight :: "queue_item list \<Rightarrow> nat" where
  "weight q = sum cost (set q)"

definition drain_ok :: "queue_item list \<Rightarrow> bool" where
  "drain_ok q \<longleftrightarrow> queue_ok q \<and> inj_on qiOpId (set q) \<and> (\<forall>x \<in> set q. qiOpId x \<noteq> '''')"

lemma bumped_cost: "bumped i x \<Longrightarrow> cost x < cost i"
  by (auto simp: bumped_def cost_def MAX_ATTEMPTS_def)

lemma queue_same_id:
  assumes "queue_ok q" "x \<in> set q" "y \<in> set q" "qiId x = qiId y"
  shows "x = y"
proof -
  have "tbl_ok qiId q" using assms(1) by (simp add: queue_ok_def idb_ok_tbl_ok)
  then show ?thesis using assms(2-4) by (auto simp: distinct_map dest: inj_onD)
qed

text \<open>Every entry after an answer stems from one before, which it has not become cheaper than.\<close>

lemma settled_origin:
  assumes "settled A q q'" "queue_ok q" "A \<subseteq> set q" "x' \<in> set q'"
  shows "\<exists>x \<in> set q. qiId x = qiId x' \<and> qiOpId x = qiOpId x' \<and> (x' = x \<or> x \<in> A \<and> bumped x x')"
proof -
  have ok': "queue_ok q'" using assms(1) by (rule settled_ok)
  have k': "queued (qiTable x') (qiRecordId x') q' = Some x'" using queued_mem [OF ok' assms(4)] .
  from settledD [OF assms(1) k'] show ?thesis
  proof
    assume "queued (qiTable x') (qiRecordId x') q = Some x'"
    then show ?thesis using queued_facts(1) [OF assms(2)] by blast
  next
    assume "\<exists>i \<in> A. \<exists>x. queued (qiTable x') (qiRecordId x') q = Some x \<and> qiOpId x = qiOpId i \<and> qiId x = qiId i \<and> bumped i x'"
    then obtain i x where ix: "i \<in> A" "queued (qiTable x') (qiRecordId x') q = Some x" "qiId x = qiId i" "bumped i x'"
      by blast
    have "x \<in> set q" using queued_facts(1) [OF assms(2) ix(2)] .
    then have "x = i" using queue_same_id [OF assms(2)] ix(1,3) assms(3) by blast
    with ix \<open>x \<in> set q\<close> show ?thesis by (auto simp: bumped_def)
  qed
qed

lemma settled_weight:
  assumes "settled A q q'" "drain_ok q" "A \<subseteq> set q"
  shows "drain_ok q'" "weight q' \<le> weight q" "i \<in> A \<Longrightarrow> answered i q' \<Longrightarrow> weight q' < weight q"
proof -
  have ok: "queue_ok q" "queue_ok q'" using assms(1,2) settled_ok by (auto simp: drain_ok_def)
  have "\<forall>x' \<in> set q'. \<exists>x. x \<in> set q \<and> qiId x = qiId x' \<and> qiOpId x = qiOpId x' \<and> (x' = x \<or> x \<in> A \<and> bumped x x')"
    using settled_origin [OF assms(1) ok(1) assms(3)] by blast
  then obtain g where g: "\<And>x'. x' \<in> set q' \<Longrightarrow> g x' \<in> set q \<and> qiId (g x') = qiId x' \<and> qiOpId (g x') = qiOpId x'
      \<and> (x' = g x' \<or> g x' \<in> A \<and> bumped (g x') x')" by metis
  have inj: "inj_on g (set q')" by (rule inj_onI) (metis g queue_same_id [OF ok(2)])
  have sub: "g ` set q' \<subseteq> set q" using g by blast
  have le: "cost x' \<le> cost (g x')" if "x' \<in> set q'" for x' using g [OF that] bumped_cost by (metis order_le_less)
  have opinj: "inj_on qiOpId (set q)" using assms(2) by (simp add: drain_ok_def)
  have "inj_on qiOpId (set q')"
  proof (rule inj_onI)
    fix x y assume xy: "x \<in> set q'" "y \<in> set q'" "qiOpId x = qiOpId y"
    then have "g x = g y" using g inj_onD [OF opinj] by metis
    with inj xy show "x = y" by (simp add: inj_on_eq_iff)
  qed
  moreover have "\<forall>x \<in> set q'. qiOpId x \<noteq> ''''" using g assms(2) by (metis drain_ok_def)
  ultimately show "drain_ok q'" using ok(2) by (simp add: drain_ok_def)
  have le_sum: "sum cost (set q') \<le> sum (cost \<circ> g) (set q')" by (rule sum_mono) (simp add: le)
  have im: "sum (cost \<circ> g) (set q') = sum cost (g ` set q')" by (rule sum.reindex [OF inj, symmetric])
  have sub_le: "sum cost (g ` set q') \<le> sum cost (set q)" by (rule sum_mono2) (use sub in auto)
  show "weight q' \<le> weight q" using le_sum im sub_le by (simp add: weight_def)
  assume i: "i \<in> A" "answered i q'"
  have iq: "i \<in> set q" using i(1) assms(3) by blast
  show "weight q' < weight q"
  proof (cases "i \<in> g ` set q'")
    case True
    then obtain x' where x': "x' \<in> set q'" "i = g x'" by blast
    then have k: "qiId x' = qiId i" "qiOpId x' = qiOpId i" using g by simp_all
    have "queued (qiTable i) (qiRecordId i) q' = Some x'"
      using queued_mem [OF ok(2) x'(1)] k(1) ok x'(1) iq
      by (metis queue_ok_def queueKey_eq)
    with i(2) k(2) have "bumped i x'" by (simp add: answered_def)
    then have "cost x' < (cost \<circ> g) x'" using x'(2) bumped_cost by simp
    then have "sum cost (set q') < sum (cost \<circ> g) (set q')"
      using x'(1) le by (intro sum_strict_mono_ex1) auto
    with im sub_le show ?thesis by (simp add: weight_def)
  next
    case False
    then have "g ` set q' \<subset> set q" using sub iq by blast
    moreover have "0 < cost i" by (simp add: cost_def)
    ultimately have "sum cost (g ` set q') < sum cost (set q)"
      using False iq by (intro sum_strict_mono2 [where b = i]) auto
    with le_sum im show ?thesis by (simp add: weight_def)
  qed
qed

end
