(* ===== verification/ClientDrain.thy ===== *)
theory ClientDrain
  imports ClientPushProps
begin

text \<open>
  Draining the outbox to its end (sync-push.ts). The contract a drain relies on is the locale
  \<open>push_backend\<close>: an answered batch answers each of its operations, and a backend that limits the
  rate does so finitely often. Under it every drain ends, and one that succeeds leaves only
  operations that are not due.
\<close>

section \<open>One batch\<close>

lemma getDeviceId_db:
  "getDeviceId u db = (d, db') \<Longrightarrow> cbQueue db' = cbQueue db \<and> cbTopics db' = cbTopics db \<and> cbCards db' = cbCards db"
  by (auto simp: getDeviceId_def setMeta_def split: option.splits if_splits)

lemma buildMutations_ok:
  assumes "buildMutations H env items cl = (Inr b, cl')" "distinct items"
  shows "caps_ok H b" "list_all2 (carries H env (clDb cl)) (mbItems b) (mbMutations b)"
    "same_rows (clDb cl) (clDb cl')" "clInFlight cl' = clInFlight cl"
    "\<exists>P Q. mbItems b = filter P items \<and> cbQueue (clDb cl') = filter Q (cbQueue (clDb cl))
        \<and> (\<forall>x. \<not> Q x \<longrightarrow> qiId x \<in> qiId ` set (filter (\<lambda>i. \<not> P i) items))"
proof -
  obtain d db where d: "getDeviceId (ceUuid env 0) (clDb cl) = (d, db)" by fastforce
  note db = getDeviceId_db [OF d]
  have r: "buildEach H env d 1 items emptyBatch (cl\<lparr>clDb := db\<rparr>) = (Inr b, cl')"
    using assms(1) d by (simp add: buildMutations_def)
  have "caps_ok H emptyBatch" by (simp add: caps_ok_def emptyBatch_def)
  moreover have "list_all2 (carries H env (clDb cl)) (mbItems emptyBatch) (mbMutations emptyBatch)"
    by (simp add: emptyBatch_def)
  moreover have "same_rows (clDb cl) (clDb (cl\<lparr>clDb := db\<rparr>))" using db by (simp add: same_rows_def)
  ultimately have *: "caps_ok H b \<and> list_all2 (carries H env (clDb cl)) (mbItems b) (mbMutations b)
      \<and> same_rows (clDb cl) (clDb cl') \<and> clInFlight cl' = clInFlight (cl\<lparr>clDb := db\<rparr>)
      \<and> (\<exists>P Q. mbItems b = mbItems emptyBatch @ filter P items
          \<and> cbQueue (clDb cl') = filter Q (cbQueue (clDb (cl\<lparr>clDb := db\<rparr>)))
          \<and> (\<forall>x. \<not> Q x \<longrightarrow> qiId x \<in> qiId ` set (filter (\<lambda>i. \<not> P i) items)))"
    by (rule buildEach_ok [OF r assms(2)])
  then show "caps_ok H b" "list_all2 (carries H env (clDb cl)) (mbItems b) (mbMutations b)"
    "same_rows (clDb cl) (clDb cl')" "clInFlight cl' = clInFlight cl" by simp_all
  from * show "\<exists>P Q. mbItems b = filter P items \<and> cbQueue (clDb cl') = filter Q (cbQueue (clDb cl))
        \<and> (\<forall>x. \<not> Q x \<longrightarrow> qiId x \<in> qiId ` set (filter (\<lambda>i. \<not> P i) items))"
    using db by (simp add: emptyBatch_def)
qed

lemma filter_ok:
  "queue_ok q \<Longrightarrow> queue_ok (filter Q q)"
  by (auto simp: queue_ok_def idb_ok_filter)

lemma drain_ok_filter: "drain_ok q \<Longrightarrow> drain_ok (filter Q q)"
  by (auto simp: drain_ok_def filter_ok intro: inj_on_subset)

lemma weight_filter: "weight (filter Q q) \<le> weight q"
  unfolding weight_def by (rule sum_mono2) auto

lemma queue_distinct: "queue_ok q \<Longrightarrow> distinct q"
  by (auto simp: queue_ok_def distinct_map dest: idb_ok_tbl_ok)

lemma batch_queue:
  assumes "buildMutations H env (getQueue (clDb cl)) cl = (Inr b, cl1)" "drain_ok (cbQueue (clDb cl))"
  shows "drain_ok (cbQueue (clDb cl1))" "weight (cbQueue (clDb cl1)) \<le> weight (cbQueue (clDb cl))"
    "set (mbItems b) \<subseteq> set (cbQueue (clDb cl1))" "keyed_items (mbItems b)"
    "length (mbItems b) = length (mbMutations b)"
    "\<And>i. i \<in> set (mbItems b) \<Longrightarrow> \<exists>m \<in> set (mbMutations b). muOpId m = qiOpId i"
proof -
  let ?q = "cbQueue (clDb cl)"
  have ok: "queue_ok ?q" "inj_on qiOpId (set ?q)" "\<forall>x \<in> set ?q. qiOpId x \<noteq> ''''"
    using assms(2) by (simp_all add: drain_ok_def)
  have dist: "distinct (getQueue (clDb cl))" using queue_distinct [OF ok(1)] by (simp add: getQueue_def)
  note bm = buildMutations_ok [OF assms(1) dist]
  from bm(5) obtain P Q where PQ: "mbItems b = filter P (getQueue (clDb cl))"
      "cbQueue (clDb cl1) = filter Q ?q"
      "\<And>x. \<not> Q x \<Longrightarrow> qiId x \<in> qiId ` set (filter (\<lambda>i. \<not> P i) (getQueue (clDb cl)))" by blast
  show "drain_ok (cbQueue (clDb cl1))" using assms(2) PQ(2) drain_ok_filter by simp
  show "weight (cbQueue (clDb cl1)) \<le> weight ?q" using PQ(2) weight_filter by simp
  show "set (mbItems b) \<subseteq> set (cbQueue (clDb cl1))"
  proof
    fix x assume "x \<in> set (mbItems b)"
    then have x: "x \<in> set ?q" "P x" using PQ(1) by (auto simp: getQueue_def)
    have "Q x"
    proof (rule ccontr)
      assume "\<not> Q x"
      from PQ(3) [OF this] obtain i where i: "qiId i = qiId x" "i \<in> set ?q" "\<not> P i" by (auto simp: getQueue_def)
      with queue_same_id [OF ok(1) i(2) x(1)] x(2) show False by simp
    qed
    with x PQ(2) show "x \<in> set (cbQueue (clDb cl1))" by simp
  qed
  have "inj_on qiOpId (set (filter P (getQueue (clDb cl))))"
    using ok(2) by (rule inj_on_subset) (auto simp: getQueue_def)
  then show "keyed_items (mbItems b)"
    using ok(1) dist PQ(1) by (auto simp: keyed_items_def distinct_map queue_ok_def getQueue_def)
  show "length (mbItems b) = length (mbMutations b)" using bm(2) by (rule list_all2_lengthD)
  fix i assume i: "i \<in> set (mbItems b)"
  then obtain k where k: "k < length (mbItems b)" "mbItems b ! k = i" by (auto simp: in_set_conv_nth)
  then have c: "carries H env (clDb cl) i (mbMutations b ! k)" using list_all2_nthD [OF bm(2) k(1)] by simp
  have "qiOpId i \<noteq> ''''" using i PQ(1) ok(3) by (auto simp: getQueue_def)
  with c have "muOpId (mbMutations b ! k) = qiOpId i" by (simp add: carries_def)
  moreover have "mbMutations b ! k \<in> set (mbMutations b)" using k(1) list_all2_lengthD [OF bm(2)] by simp
  ultimately show "\<exists>m \<in> set (mbMutations b). muOpId m = qiOpId i" by blast
qed

lemma buildEach_drain_ok:
  "buildEach H env device k items b cl = (r, cl') \<Longrightarrow> drain_ok (cbQueue (clDb cl)) \<Longrightarrow> drain_ok (cbQueue (clDb cl'))"
proof (induction items arbitrary: k b cl)
  case (Cons item items)
  have step: "cl1 = cl \<or> cbQueue (clDb cl1) = removeQueueItem (qiId item) (cbQueue (clDb cl))"
    if "buildOne H env device k item b cl = x" "x = Stop cl1 \<or> x = Fail e cl1 \<or> x = Next b1 cl1" for x cl1 e b1
    using that buildOne_Next [of H env device k item b cl b1 cl1]
    by (auto simp: buildOne_def added_def dropItem_def split: if_splits sync_operation.splits sync_table.splits
        option.splits prod.splits sum.splits dest!: queueTx_cases)
  have keep: "drain_ok (cbQueue (clDb cl1))"
    if "buildOne H env device k item b cl = x" "x = Stop cl1 \<or> x = Fail e cl1 \<or> x = Next b1 cl1" for x cl1 e b1
    using step [OF that] Cons.prems(2) drain_ok_filter by (auto simp: removeQueueItem_def tbl_del_def)
  show ?case
  proof (cases "buildOne H env device k item b cl")
    case (Next b1 cl1)
    then show ?thesis using Cons.IH Cons.prems(1) keep by fastforce
  qed (use Cons.prems(1) keep in fastforce)+
qed simp

lemma failed_batch_queue:
  assumes "buildMutations H env (getQueue (clDb cl)) cl = (Inl e, cl1)" "drain_ok (cbQueue (clDb cl))"
  shows "drain_ok (cbQueue (clDb cl1))"
proof -
  obtain d db where d: "getDeviceId (ceUuid env 0) (clDb cl) = (d, db)" by fastforce
  have r: "buildEach H env d 1 (getQueue (clDb cl)) emptyBatch (cl\<lparr>clDb := db\<rparr>) = (Inl e, cl1)"
    using assms(1) d by (simp add: buildMutations_def)
  show ?thesis by (rule buildEach_drain_ok [OF r]) (use assms(2) getDeviceId_db [OF d] in simp)
qed

text \<open>An empty batch: nothing that is left is due.\<close>

definition idle_queue :: "ms \<Rightarrow> queue_item list \<Rightarrow> bool" where
  "idle_queue now q \<longleftrightarrow> (\<forall>x \<in> set q. of_int now < qiNextRetryAt x)"

lemma buildOne_queue:
  "buildOne H env device k item b cl = Next b' cl' \<Longrightarrow> cbQueue (clDb cl') = cbQueue (clDb cl)
     \<or> cbQueue (clDb cl') = removeQueueItem (qiId item) (cbQueue (clDb cl))"
  by (drule buildOne_Next) auto

lemma buildEach_shrinks:
  "buildEach H env device k items b cl = (Inr b', cl') \<Longrightarrow> set (cbQueue (clDb cl')) \<subseteq> set (cbQueue (clDb cl))"
proof (induction items arbitrary: k b cl)
  case (Cons item items)
  show ?case
  proof (cases "buildOne H env device k item b cl")
    case (Next b1 cl1)
    with Cons.prems have "buildEach H env device (Suc k) items b1 cl1 = (Inr b', cl')" by simp
    then have "set (cbQueue (clDb cl')) \<subseteq> set (cbQueue (clDb cl1))" by (rule Cons.IH)
    moreover have "set (cbQueue (clDb cl1)) \<subseteq> set (cbQueue (clDb cl))"
      using buildOne_queue [OF Next] by (auto simp: removeQueueItem_def tbl_del_def)
    ultimately show ?thesis by blast
  next
    case (Stop cl1)
    then have "cl1 = cl"
      by (auto simp: buildOne_def added_def dropItem_def split: if_splits sync_operation.splits sync_table.splits
          option.splits prod.splits sum.splits)
    with Stop Cons.prems show ?thesis by simp
  qed (use Cons.prems in simp)
qed simp

lemma buildOne_empty:
  assumes "mbMutations b = []"
  shows "case buildOne H env device k item b cl of
      Next b' cl' \<Rightarrow> mbMutations b' \<noteq> [] \<or> of_int (ceNow env) < qiNextRetryAt item
          \<or> cbQueue (clDb cl') = removeQueueItem (qiId item) (cbQueue (clDb cl))
    | Stop cl' \<Rightarrow> False | Fail e cl' \<Rightarrow> True"
proof -
  have fits: "tryAdd H item m b = Some (b\<lparr>mbMutations := [m], mbItems := mbItems b @ [item],
      mbBytes := mbBytes b + mutationBytes H m\<rparr>)" for m
    using assms by (simp add: tryAdd_def)
  have drop: "case dropItem env k item b cl of
      Next b' cl' \<Rightarrow> cbQueue (clDb cl') = removeQueueItem (qiId item) (cbQueue (clDb cl))
    | Stop cl' \<Rightarrow> False | Fail e cl' \<Rightarrow> True"
    by (auto simp: dropItem_def split: prod.splits option.splits dest!: queueTx_cases)
  consider "of_int (ceNow env) < qiNextRetryAt item" | "\<not> of_int (ceNow env) < qiNextRetryAt item" by blast
  then show ?thesis
  proof cases
    case 1
    then show ?thesis by (simp add: buildOne_def)
  next
    case 2
    then show ?thesis
      using assms drop
      by (auto simp: buildOne_def MAX_PUSH_BATCH_def added_def fits split: sync_operation.splits sync_table.splits
          option.splits sum.splits build_step.splits)
  qed
qed

lemma tryAdd_grows: "tryAdd H item m b = Some b' \<Longrightarrow> mbMutations b' \<noteq> []"
  by (auto simp: tryAdd_Some)

lemma buildEach_grows:
  assumes "buildEach H env device k items b cl = (Inr b', cl')" "mbMutations b \<noteq> []"
  shows "mbMutations b' \<noteq> []"
  using assms
proof (induction items arbitrary: k b cl)
  case (Cons item items)
  show ?case
  proof (cases "buildOne H env device k item b cl")
    case (Next b1 cl1)
    then have "mbMutations b1 \<noteq> []" using buildOne_Next [OF Next] Cons.prems(2) by (auto dest!: tryAdd_items)
    moreover from Next Cons.prems have "buildEach H env device (Suc k) items b1 cl1 = (Inr b', cl')" by simp
    ultimately show ?thesis using Cons.IH by blast
  qed (use Cons.prems in auto)
qed simp

lemma buildEach_empty:
  "buildEach H env device k items b cl = (Inr b', cl') \<Longrightarrow> mbMutations b' = [] \<Longrightarrow> x \<in> set (cbQueue (clDb cl')) \<Longrightarrow>
   qiId x \<in> qiId ` set items \<Longrightarrow> (\<And>i. i \<in> set items \<Longrightarrow> qiId i = qiId x \<Longrightarrow> i = x) \<Longrightarrow>
   of_int (ceNow env) < qiNextRetryAt x"
proof (induction items arbitrary: k b cl)
  case (Cons item items)
  have b: "mbMutations b = []" using buildEach_grows [OF Cons.prems(1)] Cons.prems(2) by blast
  show ?case
  proof (cases "buildOne H env device k item b cl")
    case (Next b1 cl1)
    then have r: "buildEach H env device (Suc k) items b1 cl1 = (Inr b', cl')" using Cons.prems(1) by simp
    have b1: "mbMutations b1 = []" using buildEach_grows [OF r] Cons.prems(2) by blast
    show ?thesis
    proof (cases "qiId x \<in> qiId ` set items")
      case True
      then show ?thesis using Cons.IH [OF r Cons.prems(2,3)] Cons.prems(5) by auto
    next
      case False
      then have x: "item = x" using Cons.prems(4,5) by (metis image_insert insertE list.set(2) list.set_intros(1))
      from buildOne_empty [OF b, where env = env and k = k and item = item and H = H and device = device and cl = cl] Next b1
      have "of_int (ceNow env) < qiNextRetryAt item \<or> cbQueue (clDb cl1) = removeQueueItem (qiId item) (cbQueue (clDb cl))"
        by simp
      moreover have "x \<in> set (cbQueue (clDb cl1))" using buildEach_shrinks [OF r] Cons.prems(3) by blast
      ultimately show ?thesis using x by (auto simp: removeQueueItem_def tbl_del_def)
    qed
  next
    case (Stop cl1)
    with buildOne_empty [OF b, where env = env and k = k and item = item and H = H and device = device and cl = cl] show ?thesis by simp
  qed (use Cons.prems in simp)
qed simp

lemma empty_batch_idle:
  assumes "buildMutations H env (getQueue (clDb cl)) cl = (Inr b, cl1)" "mbMutations b = []"
    "queue_ok (cbQueue (clDb cl))"
  shows "idle_queue (ceNow env) (cbQueue (clDb cl1))"
  unfolding idle_queue_def
proof
  fix x assume x: "x \<in> set (cbQueue (clDb cl1))"
  obtain d db where d: "getDeviceId (ceUuid env 0) (clDb cl) = (d, db)" by fastforce
  have r: "buildEach H env d 1 (getQueue (clDb cl)) emptyBatch (cl\<lparr>clDb := db\<rparr>) = (Inr b, cl1)"
    using assms(1) d by (simp add: buildMutations_def)
  have "x \<in> set (cbQueue (clDb cl))" using buildEach_shrinks [OF r] x getDeviceId_db [OF d] by auto
  moreover have "i = x" if "i \<in> set (getQueue (clDb cl))" "qiId i = qiId x" for i
    using queue_same_id [OF assms(3)] that \<open>x \<in> set (cbQueue (clDb cl))\<close> by (simp add: getQueue_def)
  ultimately show "of_int (ceNow env) < qiNextRetryAt x"
    by (intro buildEach_empty [OF r assms(2) x]) (auto simp: getQueue_def)
qed

section \<open>Errors that are not rate limits\<close>

definition unlimited :: "call_env \<Rightarrow> bool" where
  "unlimited env \<longleftrightarrow> (\<forall>k e. ceFault env k = Some e \<longrightarrow> \<not> isRateLimited e)"

lemma mapped_limit [simp]: "isRateLimited (mapTransactionError e) \<longleftrightarrow> isRateLimited e \<and> \<not> isQuotaExceededError e"
  by (auto simp: mapTransactionError_def isRateLimited_def)

lemma queueTx_limit: "unlimited env \<Longrightarrow> queueTx env k f cl = (Some e, cl') \<Longrightarrow> \<not> isRateLimited e"
  by (auto simp: queueTx_def withTransaction_def unlimited_def split: option.splits)

lemma queueTxs_limit: "unlimited env \<Longrightarrow> queueTxs env k fs cl = (Some e, cl') \<Longrightarrow> \<not> isRateLimited e"
proof (induction fs arbitrary: k cl)
  case (Cons f fs)
  then show ?case by (auto split: prod.splits option.splits dest: queueTx_limit)
qed simp

lemma putTopicRow_limit: "putTopicRow t db = Inl e \<Longrightarrow> \<not> isRateLimited e"
  by (auto simp: putTopicRow_def isRateLimited_def split: if_splits)

lemma conflict_limit: "unlimited env \<Longrightarrow> applyTopicConflict env k c cl = (Some e, cl') \<Longrightarrow> \<not> isRateLimited e"
  by (auto simp: applyTopicConflict_def putLocalTopic_def withTransaction_def unlimited_def
      split: option.splits prod.splits sum.splits dest: putTopicRow_limit)

lemma settleConflicts_limit:
  "unlimited env \<Longrightarrow> settleConflicts env k items cs cl = (Some e, cl') \<Longrightarrow> \<not> isRateLimited e"
proof (induction cs arbitrary: k cl)
  case (Cons c cs)
  then show ?case by (auto split: prod.splits option.splits dest: queueTx_limit conflict_limit)
qed simp

lemma ack_limit:
  "unlimited env \<Longrightarrow> applyPushAck env rnd ack items cl = (Some e, cl') \<Longrightarrow> \<not> isRateLimited e"
  by (auto simp: applyPushAck_def Let_def split: prod.splits option.splits
      dest: queueTxs_limit settleConflicts_limit)

section \<open>The contract of a drain\<close>

text \<open>
  A world with one backend over HTTP whose object store and transactions never report a rate
  limit, and in which the user leaves the client alone while it drains.
\<close>

definition steady_world :: "(mutation list \<Rightarrow> 's \<Rightarrow> (client_error + push_ack) \<times> 's) \<Rightarrow> id \<Rightarrow> 's push_world \<Rightarrow> bool" where
  "steady_world push d w \<longleftrightarrow> pwHttp w d = push \<and> pwRealtime w = None
     \<and> (\<forall>n cl. pwMeanwhile w n cl = cl) \<and> (\<forall>n. unlimited (pwAckEnv w n))
     \<and> (\<forall>bm e. uploadOwnedMedia (pwMedia w) bm = Inl e \<longrightarrow> \<not> isRateLimited e)"

definition answers_all :: "push_ack \<Rightarrow> mutation list \<Rightarrow> bool" where
  "answers_all ack ms \<longleftrightarrow> (\<forall>m \<in> set ms. muOpId m \<in> set (paAcceptedOpIds ack) \<union> roOpId ` set (paRejected ack))"

text \<open>
  A backend whose answers name every operation of the batch, and that does not limit for ever:
  in its good states each limited push uses up \<open>patience\<close>, of which there is never more than \<open>most\<close>.
\<close>

locale push_backend =
  fixes push :: "mutation list \<Rightarrow> 's \<Rightarrow> (client_error + push_ack) \<times> 's"
    and good :: "'s \<Rightarrow> bool"
    and patience :: "'s \<Rightarrow> nat"
    and most :: nat
  assumes answers: "good s \<Longrightarrow> push ms s = (Inr ack, s') \<Longrightarrow> answers_all ack ms"
    and good_kept: "good s \<Longrightarrow> push ms s = (r, s') \<Longrightarrow> good s'"
    and patient: "good s \<Longrightarrow> patience s \<le> most"
    and limits_end: "good s \<Longrightarrow> push ms s = (Inl e, s') \<Longrightarrow> isRateLimited e \<Longrightarrow> patience s' < patience s"
begin

lemma one_batch:
  assumes "pushBatchOnce w n d b cl s = (r, cl', s')" "steady_world push d w" "good s"
    and "drain_ok (cbQueue (clDb cl))" "set (mbItems b) \<subseteq> set (cbQueue (clDb cl))" "keyed_items (mbItems b)"
    and "i \<in> set (mbItems b)" "\<exists>m \<in> set (mbMutations b). muOpId m = qiOpId i"
  shows "drain_ok (cbQueue (clDb cl'))" "weight (cbQueue (clDb cl')) \<le> weight (cbQueue (clDb cl))"
    "good s'" "r = Inr a \<Longrightarrow> weight (cbQueue (clDb cl')) < weight (cbQueue (clDb cl))"
    "r = Inl e \<Longrightarrow> isRateLimited e \<Longrightarrow> patience s' < patience s"
proof -
  let ?q = "cbQueue (clDb cl)" and ?q' = "cbQueue (clDb cl')"
  have w: "pwHttp w d = push" "pwRealtime w = None" "\<And>n cl. pwMeanwhile w n cl = cl"
    "\<And>n. unlimited (pwAckEnv w n)" "\<And>bm e. uploadOwnedMedia (pwMedia w) bm = Inl e \<Longrightarrow> \<not> isRateLimited e"
    using assms(2) by (auto simp: steady_world_def)
  have "drain_ok ?q' \<and> weight ?q' \<le> weight ?q \<and> good s'
    \<and> (\<forall>a. r = Inr a \<longrightarrow> weight ?q' < weight ?q) \<and> (\<forall>e. r = Inl e \<longrightarrow> isRateLimited e \<longrightarrow> patience s' < patience s)"
  proof (cases "uploadOwnedMedia (pwMedia w) (mbMedia b)")
    case (Inl e)
    then have "r = Inl e" "cl' = cl" "s' = s" "\<not> isRateLimited e"
      using assms(1) w(3,5) by (auto simp: pushBatchOnce_def)
    then show ?thesis using assms(3,4) by simp
  next
    case up: (Inr u)
    obtain x s1 where p: "push (mbMutations b) s = (x, s1)" by fastforce
    show ?thesis
    proof (cases x)
      case (Inl e)
      then have "r = Inl e" "cl' = cl" "s' = s1"
        using assms(1) up p w(1-3) by (simp_all add: pushBatchOnce_def sendBatch_def Let_def)
      then show ?thesis using assms(3,4) p Inl good_kept limits_end by auto
    next
      case (Inr ack)
      obtain f cl2 where a: "applyPushAck (pwAckEnv w n) (pwRandom w n) ack (mbItems b) (setConnection ConnHttp cl) = (f, cl2)"
        by fastforce
      have res: "cl' = cl2" "s' = s1" "\<And>a. r = Inr a \<Longrightarrow> f = None" "\<And>e. r = Inl e \<Longrightarrow> f = Some e"
        using assms(1) up p w(1-3) Inr a
        by (auto simp: pushBatchOnce_def sendBatch_def Let_def split: option.splits)
      have q: "cbQueue (clDb (setConnection ConnHttp cl)) = ?q" by (simp add: setConnection_def)
      have qok: "queue_ok (cbQueue (clDb (setConnection ConnHttp cl)))" using assms(4) q by (simp add: drain_ok_def)
      note aq = ack_queue [OF a assms(6) qok, unfolded q]
      have sub: "answeredBy ack (mbItems b) \<subseteq> set ?q" using assms(5) by (auto simp: answeredBy_def)
      note sw = settled_weight [OF aq(1) assms(4) sub]
      have "weight ?q' < weight ?q" if "f = None"
      proof -
        have "answers_all ack (mbMutations b)" using p Inr answers assms(3) by blast
        with assms(8) have "qiOpId i \<in> set (paAcceptedOpIds ack) \<union> roOpId ` set (paRejected ack)"
          by (metis answers_all_def)
        then have A: "i \<in> answeredBy ack (mbItems b)" "answered i (cbQueue (clDb cl2))"
          using assms(7) aq(2,4) [OF that assms(7)] by (auto simp: answeredBy_def gone_def answered_def)
        then show ?thesis using sw(3) res(1) by simp
      qed
      moreover have "\<not> isRateLimited e" if "f = Some e" for e using ack_limit [OF w(4)] a that by blast
      ultimately show ?thesis using sw(1,2) res good_kept [OF assms(3) p] by auto
    qed
  qed
  then show "drain_ok ?q'" "weight ?q' \<le> weight ?q" "good s'"
    "r = Inr a \<Longrightarrow> weight ?q' < weight ?q" "r = Inl e \<Longrightarrow> isRateLimited e \<Longrightarrow> patience s' < patience s"
    by blast+
qed

text \<open>A drain with fuel for every answer and every limit before it ends; one that succeeds leaves nothing due.\<close>

lemma drain_ends:
  assumes "steady_world push d w"
  shows "drain_ok (cbQueue (clDb cl)) \<Longrightarrow> good s \<Longrightarrow> weight (cbQueue (clDb cl)) * Suc most + patience s < fuel \<Longrightarrow>
    \<exists>r waits cl' s'. pushLoop fuel H w d n delay acc cl s = Some (r, waits, cl', s')
      \<and> drain_ok (cbQueue (clDb cl'))
      \<and> (\<forall>a. r = Inr a \<longrightarrow> (\<exists>k. idle_queue (ceNow (pwEnv w k)) (cbQueue (clDb cl'))))"
proof (induction fuel arbitrary: n delay acc cl s)
  case (Suc fuel)
  let ?q = "cbQueue (clDb cl)"
  have qok: "queue_ok ?q" using Suc.prems(1) by (simp add: drain_ok_def)
  show ?case
  proof (cases "getQueue (clDb cl) = []")
    case True
    then have "set ?q = {}" by (metis getQueue_def set_empty set_sort)
    then have "?q = []" by simp
    with True Suc.prems(1) show ?thesis by (simp add: idle_queue_def)
  next
    case ne: False
    obtain x cl1 where b: "buildMutations H (pwEnv w n) (getQueue (clDb cl)) cl = (x, cl1)" by fastforce
    show ?thesis
    proof (cases x)
      case (Inl e)
      have "drain_ok (cbQueue (clDb cl1))" using failed_batch_queue [OF b [unfolded Inl] Suc.prems(1)] .
      with ne b Inl show ?thesis by simp
    next
      case (Inr bt)
      note bq = batch_queue [OF b [unfolded Inr] Suc.prems(1)]
      show ?thesis
      proof (cases "mbMutations bt = []")
        case True
        with empty_batch_idle [OF b [unfolded Inr] True qok] bq(1) ne b Inr show ?thesis by auto
      next
        case full: False
        then obtain i where i: "i \<in> set (mbItems bt)" using bq(5) by (cases "mbItems bt") auto
        let ?ops = "set (map qiOpId (mbItems bt))"
        let ?in = "cl1\<lparr>clInFlight := clInFlight cl1 \<union> ?ops\<rparr>"
        obtain r cl2 s1 where p: "pushBatchOnce w n d bt ?in s = (r, cl2, s1)" by (cases "pushBatchOnce w n d bt ?in s")
        have "drain_ok (cbQueue (clDb ?in))" "set (mbItems bt) \<subseteq> set (cbQueue (clDb ?in))" using bq(1,3) by simp_all
        note ob = one_batch [OF p assms Suc.prems(2) this bq(4) i bq(6) [OF i]]
        let ?cl3 = "cl2\<lparr>clInFlight := clInFlight cl2 - ?ops\<rparr>"
        have ok3: "drain_ok (cbQueue (clDb ?cl3))" using ob(1) by simp
        show ?thesis
        proof (cases r)
          case acc: (Inr a)
          have "Suc (weight (cbQueue (clDb ?cl3))) \<le> weight ?q" using ob(4) acc bq(2) by simp
          then have "Suc (weight (cbQueue (clDb ?cl3))) * Suc most \<le> weight ?q * Suc most" by (rule mult_le_mono1)
          then have "weight (cbQueue (clDb ?cl3)) * Suc most + patience s1 < fuel"
            using patient [OF ob(3)] Suc.prems(3) by simp
          from Suc.IH [OF ok3 ob(3) this] show ?thesis using ne b Inr full p acc by (simp add: Let_def)
        next
          case lim: (Inl e)
          show ?thesis
          proof (cases "isRateLimited e")
            case True
            have "weight (cbQueue (clDb ?cl3)) \<le> weight ?q" using ob(2) bq(2) by simp
            then have "weight (cbQueue (clDb ?cl3)) * Suc most \<le> weight ?q * Suc most" by (rule mult_le_mono1)
            then have "weight (cbQueue (clDb ?cl3)) * Suc most + patience s1 < fuel"
              using ob(5) [OF lim True] Suc.prems(3) by simp
            from Suc.IH [OF ok3 ob(3) this, of "Suc n" "min MAX_RATE_LIMIT_DELAY_MS (delay * 2)" acc] obtain r' ws cl' s' where
              "pushLoop fuel H w d (Suc n) (min MAX_RATE_LIMIT_DELAY_MS (delay * 2)) acc ?cl3 s1 = Some (r', ws, cl', s')"
              "drain_ok (cbQueue (clDb cl'))"
              "\<forall>a. r' = Inr a \<longrightarrow> (\<exists>k. idle_queue (ceNow (pwEnv w k)) (cbQueue (clDb cl')))" by blast
            then show ?thesis using ne b Inr full p lim True by (simp add: Let_def)
          next
            case False
            with ok3 show ?thesis using ne b Inr full p lim by (simp add: Let_def)
          qed
        qed
      qed
    qed
  qed
qed simp

end

section \<open>Properties\<close>

text \<open>
  C28. A batch stays within the caps the server enforces (fifty mutations, and 700 kB of text
  unless it holds a single mutation), carries only operations of the queue that are due, in their
  order, and the mutation of each carries the row as it is stored when the batch is built.
\<close>

theorem batch_carries_due_operations:
  assumes "buildMutations H env items cl = (Inr b, cl')" "distinct items"
  shows "length (mbMutations b) \<le> MAX_PUSH_BATCH
    \<and> (length (mbMutations b) \<le> 1 \<or> 256 + sum_list (map (mutationBytes H) (mbMutations b)) \<le> MAX_PUSH_BYTES)
    \<and> (\<exists>P. mbItems b = filter P items)
    \<and> list_all2 (carries H env (clDb cl)) (mbItems b) (mbMutations b)
    \<and> cbTopics (clDb cl') = cbTopics (clDb cl) \<and> cbCards (clDb cl') = cbCards (clDb cl)"
proof -
  note ok = buildMutations_ok [OF assms]
  from ok(1) have "length (mbMutations b) \<le> MAX_PUSH_BATCH"
    "length (mbMutations b) \<le> 1 \<or> 256 + sum_list (map (mutationBytes H) (mbMutations b)) \<le> MAX_PUSH_BYTES"
    by (auto simp: caps_ok_def)
  with ok(2,3,5) show ?thesis by (auto simp: same_rows_def)
qed

definition queued_delete :: queue_item where
  "queued_delete = \<lparr>qiId = queueKey Topics ''t'', qiOpId = ''o1'', qiTable = Topics, qiRecordId = ''t'',
     qiOperation = Delete, qiCreatedAt = 5, qiAttempts = 0, qiNextRetryAt = 0\<rparr>"

definition queue_client :: client where
  "queue_client = study_client\<lparr>clDb := (clDb study_client)\<lparr>cbQueue := [queued_delete]\<rparr>\<rparr>"

lemma batch_carries_due_operations_witness:
  "\<exists>b cl'. buildMutations sample_host plain_env [queued_delete] queue_client = (Inr b, cl')
     \<and> map muOpId (mbMutations b) = [''o1'']
     \<and> list_all2 (carries sample_host plain_env (clDb queue_client)) (mbItems b) (mbMutations b)"
proof -
  have "case buildMutations sample_host plain_env [queued_delete] queue_client of
      (Inr b, cl') \<Rightarrow> map muOpId (mbMutations b) = [''o1''] | _ \<Rightarrow> False"
    by code_simp
  then obtain b cl' where b: "buildMutations sample_host plain_env [queued_delete] queue_client = (Inr b, cl')"
    "map muOpId (mbMutations b) = [''o1'']" by (auto split: prod.splits sum.splits)
  with batch_carries_due_operations [OF b(1)] show ?thesis by auto
qed

text \<open>
  C29. Settling an answer touches exactly the operations it names. An entry of the queue whose
  operation the answer does not name (an edit made while the batch was under way, too) is still
  there unchanged, no entry appears, and one that changes only counts an attempt. When settling
  succeeds, accepted operations and those given up are gone, and of those given up the failure
  is kept for the user.
\<close>

theorem ack_settles_its_operations:
  assumes "applyPushAck env rnd ack items cl = (None, cl')" "keyed_items items" "queue_ok (cbQueue (clDb cl))"
    and "length (paRejected ack) \<le> MAX_FAILED_OPS"
  shows "queue_ok (cbQueue (clDb cl'))
    \<and> (\<forall>t r x. queued t r (cbQueue (clDb cl)) = Some x \<and> qiOpId x \<notin> qiOpId ` answeredBy ack items \<longrightarrow>
         queued t r (cbQueue (clDb cl')) = Some x)
    \<and> (\<forall>t r x'. queued t r (cbQueue (clDb cl')) = Some x' \<longrightarrow>
         (\<exists>x. queued t r (cbQueue (clDb cl)) = Some x \<and> qiOpId x = qiOpId x'))
    \<and> (\<forall>i \<in> set items. qiOpId i \<in> set (paAcceptedOpIds ack) \<longrightarrow> gone i (cbQueue (clDb cl')))
    \<and> (\<forall>i \<in> set items. \<forall>r \<in> set (paRejected ack). roOpId r = qiOpId i \<and> givesUp i r \<longrightarrow>
         gone i (cbQueue (clDb cl')) \<and> (\<exists>fo \<in> set (loadFailedOps (clDb cl')).
           foOpId fo = qiOpId i \<and> foRecordId fo = qiRecordId i \<and> foCode fo = roCode r))"
proof (intro conjI)
  note aq = ack_queue [OF assms(1-3)]
  show "queue_ok (cbQueue (clDb cl'))" using aq(1) by (rule settled_ok)
  show "\<forall>t r x. queued t r (cbQueue (clDb cl)) = Some x \<and> qiOpId x \<notin> qiOpId ` answeredBy ack items \<longrightarrow>
         queued t r (cbQueue (clDb cl')) = Some x"
    using aq(1) unfolding settled_def image_iff by metis
  show "\<forall>t r x'. queued t r (cbQueue (clDb cl')) = Some x' \<longrightarrow>
         (\<exists>x. queued t r (cbQueue (clDb cl)) = Some x \<and> qiOpId x = qiOpId x')"
  proof (intro allI impI)
    fix t r x' assume "queued t r (cbQueue (clDb cl')) = Some x'"
    from settledD [OF aq(1) this] show "\<exists>x. queued t r (cbQueue (clDb cl)) = Some x \<and> qiOpId x = qiOpId x'"
      by (auto simp: bumped_def)
  qed
  show "\<forall>i \<in> set items. qiOpId i \<in> set (paAcceptedOpIds ack) \<longrightarrow> gone i (cbQueue (clDb cl'))"
    using aq(2) by blast
  show "\<forall>i \<in> set items. \<forall>r \<in> set (paRejected ack). roOpId r = qiOpId i \<and> givesUp i r \<longrightarrow>
         gone i (cbQueue (clDb cl')) \<and> (\<exists>fo \<in> set (loadFailedOps (clDb cl')).
           foOpId fo = qiOpId i \<and> foRecordId fo = qiRecordId i \<and> foCode fo = roCode r)"
    using aq(3) aq(5) [OF refl assms(4)] by blast
qed

definition refusing_ack :: push_ack where
  "refusing_ack = \<lparr>paAcceptedOpIds = [], paRejected = [\<lparr>roOpId = ''o1'', roCode = ''FORBIDDEN'', roMessage = ''no'',
     roRetryable = False\<rparr>], paConflicts = []\<rparr>"

lemma ack_settles_its_operations_witness:
  "\<exists>cl'. applyPushAck plain_env 0 refusing_ack [queued_delete] queue_client = (None, cl')
     \<and> gone queued_delete (cbQueue (clDb cl'))
     \<and> (\<exists>fo \<in> set (loadFailedOps (clDb cl')). foOpId fo = ''o1'' \<and> foRecordId fo = ''t'' \<and> foCode fo = ''FORBIDDEN'')"
proof -
  have "fst (applyPushAck plain_env 0 refusing_ack [queued_delete] queue_client) = None" by code_simp
  then obtain cl' where a: "applyPushAck plain_env 0 refusing_ack [queued_delete] queue_client = (None, cl')"
    by (metis prod.collapse)
  have k: "keyed_items [queued_delete]" "queue_ok (cbQueue (clDb queue_client))"
    "length (paRejected refusing_ack) \<le> MAX_FAILED_OPS"
    by (simp_all add: keyed_items_def queue_ok_def queue_client_def queued_delete_def refusing_ack_def MAX_FAILED_OPS_def)
  show ?thesis
    using ack_settles_its_operations [OF a k] a
    by (simp add: refusing_ack_def givesUp_def queued_delete_def)
qed

end
