(* ===== verification/SyncHttp.thy ===== *)
theory SyncHttp
  imports SyncGate ClientDrain
begin

text \<open>
  The HTTP client of the sync protocol (packages/sync-client/src/index.ts, with the error mapping of
  sync-http.client.ts) and its connection to the server of SyncHandlers.

  \<open>'s link\<close> is the network as the client sees it: one request and its response (\<open>None\<close>: \<open>fetch\<close>
  rejects), the access token, and the refresh after a 401. \<open>serverLink\<close> is the link whose other
  end is the model of the server.
\<close>

section \<open>The client\<close>

record wire_response =
  wrStatus :: int
  wrJson :: "jsv option"

record 's link =
  lkSend :: "string \<Rightarrow> string \<Rightarrow> string \<Rightarrow> 's \<Rightarrow> wire_response option \<times> 's"
  lkToken :: "'s \<Rightarrow> string option \<times> 's"
  lkUnauthorized :: "string \<Rightarrow> 's \<Rightarrow> string option \<times> 's"

definition errorCodeOf :: "jsv option \<Rightarrow> string" where
  "errorCodeOf body = (case body of
     None \<Rightarrow> '''' | Some v \<Rightarrow> (case getProp ''code'' (getProp ''error'' v) of JStr s \<Rightarrow> s | _ \<Rightarrow> ''''))"

text \<open>\<open>mapError\<close>: a \<open>SyncHttpError\<close> becomes an \<open>ApiError\<close> with its status and code.\<close>

definition readResponse :: "host \<Rightarrow> wire_response \<Rightarrow> client_error + envelope" where
  "readResponse H r =
     (if \<not> (200 \<le> wrStatus r \<and> wrStatus r < 300) then Inl (ApiError (errorCodeOf (wrJson r)) (wrStatus r))
      else case wrJson r of
        None \<Rightarrow> Inl (AppFailure ''SyntaxError'')
      | Some v \<Rightarrow> (case decodeEnvelope H (Inr v) of
          None \<Rightarrow> Inl (AppFailure ''Invalid envelope'') | Some e \<Rightarrow> Inr e))"

definition received :: "host \<Rightarrow> wire_response option \<times> 's \<Rightarrow> (client_error + envelope) \<times> 's" where
  "received H r = (case r of (None, s) \<Rightarrow> (Inl FetchTypeError, s) | (Some w, s) \<Rightarrow> (readResponse H w, s))"

definition post :: "host \<Rightarrow> 's link \<Rightarrow> string \<Rightarrow> envelope \<Rightarrow> 's \<Rightarrow> (client_error + envelope) \<times> 's" where
  "post H lk path e s =
     (case lkToken lk s of (token, s1) \<Rightarrow>
        if \<not> truthyStr token then (Inl (ApiError ''UNAUTHORIZED'' 401), s1)
        else
          (let body = encodeEnvelope H e in
           case lkSend lk path (the token) body s1 of
             (None, s2) \<Rightarrow> (Inl FetchTypeError, s2)
           | (Some r, s2) \<Rightarrow>
               if wrStatus r = 401 then
                 (case lkUnauthorized lk (the token) s2 of (fresh, s3) \<Rightarrow>
                    if truthyStr fresh then received H (lkSend lk path (the fresh) body s3)
                    else (readResponse H r, s3))
               else (readResponse H r, s2)))"

definition requestEnvelope :: "string \<Rightarrow> ms \<Rightarrow> id \<Rightarrow> payload \<Rightarrow> envelope" where
  "requestEnvelope mid sentAt deviceId p = \<lparr>enVersion = PROTOCOL_VERSION, enMessageId = mid, enCorrelationId = None,
     enDeviceId = deviceId, enSentAt = of_int sentAt, enTraceId = None, enPayload = p\<rparr>"

definition clientPush :: "host \<Rightarrow> 's link \<Rightarrow> string \<Rightarrow> ms \<Rightarrow> id \<Rightarrow> mutation list \<Rightarrow> 's \<Rightarrow> (client_error + push_ack) \<times> 's" where
  "clientPush H lk mid now deviceId ms s =
     (case post H lk ''/sync/push'' (requestEnvelope mid now deviceId (PushBatch ms)) s of
        (Inl e, s1) \<Rightarrow> (Inl e, s1)
      | (Inr r, s1) \<Rightarrow>
          (case enPayload r of PushAck ack \<Rightarrow> (Inr ack, s1) | _ \<Rightarrow> (Inl (AppFailure ''Expected PushAck''), s1)))"

definition deltaOf :: "(client_error + envelope) \<times> 's \<Rightarrow> (client_error + pull_delta) \<times> 's" where
  "deltaOf r = (case r of
     (Inl e, s) \<Rightarrow> (Inl e, s)
   | (Inr r, s) \<Rightarrow> (case enPayload r of PullDelta d \<Rightarrow> (Inr d, s) | _ \<Rightarrow> (Inl (AppFailure ''Expected PullDelta''), s)))"

definition clientPull :: "host \<Rightarrow> 's link \<Rightarrow> string \<Rightarrow> ms \<Rightarrow> id \<Rightarrow> string \<Rightarrow> 's \<Rightarrow> (client_error + pull_delta) \<times> 's" where
  "clientPull H lk mid now deviceId since s =
     deltaOf (post H lk ''/sync/pull'' (requestEnvelope mid now deviceId (PullRequest since)) s)"

definition clientBootstrap :: "host \<Rightarrow> 's link \<Rightarrow> string \<Rightarrow> ms \<Rightarrow> id \<Rightarrow> string \<Rightarrow> nat \<Rightarrow> 's
    \<Rightarrow> (client_error + pull_delta) \<times> 's" where
  "clientBootstrap H lk mid now deviceId lastPulledAt pending s =
     deltaOf (post H lk ''/sync/bootstrap'' (requestEnvelope mid now deviceId
       (Hello \<lparr>heLastPulledAt = lastPulledAt, hePendingOpCount = int pending, heProtocolVersion = PROTOCOL_VERSION\<rparr>)) s)"

section \<open>The server at the other end\<close>

text \<open>\<open>express.json({ limit: '1mb' })\<close> on the text of a request.\<close>

definition BODY_LIMIT :: nat where "BODY_LIMIT = 1048576"

definition readBody :: "host \<Rightarrow> string \<Rightarrow> parser_error + jsv" where
  "readBody H text =
     (if length text > BODY_LIMIT
      then Inl \<lparr>peStatus = Some 413, peExpose = True, peType = ''entity.too.large'', peMessage = ''request entity too large''\<rparr>
      else case jsonParse H text of
        None \<Rightarrow> Inl \<lparr>peStatus = Some 400, peExpose = True, peType = ''entity.parse.failed'', peMessage = ''Unexpected token''\<rparr>
      | Some v \<Rightarrow> Inr v)"

definition errorJson :: "error_body \<Rightarrow> jsv" where
  "errorJson e = JObj [(''error'', JObj [(''code'', JStr (ebCode e)), (''message'', JStr (ebMessage e))])]"

definition overWire :: "host \<Rightarrow> jsv \<Rightarrow> jsv option" where
  "overWire H v = jsonParse H (jsonStringify H v)"

definition errorResponse :: "host \<Rightarrow> error_body \<Rightarrow> wire_response" where
  "errorResponse H e = \<lparr>wrStatus = ebStatus e, wrJson = overWire H (errorJson e)\<rparr>"

fun replyResponse :: "host \<Rightarrow> reply \<Rightarrow> wire_response" where
  "replyResponse H (Envelope e msgs) = \<lparr>wrStatus = 200, wrJson = overWire H (encEnvelope e)\<rparr>"
| "replyResponse H _ = \<lparr>wrStatus = 200, wrJson = None\<rparr>"

definition routeOf :: "string \<Rightarrow> route option" where
  "routeOf path = (if path = ''/sync/push'' then Some RPush else if path = ''/sync/pull'' then Some RPull
     else if path = ''/sync/bootstrap'' then Some RBootstrap else None)"

definition serve :: "call \<Rightarrow> string option \<Rightarrow> string \<Rightarrow> string \<Rightarrow> string \<Rightarrow> backend \<Rightarrow> wire_response \<times> backend" where
  "serve c agent path token text b =
     (case readBody (caHost c) text of
        Inl e \<Rightarrow>
          (case clientFaultStatus e of
             None \<Rightarrow> (errorResponse (caHost c) (errorHandler (caProduction c) (OtherErr (peMessage e))), b)
           | Some st \<Rightarrow> (errorResponse (caHost c) (clientFaultBody e st), b))
      | Inr v \<Rightarrow>
          (case routeOf path of
             None \<Rightarrow> (\<lparr>wrStatus = 404, wrJson = None\<rparr>, b)
           | Some r \<Rightarrow>
               (case answer r c \<lparr>rqAuthorization = Some (bearerPrefix @ token), rqUserAgent = agent, rqBody = v\<rparr> b of
                  (Inl e, b1) \<Rightarrow> (errorResponse (caHost c) e, b1)
                | (Inr x, b1) \<Rightarrow> (replyResponse (caHost c) x, b1))))"

text \<open>The server behind the link: how many requests it served, its state, and the client's session.\<close>

record 't net =
  ntCalls :: nat
  ntBackend :: backend
  ntSession :: 't

record 't device =
  dvAgent :: "string option"
  dvToken :: "'t \<Rightarrow> string option \<times> 't"
  dvRefresh :: "string \<Rightarrow> 't \<Rightarrow> string option \<times> 't"

definition serverLink :: "(nat \<Rightarrow> call) \<Rightarrow> 't device \<Rightarrow> 't net link" where
  "serverLink calls dv = \<lparr>
     lkSend = (\<lambda>path token text s. case serve (calls (ntCalls s)) (dvAgent dv) path token text (ntBackend s) of
       (r, b) \<Rightarrow> (Some r, s\<lparr>ntCalls := Suc (ntCalls s), ntBackend := b\<rparr>)),
     lkToken = (\<lambda>s. case dvToken dv (ntSession s) of (t, x) \<Rightarrow> (t, s\<lparr>ntSession := x\<rparr>)),
     lkUnauthorized = (\<lambda>old s. case dvRefresh dv old (ntSession s) of (t, x) \<Rightarrow> (t, s\<lparr>ntSession := x\<rparr>))\<rparr>"

definition pushToServer :: "host \<Rightarrow> (nat \<Rightarrow> call) \<Rightarrow> 't device \<Rightarrow> (nat \<Rightarrow> string) \<Rightarrow> (nat \<Rightarrow> ms) \<Rightarrow> id \<Rightarrow> mutation list \<Rightarrow> 't net
    \<Rightarrow> (client_error + push_ack) \<times> 't net" where
  "pushToServer H calls dv mid sentAt deviceId ms s =
     clientPush H (serverLink calls dv) (mid (ntCalls s)) (sentAt (ntCalls s)) deviceId ms s"

end
