(* ===== verification/ClientServer.thy ===== *)
theory ClientServer
  imports SyncHttp "HOL-Library.Countable"
begin

text \<open>
  The outbox against the server: a push over HTTP satisfies the contract the drain of the outbox
  relies on (\<open>push_backend\<close>), so that a drain ends.
\<close>

section \<open>Reading what was written\<close>

definition json_text :: "host \<Rightarrow> bool" where
  "json_text H \<longleftrightarrow> (\<forall>e. overWire H (encEnvelope e) = Some (encEnvelope e)) \<and> (\<forall>b. overWire H (errorJson b) = Some (errorJson b))"

lemma mutation_op: "MutationSchema H (encMutation m) = Some m' \<Longrightarrow> muOpId m' = muOpId m"
  by (auto simp: MutationSchema_def encMutation_def ClientIdSchema_def decCheck_def bind_eq_Some_conv split: if_splits)

lemma mutations_ops: "those (map (MutationSchema H) (map encMutation ms)) = Some ms' \<Longrightarrow> map muOpId ms' = map muOpId ms"
  by (induction ms arbitrary: ms') (auto split: option.splits dest: mutation_op)

lemma batch_ops:
  assumes "SyncEnvelopeSchema H (encEnvelope e) = Some e'" "enPayload e = PushBatch ms" "enPayload e' = PushBatch ms'"
  shows "map muOpId ms' = map muOpId ms"
proof -
  have kind: "getProp ''kind'' (encEnvelope e) = JStr ''pushBatch''"
    "getProp ''pushBatch'' (encEnvelope e) = JObj [(''mutations'', JArr (map encMutation ms))]"
    using assms(2) by (simp_all add: encEnvelope_def optField_def split: option.splits)
  have "decPayload H ''pushBatch'' (encEnvelope e) = Some (PushBatch ms')"
    using assms(1,3) kind(1) by (auto simp: SyncEnvelopeSchema_def bind_eq_Some_conv split: if_splits)
  then have "PushBatchSchema H (JObj [(''mutations'', JArr (map encMutation ms))]) = Some ms'"
    using kind(2) by (simp add: decPayload_def)
  then show ?thesis
    by (auto simp: PushBatchSchema_def decCheck_def split: option.splits if_splits intro: mutations_ops)
qed

lemma error_not_envelope: "decodeEnvelope H (Inr (errorJson b)) = None"
  by (simp add: decodeEnvelope_def SyncEnvelopeSchema_def errorJson_def)

lemma reply_decodes:
  "decodeEnvelope H (Inr (encEnvelope (sendEnvelope c e (PushAck ack)))) = Some (sendEnvelope c e (PushAck ack))"
  by (simp add: decodeEnvelope_def envelope_value_roundtrip wf_envelope_def sendEnvelope_def serverEnvelope_def
      safeInt_def PROTOCOL_VERSION_def MAX_SAFE_INTEGER_def)

lemma send_payload: "enPayload (sendEnvelope c e p) = p"
  by (simp add: sendEnvelope_def serverEnvelope_def)

section \<open>What a push answers\<close>

lemma push_answers:
  assumes "applyPushBatch H S mid now u dev ms s = Inr (ack, msgs, s')"
  shows "set (paAcceptedOpIds ack) \<union> roOpId ` set (paRejected ack) = muOpId ` set ms"
proof -
  have "set_mset (mset (paAcceptedOpIds ack) + mset (map roOpId (paRejected ack))) = set_mset (mset (map muOpId ms))"
    by (simp only: push_ops [OF assms])
  then show ?thesis by simp
qed

lemma andThen_Inr: "andThen m f b = (Inr y, b') \<longleftrightarrow> (\<exists>x b1. m b = (Inr x, b1) \<and> f x b1 = (Inr y, b'))"
  by (auto simp: andThen_def split: prod.splits sum.splits)

lemma pushHandler_reply:
  assumes "pushHandler c auth rq b = (Inr x, b')"
  obtains e ms ack msgs where "SyncEnvelopeSchema (caHost c) (rqBody rq) = Some e" "enPayload e = PushBatch ms"
    "x = Envelope (sendEnvelope c e (PushAck ack)) msgs"
    "set (paAcceptedOpIds ack) \<union> roOpId ` set (paRejected ack) = muOpId ` set ms"
proof -
  obtain u e ms ack msgs b1 b2 where "parseBody (SyncEnvelopeSchema (caHost c)) (rqBody rq) = Inr e"
    "expectPush (enPayload e) = Inr ms" "applyPush c u (enDeviceId e) ms b1 = (Inr (ack, msgs), b2)"
    "x = Envelope (sendEnvelope c e (PushAck ack)) msgs"
    using assms by (auto simp: pushHandler_def andThen_Inr check_def ret_def)
  then show thesis
    by (intro that [of e ms ack msgs])
       (auto simp: parseBody_def expectPush_def applyPush_def dest: push_answers split: option.splits payload.splits sum.splits)
qed

section \<open>Which errors a push raises\<close>

text \<open>Not a rate limit, and not what the client refreshes its token for.\<close>

fun ordinary :: "apply_error \<Rightarrow> bool" where
  "ordinary (AppErr status code message) \<longleftrightarrow> status \<noteq> 429 \<and> status \<noteq> 401 \<and> code \<noteq> ''RATE_LIMITED''"
| "ordinary _ \<longleftrightarrow> True"

definition limit_free :: "'a handler \<Rightarrow> bool" where
  "limit_free m \<longleftrightarrow> (\<forall>b. bkLimiter (snd (m b)) = bkLimiter b \<and> (\<forall>e. fst (m b) = Inl e \<longrightarrow> ordinary e))"

named_theorems limit_free_rules "handlers that never answer with a limit"

lemma limit_free_andThen [limit_free_rules]: "limit_free m \<Longrightarrow> (\<And>x. limit_free (f x)) \<Longrightarrow> limit_free (andThen m f)"
  unfolding limit_free_def andThen_def by (simp split: prod.splits sum.splits) (metis fst_conv snd_conv)

lemma limit_free_check [limit_free_rules]: "(\<And>e. r = Inl e \<Longrightarrow> ordinary e) \<Longrightarrow> limit_free (check r)"
  by (simp add: limit_free_def check_def)

lemma limit_free_ret [limit_free_rules]: "limit_free (ret x)"
  by (simp add: limit_free_def ret_def)

lemma limit_free_pro [limit_free_rules]: "limit_free (requirePro c u)"
  by (auto simp: limit_free_def requirePro_def assertPlan_def getSubscription_def ensureUserSettings_def planRequired_def
      split: option.splits sum.splits prod.splits if_splits)

lemma limit_free_report [limit_free_rules]: "limit_free (reportDeviceStep c u dev cursor agent)"
  by (auto simp: limit_free_def reportDeviceStep_def onDb_def unitDb_def reportDevice_def Let_def
      split: option.splits sum.splits if_splits)

definition plain_store :: "r2 \<Rightarrow> bool" where
  "plain_store S \<longleftrightarrow> (\<forall>k e. r2Head S k = Inl e \<longrightarrow> (\<exists>m. e = OtherErr m))"

lemma checkRefs_plain: "plain_store S \<Longrightarrow> checkRefs S u refs errs = Inl e \<Longrightarrow> \<exists>m. e = OtherErr m"
  by (induction refs arbitrary: errs) (auto simp: plain_store_def Let_def split: option.splits sum.splits)

lemma push_error_plain:
  assumes "plain_store S" "applyPushBatch H S mid now u dev ms s = Inl e"
  shows "\<exists>m. e = OtherErr m"
  using assms(2) checkRefs_plain [OF assms(1)]
  by (auto simp: applyPushBatch_def Let_def loadBatchMediaErrors_def checkReferencedMedia_def
      split: prod.splits sum.splits option.splits)

lemma limit_free_push: "plain_store (caStore c) \<Longrightarrow> limit_free (applyPush c u dev ms)"
  using push_error_plain [of "caStore c"]
  by (fastforce simp: limit_free_def applyPush_def split: sum.splits)

lemma expected_ordinary:
  "requireAuthUser auth = Inl e \<Longrightarrow> ordinary e" "parseBody schema body = Inl e \<Longrightarrow> ordinary e"
  "expectPush p = Inl e \<Longrightarrow> ordinary e" "assertValidRequest H env = Inl e \<Longrightarrow> ordinary e"
  by (auto simp: requireAuthUser_def parseBody_def expectPush_def assertValidRequest_def unsupportedVersion_def
      split: option.splits if_splits payload.splits)

text \<open>Only the budget of the user's pushes limits a push.\<close>

lemma pushHandler_limiter:
  assumes "plain_store (caStore c)" "pushHandler c auth rq b = (r, b')"
  shows "bkLimiter b' = bkLimiter b \<and> (\<forall>e. r = Inl e \<longrightarrow> ordinary e)
    \<or> (\<exists>u err. enforcePushRateLimit u (caNow c) (bkLimiter b) = (err, bkLimiter b')
        \<and> (\<forall>e. r = Inl e \<longrightarrow> err = Some e \<or> ordinary e))"
proof -
  define rest where "rest u = andThen (check (parseBody (SyncEnvelopeSchema (caHost c)) (rqBody rq))) (\<lambda>e.
     andThen (check (expectPush (enPayload e))) (\<lambda>ms.
     andThen (check (assertValidRequest (caHost c) e)) (\<lambda>_.
     andThen (reportDeviceStep c u (enDeviceId e) None (rqUserAgent rq)) (\<lambda>_.
     andThen (applyPush c u (enDeviceId e) ms) (\<lambda>(ack, msgs).
       ret (Envelope (sendEnvelope c e (PushAck ack)) msgs))))))" for u
  have rest: "limit_free (rest u)" for u
    unfolding rest_def case_prod_unfold
    by (intro limit_free_rules limit_free_push assms(1)) (fact expected_ordinary)+
  define gate where "gate = andThen (check (requireAuthUser auth)) (\<lambda>u. andThen (requirePro c u) (\<lambda>_. ret u))"
  have gate: "limit_free gate" unfolding gate_def by (intro limit_free_rules expected_ordinary)
  have eq: "pushHandler c auth rq b = andThen gate (\<lambda>u. andThen (limited (enforcePushRateLimit u (caNow c))) (\<lambda>_. rest u)) b"
    by (simp add: pushHandler_def rest_def gate_def andThen_def check_def ret_def split: sum.splits prod.splits)
  obtain g b1 where g: "gate b = (g, b1)" by fastforce
  have b1: "bkLimiter b1 = bkLimiter b" "\<And>e. g = Inl e \<Longrightarrow> ordinary e"
    using gate g unfolding limit_free_def by (metis snd_conv) (metis gate g limit_free_def fst_conv)
  show ?thesis
  proof (cases g)
    case (Inl e)
    then show ?thesis using assms(2) eq g b1 by (auto simp: andThen_def)
  next
    case (Inr u)
    obtain err l where l: "enforcePushRateLimit u (caNow c) (bkLimiter b) = (err, l)" by fastforce
    show ?thesis
    proof (cases err)
      case (Some e)
      then have "r = Inl e" "bkLimiter b' = l" using assms(2) eq g Inr l b1(1) by (auto simp: andThen_def limited_def)
      then show ?thesis using l Some by blast
    next
      case None
      then have r: "rest u (b1\<lparr>bkLimiter := l\<rparr>) = (r, b')"
        using assms(2) eq g Inr l b1(1) by (simp add: andThen_def limited_def)
      have "bkLimiter b' = l" "\<forall>e. r = Inl e \<longrightarrow> ordinary e"
        using rest [of u] r unfolding limit_free_def by (metis snd_conv backend.select_convs(4) backend.update_convs(4) backend.surjective)
          (metis rest r limit_free_def fst_conv)
      then show ?thesis using l by blast
    qed
  qed
qed

section \<open>The windows of the push budget\<close>

definition windowEnds :: "limiter \<Rightarrow> ms set" where
  "windowEnds l = (\<lambda>(k, n, e). e) ` {r \<in> set (liCounts l). startsWith ''sync:push:'' (fst r)}"

definition horizon :: "ms \<Rightarrow> limiter \<Rightarrow> ms" where
  "horizon t l = Max (insert t (windowEnds l))"

definition limiter_ok :: "ms \<Rightarrow> limiter \<Rightarrow> bool" where
  "limiter_ok t l \<longleftrightarrow> liOpen l \<and> tbl_ok fst (liCounts l) \<and> (\<forall>e \<in> windowEnds l. e \<le> t + 60000)"

lemma windowEnds_finite [simp]: "finite (windowEnds l)"
  by (simp add: windowEnds_def)

lemma horizon_bounds: "t \<le> horizon t l" "limiter_ok t l \<Longrightarrow> horizon t l \<le> t + 60000"
  by (simp_all add: horizon_def limiter_ok_def)

lemma limiter_later: "limiter_ok t l \<Longrightarrow> t \<le> t' \<Longrightarrow> limiter_ok t' l"
  by (fastforce simp: limiter_ok_def)

lemma horizon_cases: "horizon t l = t \<or> horizon t l \<in> windowEnds l" "e \<in> windowEnds l \<Longrightarrow> e \<le> horizon t l"
  using Max_in [of "insert t (windowEnds l)"] by (auto simp: horizon_def)

lemma horizon_later: "t \<le> t' \<Longrightarrow> nat (horizon t' l - t') \<le> nat (horizon t l - t)"
  using horizon_cases [of t' l] horizon_cases(2) [of _ l t] horizon_bounds(1) [of t l] by (smt (verit) nat_mono)

lemma horizon_shrinks:
  assumes "t < t'" "e \<in> windowEnds l" "t < e"
  shows "nat (horizon t' l - t') < nat (horizon t l - t)"
  using assms horizon_cases(1) [of t' l] horizon_cases(2) [of _ l t] horizon_bounds(1) [of t l] by (smt (verit) zless_nat_conj)

lemma startsWith_append: "startsWith p (p @ s)"
  by (induction p) auto

lemma push_budget:
  assumes "enforcePushRateLimit u t l = (err, l')" "limiter_ok t l"
  shows "limiter_ok t l'" "err = Some e \<Longrightarrow> windowEnds l' = windowEnds l \<and> (\<exists>x \<in> windowEnds l. t < x)"
proof -
  define key where "key = ''sync:push:'' @ u"
  have ok: "liOpen l" "tbl_ok fst (liCounts l)" "\<And>x. x \<in> windowEnds l \<Longrightarrow> x \<le> t + 60000"
    using assms(2) by (auto simp: limiter_ok_def)
  have pre: "startsWith ''sync:push:'' key" unfolding key_def by (rule startsWith_append)
  have put: "windowEnds (l\<lparr>liCounts := tbl_put fst (key, n, x) (liCounts l)\<rparr>) \<subseteq> insert x (windowEnds l)" for n x
  proof
    fix y assume "y \<in> windowEnds (l\<lparr>liCounts := tbl_put fst (key, n, x) (liCounts l)\<rparr>)"
    then obtain k m where "(k, m, y) \<in> set (tbl_put fst (key, n, x) (liCounts l))" "startsWith ''sync:push:'' k"
      by (auto simp: windowEnds_def)
    moreover from this(1) have "(k, m, y) \<in> insert (key, n, x) (set (liCounts l))"
      using set_tbl_put_subset [of fst "(key, n, x)" "liCounts l"] by blast
    ultimately show "y \<in> insert x (windowEnds l)" by (force simp: windowEnds_def)
  qed
  have open': "enforcePushRateLimit u t l = (case incrWindow key 60 t l of
      (n, l1) \<Rightarrow> (if n > 500 then Some (TooManyRequests ''Sync rate limit exceeded'') else None, l1))"
    using ok(1) by (simp add: enforcePushRateLimit_def enforceRateLimit_def key_def)
  have "limiter_ok t l' \<and> (err = Some e \<longrightarrow> windowEnds l' = windowEnds l \<and> (\<exists>x \<in> windowEnds l. t < x))"
  proof (cases "liveCount key t l")
    case None
    then have l': "l' = l\<lparr>liCounts := tbl_put fst (key, 1, t + 60000) (liCounts l)\<rparr>" "err = None"
      using assms(1) open' by (auto simp: incrWindow_def)
    then show ?thesis using ok put [of 1 "t + 60000"] by (auto simp: limiter_ok_def tbl_ok_put)
  next
    case (Some ne)
    then obtain n x where n: "liveCount key t l = Some (n, x)" by (cases ne) auto
    then have g: "(key, n, x) \<in> set (liCounts l)" "t < x"
      by (auto simp: liveCount_def split: option.splits prod.splits if_splits dest: tbl_get_in tbl_get_key)
         (metis tbl_get_in tbl_get_key fst_conv)
    have l': "l' = l\<lparr>liCounts := tbl_put fst (key, Suc n, x) (liCounts l)\<rparr>"
      using assms(1) open' n by (auto simp: incrWindow_def)
    have x: "x \<in> windowEnds l" using g(1) pre by (force simp: windowEnds_def)
    have "windowEnds l \<subseteq> windowEnds l'"
    proof
      fix y assume "y \<in> windowEnds l"
      then obtain k m where km: "(k, m, y) \<in> set (liCounts l)" "startsWith ''sync:push:'' k" by (auto simp: windowEnds_def)
      show "y \<in> windowEnds l'"
      proof (cases "k = key")
        case True
        then have "(k, m, y) = (key, n, x)" using km(1) g(1) ok(2) by (metis eq_key_imp_eq_value prod.inject)
        then show ?thesis using pre by (force simp: windowEnds_def l' set_tbl_put [OF ok(2)])
      next
        case False
        then show ?thesis using km by (force simp: windowEnds_def l' set_tbl_put [OF ok(2)])
      qed
    qed
    then have same: "windowEnds l' = windowEnds l" using put [of "Suc n" x] x unfolding l' by blast
    then show ?thesis using x g(2) ok by (auto simp: limiter_ok_def l' tbl_ok_put)
  qed
  then show "limiter_ok t l'" "err = Some e \<Longrightarrow> windowEnds l' = windowEnds l \<and> (\<exists>x \<in> windowEnds l. t < x)" by blast+
qed

section \<open>One request\<close>

definition limits :: "wire_response \<Rightarrow> bool" where
  "limits r \<longleftrightarrow> wrStatus r = 429 \<or> errorCodeOf (wrJson r) = ''RATE_LIMITED''"

lemma errorResponse_fields:
  "json_text H \<Longrightarrow> wrStatus (errorResponse H e) = ebStatus e \<and> errorCodeOf (wrJson (errorResponse H e)) = ebCode e"
  by (simp add: json_text_def errorResponse_def errorCodeOf_def errorJson_def)

lemma requireAuth_errors: "requireAuth env h d = Inl e \<Longrightarrow> \<exists>st code msg. e = AppErr st code msg \<and> st \<noteq> 429 \<and> code \<noteq> ''RATE_LIMITED''"
  by (auto simp: requireAuth_def verifyAccessToken_def split: option.splits if_splits sum.splits prod.splits bool.splits)

lemma ordinary_response:
  assumes "json_text H" "ordinary e"
  shows "\<not> limits (errorResponse H (errorHandler p e))" "wrStatus (errorResponse H (errorHandler p e)) \<noteq> 401"
  using assms by (cases e; simp add: limits_def errorResponse_fields errorHandler_def)+

text \<open>How the server answers a push: the outcomes that matter to the drain.\<close>

datatype outcome = Answered push_ack | Refused | Limited

definition outcome_of :: "host \<Rightarrow> mutation list \<Rightarrow> wire_response \<Rightarrow> outcome \<Rightarrow> bool" where
  "outcome_of H ms r x \<longleftrightarrow> (case x of
     Answered ack \<Rightarrow> wrStatus r = 200 \<and> answers_all ack ms
       \<and> (\<exists>c e. wrJson r = Some (encEnvelope (sendEnvelope c e (PushAck ack))))
   | Refused \<Rightarrow> \<not> limits r \<and> (wrJson r = None \<or> (\<exists>eb. wrJson r = Some (errorJson eb)))
   | Limited \<Rightarrow> wrStatus r \<noteq> 401 \<and> (\<exists>eb. wrJson r = Some (errorJson eb)))"

lemma serve_push:
  assumes "plain_store (caStore c)" "json_text (caHost c)" "limiter_ok (caNow c) (bkLimiter b)"
    and "serve c agent ''/sync/push'' token (encodeEnvelope (caHost c) env) b = (r, b')" "enPayload env = PushBatch ms"
  obtains x where "outcome_of (caHost c) ms r x" "limiter_ok (caNow c) (bkLimiter b')"
    "wrStatus r = 401 \<Longrightarrow> bkLimiter b' = bkLimiter b"
    "x = Limited \<Longrightarrow> windowEnds (bkLimiter b') = windowEnds (bkLimiter b) \<and> (\<exists>e \<in> windowEnds (bkLimiter b). caNow c < e)"
proof -
  let ?H = "caHost c" and ?v = "encEnvelope env"
  let ?rq = "\<lparr>rqAuthorization = Some (bearerPrefix @ token), rqUserAgent = agent, rqBody = ?v\<rparr>"
  have parse: "jsonParse ?H (encodeEnvelope ?H env) = Some ?v"
    using assms(2) by (simp add: json_text_def overWire_def encodeEnvelope_def)
  show thesis
  proof (cases "length (encodeEnvelope ?H env) > BODY_LIMIT")
    case True
    then have "r = errorResponse ?H \<lparr>ebStatus = 413, ebCode = ''PAYLOAD_TOO_LARGE'', ebMessage = ''Request body is too large''\<rparr>" "b' = b"
      using assms(4) by (simp_all add: serve_def readBody_def clientFaultStatus_def clientFaultBody_def)
    then show thesis
      using assms(2,3) by (intro that [of Refused])
        (auto simp: outcome_of_def limits_def errorResponse_fields, auto simp: errorResponse_def json_text_def)
  next
    case fits: False
    obtain y b1 where y: "syncRouter RPush c ?rq b = (y, b1)" by fastforce
    have serve: "r = (case y of Inl e \<Rightarrow> errorResponse ?H (errorHandler (caProduction c) e) | Inr z \<Rightarrow> replyResponse ?H z)" "b' = b1"
      using assms(4) fits parse y by (auto simp: serve_def readBody_def routeOf_def answer_def split: sum.splits)
    have json: "wrJson (errorResponse ?H eb) = Some (errorJson eb)" for eb
      using assms(2) by (simp add: errorResponse_def json_text_def)
    show thesis
    proof (cases "requireAuth (caAuth c) (rqAuthorization ?rq) (bkAuth b)")
      case (Inl e)
      then have ye: "y = Inl e" "b1 = b" using y by (simp_all add: syncRouter_def)
      obtain st code msg where e: "e = AppErr st code msg" "st \<noteq> 429" "code \<noteq> ''RATE_LIMITED''"
        using requireAuth_errors [OF Inl] by blast
      then have "\<not> limits r"
        using serve ye assms(2) by (simp add: limits_def errorResponse_fields errorHandler_def)
      then show thesis using serve ye assms(3) json by (intro that [of Refused]) (auto simp: outcome_of_def)
    next
      case (Inr us)
      then obtain u where ph: "pushHandler c (Some u) ?rq b = (y, b1)"
        using y by (cases us) (simp add: syncRouter_def)
      note lim = pushHandler_limiter [OF assms(1) ph]
      have ok: "limiter_ok (caNow c) (bkLimiter b1)" using lim assms(3) push_budget(1) [of _ "caNow c" "bkLimiter b"] by (elim disjE exE) auto
      show thesis
      proof (cases y)
        case rep: (Inr z)
        from ph [unfolded rep] obtain e ms' ack msgs where z: "SyncEnvelopeSchema ?H ?v = Some e" "enPayload e = PushBatch ms'"
          "z = Envelope (sendEnvelope c e (PushAck ack)) msgs"
          "set (paAcceptedOpIds ack) \<union> roOpId ` set (paRejected ack) = muOpId ` set ms'"
          by (rule pushHandler_reply) auto
        have "muOpId ` set ms' = muOpId ` set ms"
          using batch_ops [OF z(1) assms(5) z(2)] by (metis image_set)
        then have "answers_all ack ms" using z(4) by (auto simp: answers_all_def)
        moreover have "wrStatus r = 200" "wrJson r = Some (encEnvelope (sendEnvelope c e (PushAck ack)))"
          using serve(1) rep z(3) assms(2) by (simp_all add: json_text_def)
        ultimately show thesis using ok serve(2) by (intro that [of "Answered ack"]) (auto simp: outcome_of_def)
      next
        case err: (Inl e)
        show thesis
        proof (cases "ordinary e")
          case True
          with serve err ordinary_response [OF assms(2) True] ok json show thesis
            by (intro that [of Refused]) (auto simp: outcome_of_def)
        next
          case False
          then obtain v where v: "enforcePushRateLimit v (caNow c) (bkLimiter b) = (Some e, bkLimiter b1)"
            using lim err by auto
          have "e = TooManyRequests ''Sync rate limit exceeded''"
            using v assms(3) by (auto simp: enforcePushRateLimit_def enforceRateLimit_def limiter_ok_def split: if_splits prod.splits)
          then have "wrStatus r \<noteq> 401" "wrJson r = Some (errorJson (errorHandler (caProduction c) e))"
            using serve(1) err assms(2) json by (simp_all add: errorResponse_fields errorHandler_def)
          then have out: "outcome_of ?H ms r Limited" by (auto simp: outcome_of_def)
          show thesis
            by (rule that [OF out]) (use ok serve(2) push_budget(2) [OF v assms(3) refl] \<open>wrStatus r \<noteq> 401\<close> in simp_all)
        qed
      qed
    qed
  qed
qed

section \<open>A push over the link\<close>

definition connected :: "host \<Rightarrow> (nat \<Rightarrow> call) \<Rightarrow> bool" where
  "connected H calls \<longleftrightarrow> json_text H
     \<and> (\<forall>n. caHost (calls n) = H \<and> plain_store (caStore (calls n)) \<and> caNow (calls n) < caNow (calls (Suc n)))"

definition net_ok :: "host \<Rightarrow> (nat \<Rightarrow> call) \<Rightarrow> 't net \<Rightarrow> bool" where
  "net_ok H calls s \<longleftrightarrow> connected H calls \<and> limiter_ok (caNow (calls (ntCalls s))) (bkLimiter (ntBackend s))"

definition net_patience :: "(nat \<Rightarrow> call) \<Rightarrow> 't net \<Rightarrow> nat" where
  "net_patience calls s = nat (horizon (caNow (calls (ntCalls s))) (bkLimiter (ntBackend s)) - caNow (calls (ntCalls s)))"

lemma patience_bound: "net_ok H calls s \<Longrightarrow> net_patience calls s \<le> 60000"
  using horizon_bounds(2) [of "caNow (calls (ntCalls s))" "bkLimiter (ntBackend s)"]
  by (simp add: net_ok_def net_patience_def)

lemma send_push:
  assumes "net_ok H calls s" "enPayload env = PushBatch ms"
    and "lkSend (serverLink calls dv) ''/sync/push'' token (encodeEnvelope H env) s = (w, s')"
  obtains r x where "w = Some r" "outcome_of H ms r x" "net_ok H calls s'"
    "wrStatus r = 401 \<Longrightarrow> net_patience calls s' \<le> net_patience calls s"
    "x = Limited \<Longrightarrow> net_patience calls s' < net_patience calls s"
proof -
  let ?c = "calls (ntCalls s)"
  have conn: "json_text (caHost ?c)" "caHost ?c = H" "plain_store (caStore ?c)" "caNow ?c < caNow (calls (Suc (ntCalls s)))"
    "limiter_ok (caNow ?c) (bkLimiter (ntBackend s))"
    using assms(1) by (simp_all add: net_ok_def connected_def)
  obtain r b' where sv: "serve ?c (dvAgent dv) ''/sync/push'' token (encodeEnvelope H env) (ntBackend s) = (r, b')" by fastforce
  then have ws: "w = Some r" "s' = s\<lparr>ntCalls := Suc (ntCalls s), ntBackend := b'\<rparr>"
    using assms(3) by (simp_all add: serverLink_def)
  obtain x where x: "outcome_of H ms r x" "limiter_ok (caNow ?c) (bkLimiter b')"
    "wrStatus r = 401 \<Longrightarrow> bkLimiter b' = bkLimiter (ntBackend s)"
    "x = Limited \<Longrightarrow> windowEnds (bkLimiter b') = windowEnds (bkLimiter (ntBackend s))
       \<and> (\<exists>e \<in> windowEnds (bkLimiter (ntBackend s)). caNow ?c < e)"
    using serve_push [OF conn(3,1,5), of "dvAgent dv" token env r b' ms] sv assms(2) conn(2) by metis
  have "net_ok H calls s'"
    using assms(1) limiter_later [OF x(2)] conn(4) ws(2) by (simp add: net_ok_def)
  moreover have "net_patience calls s' \<le> net_patience calls s" if "wrStatus r = 401"
    using horizon_later conn(4) x(3) [OF that] by (simp add: net_patience_def ws(2))
  moreover have "net_patience calls s' < net_patience calls s" if L: "x = Limited"
  proof -
    obtain e where "e \<in> windowEnds (bkLimiter (ntBackend s))" "caNow ?c < e" using x(4) [OF L] by blast
    then show ?thesis
      using horizon_shrinks [OF conn(4)] x(4) [OF L] by (simp add: net_patience_def ws(2) horizon_def)
  qed
  ultimately show thesis using that ws(1) x(1) by blast
qed

lemma read_outcome:
  assumes "outcome_of H ms r x"
  shows "readResponse H r = Inr env \<Longrightarrow> \<exists>ack. x = Answered ack \<and> enPayload env = PushAck ack \<and> answers_all ack ms"
    "readResponse H r = Inl e \<Longrightarrow> isRateLimited e \<Longrightarrow> x = Limited"
proof -
  show "\<exists>ack. x = Answered ack \<and> enPayload env = PushAck ack \<and> answers_all ack ms" if ok: "readResponse H r = Inr env"
    using assms ok
    by (cases x) (auto simp: outcome_of_def readResponse_def error_not_envelope reply_decodes send_payload
        split: if_splits option.splits)
  show "x = Limited" if "readResponse H r = Inl e" "isRateLimited e"
    using assms that
    by (cases x) (auto simp: outcome_of_def readResponse_def reply_decodes limits_def isRateLimited_def
        split: if_splits option.splits)
qed

lemma post_push:
  assumes "net_ok H calls s" "enPayload env = PushBatch ms"
    and "post H (serverLink calls dv) ''/sync/push'' env s = (res, s')"
  shows "net_ok H calls s'" "res = Inr r \<Longrightarrow> \<exists>ack. enPayload r = PushAck ack \<and> answers_all ack ms"
    "res = Inl e \<Longrightarrow> isRateLimited e \<Longrightarrow> net_patience calls s' < net_patience calls s"
proof -
  let ?lk = "serverLink calls dv" and ?body = "encodeEnvelope H env"
  have quiet: "net_ok H calls (u\<lparr>ntSession := y\<rparr>) = net_ok H calls u"
    "net_patience calls (u\<lparr>ntSession := y\<rparr>) = net_patience calls u" for u :: "'a net" and y
    by (simp_all add: net_ok_def net_patience_def)
  obtain t s1 where t: "lkToken ?lk s = (t, s1)" by fastforce
  have s1: "net_ok H calls s1" "net_patience calls s1 = net_patience calls s"
    using t assms(1) quiet by (auto simp: serverLink_def split: prod.splits)
  have "net_ok H calls s' \<and> (\<forall>r. res = Inr r \<longrightarrow> (\<exists>ack. enPayload r = PushAck ack \<and> answers_all ack ms))
    \<and> (\<forall>e. res = Inl e \<longrightarrow> isRateLimited e \<longrightarrow> net_patience calls s' < net_patience calls s)"
  proof (cases "truthyStr t")
    case False
    then have "res = Inl (ApiError ''UNAUTHORIZED'' 401)" "s' = s1" using assms(3) t by (simp_all add: post_def)
    then show ?thesis using s1 by (simp add: isRateLimited_def)
  next
    case True
    obtain w s2 where sd: "lkSend ?lk ''/sync/push'' (the t) ?body s1 = (w, s2)" by fastforce
    obtain r1 x where one: "w = Some r1" "outcome_of H ms r1 x" "net_ok H calls s2"
      "wrStatus r1 = 401 \<Longrightarrow> net_patience calls s2 \<le> net_patience calls s1"
      "x = Limited \<Longrightarrow> net_patience calls s2 < net_patience calls s1"
      using send_push [OF s1(1) assms(2) sd] by blast
    have first: ?thesis if "res = readResponse H r1" "net_ok H calls s'" "net_patience calls s' = net_patience calls s2"
      using read_outcome [OF one(2)] that one(5) s1(2) by auto
    show ?thesis
    proof (cases "wrStatus r1 = 401")
      case False
      then have "res = readResponse H r1" "s' = s2" using assms(3) t True sd one(1) by (simp_all add: post_def Let_def)
      then show ?thesis using first one(3) by simp
    next
      case retry: True
      obtain f s3 where f: "lkUnauthorized ?lk (the t) s2 = (f, s3)" by fastforce
      have s3: "net_ok H calls s3" "net_patience calls s3 = net_patience calls s2"
        using f one(3) quiet by (auto simp: serverLink_def split: prod.splits)
      show ?thesis
      proof (cases "truthyStr f")
        case False
        then have "res = readResponse H r1" "s' = s3"
          using assms(3) t True sd one(1) retry f by (simp_all add: post_def Let_def)
        then show ?thesis using first s3 by simp
      next
        case fresh: True
        obtain w2 s4 where sd2: "lkSend ?lk ''/sync/push'' (the f) ?body s3 = (w2, s4)" by fastforce
        obtain r2 x2 where two: "w2 = Some r2" "outcome_of H ms r2 x2" "net_ok H calls s4"
          "x2 = Limited \<Longrightarrow> net_patience calls s4 < net_patience calls s3"
          using send_push [OF s3(1) assms(2) sd2] by blast
        have "res = readResponse H r2" "s' = s4"
          using assms(3) t True sd one(1) retry f fresh sd2 two(1) by (simp_all add: post_def Let_def received_def)
        then show ?thesis using read_outcome [OF two(2)] two(3,4) s3(2) one(4) [OF retry] s1(2) by fastforce
      qed
    qed
  qed
  then show "net_ok H calls s'" "res = Inr r \<Longrightarrow> \<exists>ack. enPayload r = PushAck ack \<and> answers_all ack ms"
    "res = Inl e \<Longrightarrow> isRateLimited e \<Longrightarrow> net_patience calls s' < net_patience calls s" by blast+
qed

lemma pushToServer_facts:
  assumes "net_ok H calls s" "pushToServer H calls dv mid sentAt d ms s = (res, s')"
  shows "net_ok H calls s'" "res = Inr ack \<Longrightarrow> answers_all ack ms"
    "res = Inl e \<Longrightarrow> isRateLimited e \<Longrightarrow> net_patience calls s' < net_patience calls s"
proof -
  let ?env = "requestEnvelope (mid (ntCalls s)) (sentAt (ntCalls s)) d (PushBatch ms)"
  obtain p s1 where p: "post H (serverLink calls dv) ''/sync/push'' ?env s = (p, s1)" by fastforce
  note pp = post_push [OF assms(1) _ p, of ms]
  have pay: "enPayload ?env = PushBatch ms" by (simp add: requestEnvelope_def)
  have s1: "s' = s1" using assms(2) p by (auto simp: pushToServer_def clientPush_def split: sum.splits payload.splits)
  show "net_ok H calls s'" using pp(1) [OF pay] s1 by simp
  show "answers_all ack ms" if "res = Inr ack"
    using assms(2) p that pp(2) [OF pay] by (auto simp: pushToServer_def clientPush_def split: sum.splits payload.splits)
  show "net_patience calls s' < net_patience calls s" if "res = Inl e" "isRateLimited e"
    using assms(2) p that pp(3) [OF pay] s1
    by (auto simp: pushToServer_def clientPush_def isRateLimited_def [of "AppFailure _"] split: sum.splits payload.splits)
qed

interpretation server_drain: push_backend "pushToServer H calls dv mid sentAt d" "net_ok H calls" "net_patience calls" 60000
  for H calls dv mid sentAt d
  by unfold_locales (blast intro: pushToServer_facts patience_bound)+

section \<open>The drain ends\<close>

text \<open>
  C37. Draining the outbox over HTTP against this server comes to an end: with Redis in reach, a
  clock that moves between requests and fuel for every answer and for every limit before it
  (a limit lasts at most one window of sixty seconds), the loop returns, with every operation due
  answered when it reports success.
\<close>

theorem drain_terminates:
  assumes "net_ok H calls s" "steady_world (pushToServer H calls dv mid sentAt d) d w"
    and "drain_ok (cbQueue (clDb cl))" "weight (cbQueue (clDb cl)) * 60001 + net_patience calls s < fuel"
  shows "\<exists>r waits cl' s'. pushQueue fuel H w d cl s = Some (r, waits, cl', s')
    \<and> (ceBackend (pwEnv w 0) \<longrightarrow> (\<forall>a. r = Inr a \<longrightarrow> (\<exists>k. idle_queue (ceNow (pwEnv w k)) (cbQueue (clDb cl')))))"
proof (cases "ceBackend (pwEnv w 0)")
  case True
  have "weight (cbQueue (clDb cl)) * Suc 60000 + net_patience calls s < fuel" using assms(4) by simp
  from server_drain.drain_ends [OF assms(2,3,1) this, of H 0 INITIAL_RATE_LIMIT_DELAY_MS 0] True
  show ?thesis by (auto simp: pushQueue_def)
qed (simp add: pushQueue_def)

instance jsv :: countable by countable_datatype

definition wire_host :: host where
  "wire_host = \<lparr>isUuid = (\<lambda>s. s \<noteq> []), localeCompare = (\<lambda>a b. 0),
     jsonParse = (\<lambda>s. Some (from_nat (nat (digitsVal s)))), jsonStringify = (\<lambda>v. natToString (to_nat v)),
     sha256Hex = (\<lambda>s. replicate 64 CHR ''0'')\<rparr>"

lemma wire_host_text: "json_text wire_host"
  by (simp add: json_text_def overWire_def wire_host_def digitsVal_natToString)

definition sample_net :: "string net" where
  "sample_net = \<lparr>ntCalls = 0, ntBackend = demo_backend [], ntSession = ''token''\<rparr>"

definition sample_device :: "string device" where
  "sample_device = \<lparr>dvAgent = None, dvToken = (\<lambda>t. (Some t, t)), dvRefresh = (\<lambda>old t. (None, t))\<rparr>"

definition sample_drain :: "string net push_world" where
  "sample_drain = \<lparr>pwEnv = (\<lambda>n. plain_env), pwAckEnv = (\<lambda>n. plain_env), pwRandom = (\<lambda>n. 0),
     pwHttp = (\<lambda>d. pushToServer wire_host (demo_call wire_host) sample_device (\<lambda>n. ''m'') (\<lambda>n. 0) ''d''),
     pwRealtime = None, pwMedia = sample_media_api\<lparr>maPlanUploads := (\<lambda>n xs. Inl FetchTypeError)\<rparr>, pwMeanwhile = (\<lambda>n cl. cl)\<rparr>"

lemma sample_drain_steady:
  "steady_world (pushToServer wire_host (demo_call wire_host) sample_device (\<lambda>n. ''m'') (\<lambda>n. 0) ''d'') ''d'' sample_drain"
proof -
  have plan: "planAll (\<lambda>xs. Inl FetchTypeError) xss = Inl e \<Longrightarrow> e = FetchTypeError" for xss e by (cases xss) auto
  have none: "planAll (\<lambda>xs. Inl FetchTypeError) xss = Inr p \<Longrightarrow> p = []" for xss p by (cases xss) auto
  have "uploadOne api [] x = Inl e \<Longrightarrow> \<not> isRateLimited e" for api x e
    by (auto simp: uploadOne_def planFor_def isRateLimited_def)
  then have "uploadEach api [] bm = Inl e \<Longrightarrow> \<not> isRateLimited e" for api bm e
    by (induction bm) (auto split: sum.splits)
  note each = this
  have "\<not> isRateLimited e" if up: "uploadOwnedMedia (pwMedia sample_drain) bm = Inl e" for bm e
  proof (cases "planAll (\<lambda>xs. Inl FetchTypeError) (chunk MEDIA_REQUEST_BATCH (map uploadItem bm)) :: client_error + upload_plan list")
    case (Inl x)
    then have "e = FetchTypeError" using plan up by (auto simp: uploadOwnedMedia_def sample_drain_def split: if_splits)
    then show ?thesis by (simp add: isRateLimited_def)
  next
    case (Inr p)
    then show ?thesis using none [OF Inr] each up by (auto simp: uploadOwnedMedia_def sample_drain_def split: if_splits)
  qed
  then show ?thesis by (simp add: steady_world_def) (simp add: sample_drain_def unlimited_def plain_env_def)
qed

lemma sample_net_ok: "net_ok wire_host (demo_call wire_host) sample_net"
  by (simp add: net_ok_def connected_def wire_host_text demo_call_def plain_store_def limiter_ok_def sample_net_def demo_backend_def windowEnds_def)

lemma drain_terminates_witness:
  "\<exists>r waits cl' s'. pushQueue 600000000 wire_host sample_drain ''d'' queue_client sample_net = Some (r, waits, cl', s')"
proof -
  have "drain_ok (cbQueue (clDb queue_client))" "weight (cbQueue (clDb queue_client)) \<le> 100"
    by (simp_all add: queue_client_def queued_delete_def drain_ok_def queue_ok_def weight_def cost_def MAX_ATTEMPTS_def)
  moreover have "net_patience (demo_call wire_host) sample_net \<le> 60000" by (rule patience_bound [OF sample_net_ok])
  ultimately have "weight (cbQueue (clDb queue_client)) * 60001 + net_patience (demo_call wire_host) sample_net < 600000000" by simp
  from drain_terminates [OF sample_net_ok sample_drain_steady \<open>drain_ok _\<close> this] show ?thesis by blast
qed

end
