(* ===== verification/SyncSocket.thy ===== *)
theory SyncSocket
  imports SyncGate Regex
begin

text \<open>
  The socket interface of the sync service (ws.handler.ts) and the fanout between the server's
  replicas (fanout.service.ts).

  \<open>node\<close> is the state of one replica: its open sockets, the connections behind them (one per
  authorised socket, as the closure of its listeners keeps it) and the registry, the map from
  user and device to the socket. \<open>ws\<close> is a step under way: the node, the backend, the frames sent
  and sockets closed so far, and what was published to Redis for the other replicas. Every
  handler runs to its end before the next one starts.
\<close>

record conn =
  cnWs :: nat
  cnUser :: id
  cnDevice :: id
  cnSession :: id
  cnAgent :: "string option"
  cnLastPong :: ms

record node =
  ndOpen :: "nat list"
  ndConns :: "conn list"
  ndRegistry :: "(string \<times> nat) list"

datatype frame = Sent nat envelope | Closed nat int string

record ws =
  wsNode :: node
  wsBackend :: backend
  wsFrames :: "frame list"
  wsPublished :: "fanout_msg list"

definition connKey :: "id \<Rightarrow> id \<Rightarrow> string" where
  "connKey userId deviceId = userId @ '':'' @ deviceId"

text \<open>A frame to a socket that is not open is dropped.\<close>

definition send :: "nat \<Rightarrow> envelope \<Rightarrow> ws \<Rightarrow> ws" where
  "send k e w = (if k \<in> set (ndOpen (wsNode w)) then w\<lparr>wsFrames := wsFrames w @ [Sent k e]\<rparr> else w)"

definition closeSocket :: "nat \<Rightarrow> int \<Rightarrow> string \<Rightarrow> ws \<Rightarrow> ws" where
  "closeSocket k code reason w =
     (if k \<in> set (ndOpen (wsNode w))
      then w\<lparr>wsFrames := wsFrames w @ [Closed k code reason], wsNode := (wsNode w)\<lparr>ndOpen := removeAll k (ndOpen (wsNode w))\<rparr>\<rparr>
      else w)"

text \<open>Unregister a connection only where it is the registered one.\<close>

definition forget :: "conn \<Rightarrow> node \<Rightarrow> node" where
  "forget c n =
     (let key = connKey (cnUser c) (cnDevice c) in
      if map_option snd (tbl_get fst key (ndRegistry n)) = Some (cnWs c)
      then n\<lparr>ndRegistry := tbl_del fst key (ndRegistry n)\<rparr> else n)"

section \<open>Refusals\<close>

definition errorFrame :: "call \<Rightarrow> string option \<Rightarrow> id \<Rightarrow> string \<Rightarrow> string \<Rightarrow> bool \<Rightarrow> envelope" where
  "errorFrame c corr dev code message retryable =
     serverEnvelope (caMid c 0) corr dev (caNow c) (SyncError \<lparr>seCode = code, seMessage = message, seRetryable = retryable\<rparr>)"

definition denyPlan :: "call \<Rightarrow> nat \<Rightarrow> id \<Rightarrow> ws \<Rightarrow> ws" where
  "denyPlan c k dev w = closeSocket k 4003 ''plan required''
     (send k (errorFrame c None dev ''PLAN_REQUIRED'' ''Pro is required for cloud sync'' False) w)"

definition denyDevice :: "call \<Rightarrow> nat \<Rightarrow> id \<Rightarrow> string \<Rightarrow> string \<Rightarrow> ws \<Rightarrow> ws" where
  "denyDevice c k dev code message w = closeSocket k 4004 (toLower code) (send k (errorFrame c None dev code message False) w)"

definition denySession :: "call \<Rightarrow> nat \<Rightarrow> id \<Rightarrow> ws \<Rightarrow> ws" where
  "denySession c k dev w = closeSocket k 4001 ''unauthorized''
     (send k (errorFrame c None dev ''TOKEN_EXPIRED'' ''Unauthorized'' True) w)"

definition replyError :: "call \<Rightarrow> conn \<Rightarrow> string \<Rightarrow> string \<Rightarrow> string \<Rightarrow> bool \<Rightarrow> ws \<Rightarrow> ws" where
  "replyError c cn corr code message retryable w =
     send (cnWs cn) (errorFrame c (Some corr) (cnDevice cn) code message retryable) w"

text \<open>A refusal of the device registry closes the socket; any other error is logged.\<close>

definition denyIfDeviceError :: "call \<Rightarrow> conn \<Rightarrow> apply_error \<Rightarrow> ws \<Rightarrow> ws" where
  "denyIfDeviceError c cn e w =
     (case e of
        AppErr status code message \<Rightarrow>
          if code = ''DEVICE_LIMIT'' \<or> code = ''DEVICE_REVOKED'' then denyDevice c (cnWs cn) (cnDevice cn) code message w else w
      | _ \<Rightarrow> w)"

section \<open>Gates\<close>

definition isSessionLive :: "ms \<Rightarrow> id \<Rightarrow> id \<Rightarrow> auth_db \<Rightarrow> bool" where
  "isSessionLive now sessionId userId d \<longleftrightarrow> sessionLive now sessionId userId d
     \<and> (case tbl_get auId userId (atUsers d) of None \<Rightarrow> False | Some u \<Rightarrow> auDisabledAt u = None)"

definition hasLiveSession :: "call \<Rightarrow> conn \<Rightarrow> ws \<Rightarrow> bool \<times> ws" where
  "hasLiveSession c cn w =
     (if isSessionLive (caNow c) (cnSession cn) (cnUser cn) (bkAuth (wsBackend w)) then (True, w)
      else (False, denySession c (cnWs cn) (cnDevice cn) w))"

definition hasSyncEntitlement :: "call \<Rightarrow> conn \<Rightarrow> ws \<Rightarrow> bool \<times> ws" where
  "hasSyncEntitlement c cn w =
     (case requirePro c (cnUser cn) (wsBackend w) of
        (Inr _, b) \<Rightarrow> (True, w\<lparr>wsBackend := b\<rparr>)
      | (Inl _, b) \<Rightarrow> (False, denyPlan c (cnWs cn) (cnDevice cn) (w\<lparr>wsBackend := b\<rparr>)))"

definition gated :: "payload \<Rightarrow> bool" where
  "gated p \<longleftrightarrow> (case p of Hello _ \<Rightarrow> True | PushBatch _ \<Rightarrow> True | PullRequest _ \<Rightarrow> True | _ \<Rightarrow> False)"

section \<open>Fanout\<close>

definition deliverTo :: "fanout_msg \<Rightarrow> string \<times> nat \<Rightarrow> ws \<Rightarrow> ws" where
  "deliverTo m entry w =
     (case tbl_get cnWs (snd entry) (ndConns (wsNode w)) of
        None \<Rightarrow> w
      | Some cn \<Rightarrow>
          if cnUser cn \<noteq> fmUser m then w
          else if truthyStr (fmExclude m) \<and> fmExclude m = Some (cnDevice cn) then w
          else send (snd entry) (fmEnvelope m) w)"

definition deliver :: "fanout_msg \<Rightarrow> ws \<Rightarrow> ws" where
  "deliver m w = fold (deliverTo m) (ndRegistry (wsNode w)) w"

text \<open>To this replica's sockets at once, to the other replicas (and to this one again) by Redis.\<close>

definition publishFanout :: "fanout_msg \<Rightarrow> ws \<Rightarrow> ws" where
  "publishFanout m w =
     (let w1 = deliver m w in
      if liOpen (bkLimiter (wsBackend w1)) then w1\<lparr>wsPublished := wsPublished w1 @ [m]\<rparr> else w1)"

section \<open>Messages\<close>

definition setConn :: "conn \<Rightarrow> ws \<Rightarrow> ws" where
  "setConn cn w = w\<lparr>wsNode := (wsNode w)\<lparr>ndConns := tbl_put cnWs cn (ndConns (wsNode w))\<rparr>\<rparr>"

definition register :: "conn \<Rightarrow> ws \<Rightarrow> ws" where
  "register cn w =
     (let key = connKey (cnUser cn) (cnDevice cn);
          w1 = (case tbl_get fst key (ndRegistry (wsNode w)) of
                  None \<Rightarrow> w
                | Some (_, k) \<Rightarrow> if k \<noteq> cnWs cn then closeSocket k 1000 ''replaced'' w else w)
      in w1\<lparr>wsNode := (wsNode w1)\<lparr>ndRegistry := tbl_put fst (key, cnWs cn) (ndRegistry (wsNode w1))\<rparr>\<rparr>)"

definition pullFor :: "call \<Rightarrow> id \<Rightarrow> string \<Rightarrow> ws \<Rightarrow> pull_delta" where
  "pullFor c u since w = pullChanges (caHost c) u since PULL_PAGE_SIZE (srvDb (bkServer (wsBackend w)))"

definition onHello :: "call \<Rightarrow> conn \<Rightarrow> envelope \<Rightarrow> hello \<Rightarrow> ws \<Rightarrow> ws" where
  "onHello c cn e h w =
     (let reply = (\<lambda>dev k p. serverEnvelope (caMid c k) (Some (enMessageId e)) dev (caNow c) p) in
      if heProtocolVersion h \<noteq> PROTOCOL_VERSION then
        closeSocket (cnWs cn) 4002 ''protocol mismatch''
          (replyError c cn (enMessageId e) ''PROTOCOL_MISMATCH''
             (''Unsupported protocol version '' @ intToString (heProtocolVersion h)) False w)
      else if \<not> isUuid (caHost c) (enDeviceId e) then
        replyError c cn (enMessageId e) ''VALIDATION_ERROR'' ''deviceId must be a UUID'' False w
      else
        (let cn1 = cn\<lparr>cnDevice := enDeviceId e\<rparr>; w1 = setConn cn1 w in
         case reportDeviceStep c (cnUser cn) (enDeviceId e) (Some (heLastPulledAt h)) (cnAgent cn) (wsBackend w1) of
           (Inl err, b) \<Rightarrow> denyIfDeviceError c cn1 err (w1\<lparr>wsBackend := b\<rparr>)
         | (Inr _, b) \<Rightarrow>
             (let w2 = register cn1 (w1\<lparr>wsBackend := b\<rparr>);
                  w3 = send (cnWs cn) (reply (enDeviceId e) 1 (HelloAck \<lparr>haServerTime = of_int (caNow c),
                         haMissedSince = heLastPulledAt h, haSessionId = cnSession cn\<rparr>)) w2;
                  delta = pullFor c (cnUser cn) (heLastPulledAt h) w3
              in if pdRecords delta \<noteq> [] then send (cnWs cn) (reply (enDeviceId e) 2 (PullDelta delta)) w3 else w3)))"

definition onPush :: "call \<Rightarrow> conn \<Rightarrow> envelope \<Rightarrow> mutation list \<Rightarrow> ws \<Rightarrow> ws" where
  "onPush c cn e ms w =
     (if cnDevice cn = '''' then
        replyError c cn (enMessageId e) ''HELLO_REQUIRED'' ''Send hello before pushing'' False w
      else case limited (enforcePushRateLimit (cnUser cn) (caNow c)) (wsBackend w) of
        (Inl err, b) \<Rightarrow> replyError c cn (enMessageId e) ''RATE_LIMITED'' (errorMessage err) True (w\<lparr>wsBackend := b\<rparr>)
      | (Inr _, b) \<Rightarrow>
          (case reportDeviceStep c (cnUser cn) (cnDevice cn) None (cnAgent cn) b of
             (Inl err, b1) \<Rightarrow> denyIfDeviceError c cn err (w\<lparr>wsBackend := b1\<rparr>)
           | (Inr _, b1) \<Rightarrow>
               (case applyPush c (cnUser cn) (cnDevice cn) ms b1 of
                  (Inl err, b2) \<Rightarrow> w\<lparr>wsBackend := b2\<rparr>
                | (Inr (ack, msgs), b2) \<Rightarrow>
                    send (cnWs cn) (serverEnvelope (caMid c 0) (Some (enMessageId e)) (cnDevice cn) (caNow c) (PushAck ack))
                      (fold publishFanout msgs (w\<lparr>wsBackend := b2\<rparr>)))))"

definition handlePayload :: "call \<Rightarrow> conn \<Rightarrow> envelope \<Rightarrow> ws \<Rightarrow> ws" where
  "handlePayload c cn e w =
     (let reply = (\<lambda>p. serverEnvelope (caMid c 0) (Some (enMessageId e)) (cnDevice cn) (caNow c) p) in
      case enPayload e of
        Hello h \<Rightarrow> onHello c cn e h w
      | PushBatch ms \<Rightarrow> onPush c cn e ms w
      | PullRequest since \<Rightarrow> send (cnWs cn) (reply (PullDelta (pullFor c (cnUser cn) since w))) w
      | Ping t \<Rightarrow> send (cnWs cn) (reply (Pong t)) w
      | Pong t \<Rightarrow> setConn (cn\<lparr>cnLastPong := caNow c\<rparr>) w
      | GracefulClose reason \<Rightarrow> closeSocket (cnWs cn) 1000 reason w
      | _ \<Rightarrow> w)"

definition handleMessage :: "call \<Rightarrow> conn \<Rightarrow> string \<Rightarrow> ws \<Rightarrow> ws" where
  "handleMessage c cn text w =
     (case decodeEnvelope (caHost c) (Inl text) of
        None \<Rightarrow> send (cnWs cn) (errorFrame c None (cnDevice cn) ''DECODE_ERROR'' ''Invalid frame'' False) w
      | Some e \<Rightarrow>
          if gated (enPayload e) then
            (case hasLiveSession c cn w of
               (False, w1) \<Rightarrow> w1
             | (True, w1) \<Rightarrow>
                 (case hasSyncEntitlement c cn w1 of
                    (False, w2) \<Rightarrow> w2
                  | (True, w2) \<Rightarrow> handlePayload c cn e w2))
          else handlePayload c cn e w)"

section \<open>Connections\<close>

text \<open>The token of an upgrade request: its header, or the \<open>access_token\<close> of its URL.\<close>

definition upgradeToken :: "string option \<Rightarrow> string option \<Rightarrow> string option" where
  "upgradeToken header query =
     (let fromHeader = (case header of
            None \<Rightarrow> None | Some h \<Rightarrow> if take 7 h = bearerPrefix then Some (trimmed (drop 7 h)) else None)
      in if truthyStr fromHeader then fromHeader else query)"

definition authenticateUpgrade :: "call \<Rightarrow> string option \<Rightarrow> string option \<Rightarrow> auth_db \<Rightarrow> (id \<times> id) option" where
  "authenticateUpgrade c header query d =
     (let token = upgradeToken header query in
      if \<not> truthyStr token then None
      else case verifyAccessToken (caAuth c) (the token) of
        Inl _ \<Rightarrow> None
      | Inr (u, s) \<Rightarrow> if isSessionLive (caNow c) s u d then Some (u, s) else None)"

definition authorizeConnection :: "call \<Rightarrow> nat \<Rightarrow> string option \<Rightarrow> string option \<Rightarrow> string option \<Rightarrow> ws \<Rightarrow> ws" where
  "authorizeConnection c k header query agent w =
     (case authenticateUpgrade c header query (bkAuth (wsBackend w)) of
        None \<Rightarrow> denySession c k '''' w
      | Some (u, s) \<Rightarrow>
          (case requirePro c u (wsBackend w) of
             (Inl _, b) \<Rightarrow> denyPlan c k '''' (w\<lparr>wsBackend := b\<rparr>)
           | (Inr _, b) \<Rightarrow> setConn \<lparr>cnWs = k, cnUser = u, cnDevice = '''', cnSession = s, cnAgent = agent, cnLastPong = caNow c\<rparr>
               (w\<lparr>wsBackend := b\<rparr>)))"

definition onClose :: "nat \<Rightarrow> ws \<Rightarrow> ws" where
  "onClose k w =
     (let n = (wsNode w)\<lparr>ndOpen := removeAll k (ndOpen (wsNode w))\<rparr> in
      w\<lparr>wsNode := (case tbl_get cnWs k (ndConns n) of
         None \<Rightarrow> n
       | Some cn \<Rightarrow> (let n1 = (if cnDevice cn \<noteq> '''' then forget cn n else n) in n1\<lparr>ndConns := tbl_del cnWs k (ndConns n1)\<rparr>))\<rparr>)"

definition HEARTBEAT_TIMEOUT :: int where "HEARTBEAT_TIMEOUT = 70000"

definition unregister :: "string \<Rightarrow> ws \<Rightarrow> ws" where
  "unregister key w = w\<lparr>wsNode := (wsNode w)\<lparr>ndRegistry := tbl_del fst key (ndRegistry (wsNode w))\<rparr>\<rparr>"

definition beat :: "call \<Rightarrow> backend \<Rightarrow> string \<times> nat \<Rightarrow> ws \<Rightarrow> ws" where
  "beat c b entry w =
     (case tbl_get cnWs (snd entry) (ndConns (wsNode w)) of
        None \<Rightarrow> w
      | Some cn \<Rightarrow>
          if \<not> list_ex (\<lambda>s. seId s = cnSession cn \<and> isSessionLive (caNow c) (seId s) (seUser s) (bkAuth b)) (atSessions (bkAuth b))
          then unregister (fst entry) (denySession c (cnWs cn) (cnDevice cn) w)
          else if \<not> list_ex (\<lambda>s. suUser s = cnUser cn \<and> isPlanEntitled (suPlan s) (suStatus s) PRO (suEndsAt s) (caNow c))
                 (adSubscriptions (bkAccounts b))
          then unregister (fst entry) (denyPlan c (cnWs cn) (cnDevice cn) w)
          else if caNow c - cnLastPong cn > HEARTBEAT_TIMEOUT
          then unregister (fst entry) (closeSocket (cnWs cn) 1001 ''heartbeat timeout'' w)
          else send (cnWs cn) (serverEnvelope (caMid c 0) None (cnDevice cn) (caNow c) (Ping (of_int (caNow c)))) w)"

definition heartbeat :: "call \<Rightarrow> ws \<Rightarrow> ws" where
  "heartbeat c w = fold (beat c (wsBackend w)) (ndRegistry (wsNode w)) w"

definition broadcastGracefulShutdown :: "call \<Rightarrow> string \<Rightarrow> ws \<Rightarrow> ws" where
  "broadcastGracefulShutdown c reason w =
     (let w1 = fold (\<lambda>(key, k) w. case tbl_get cnWs k (ndConns (wsNode w)) of
            None \<Rightarrow> w
          | Some cn \<Rightarrow> closeSocket k 1001 reason
              (send k (serverEnvelope (caMid c 0) None (cnDevice cn) (caNow c) (GracefulClose reason)) w))
        (ndRegistry (wsNode w)) w
      in w1\<lparr>wsNode := (wsNode w1)\<lparr>ndRegistry := []\<rparr>\<rparr>)"

definition disconnectSyncDevice :: "call \<Rightarrow> id \<Rightarrow> id \<Rightarrow> ws \<Rightarrow> ws" where
  "disconnectSyncDevice c userId deviceId w =
     (let key = connKey userId deviceId in
      case tbl_get fst key (ndRegistry (wsNode w)) of
        None \<Rightarrow> w
      | Some (_, k) \<Rightarrow>
          (case tbl_get cnWs k (ndConns (wsNode w)) of
             None \<Rightarrow> w
           | Some cn \<Rightarrow> unregister key (denyDevice c k (cnDevice cn) ''DEVICE_REVOKED'' ''Device has been revoked'' w)))"

section \<open>What a step does for one user\<close>

definition owner :: "node \<Rightarrow> nat \<Rightarrow> id option" where
  "owner n k = map_option cnUser (tbl_get cnWs k (ndConns n))"

text \<open>The step changes data of \<open>u\<close> only and sends to sockets of \<open>u\<close> only; no socket changes hands.\<close>

definition stays :: "id \<Rightarrow> ws \<Rightarrow> ws \<Rightarrow> bool" where
  "stays u w w' \<longleftrightarrow> owner (wsNode w') = owner (wsNode w) \<and> own u (wsBackend w) (wsBackend w')
     \<and> (\<exists>fs. wsFrames w' = wsFrames w @ fs \<and> (\<forall>k e. Sent k e \<in> set fs \<longrightarrow> owner (wsNode w) k = Some u))"

named_theorems stays_rules "steps that stay with one user"

lemma stays_refl: "stays u w w"
  by (simp add: stays_def own_refl)

lemma stays_trans: "stays u w w' \<Longrightarrow> stays u w' w'' \<Longrightarrow> stays u w w''"
  unfolding stays_def by (auto intro: own_trans) blast+

lemma stays_send: "owner (wsNode w) k = Some u \<Longrightarrow> stays u w (send k e w)"
  by (simp add: stays_def send_def own_refl)

lemma stays_close: "stays u w (closeSocket k code reason w)"
  by (simp add: stays_def closeSocket_def own_refl owner_def fun_eq_iff)

lemma owner_keep: "stays u w w' \<Longrightarrow> owner (wsNode w) k = Some u \<Longrightarrow> owner (wsNode w') k = Some u"
  by (simp add: stays_def)

lemma stays_send_after: "stays u w w' \<Longrightarrow> owner (wsNode w) k = Some u \<Longrightarrow> stays u w (send k e w')"
  using stays_trans [OF _ stays_send] owner_keep by blast

lemma stays_close_after: "stays u w w' \<Longrightarrow> stays u w (closeSocket k code reason w')"
  using stays_trans [OF _ stays_close] .

lemma stays_backend: "own u (wsBackend w) b \<Longrightarrow> stays u w (w\<lparr>wsBackend := b\<rparr>)"
  by (simp add: stays_def)

lemma stays_backend_after: "stays u w w' \<Longrightarrow> own u (wsBackend w') b \<Longrightarrow> stays u w (w'\<lparr>wsBackend := b\<rparr>)"
  using stays_trans stays_backend by blast

lemma stays_setConn: "tbl_get cnWs (cnWs cn) (ndConns (wsNode w)) = Some cn0 \<Longrightarrow> cnUser cn = cnUser cn0 \<Longrightarrow> stays u w (setConn cn w)"
  by (simp add: stays_def setConn_def owner_def tbl_get_put own_refl fun_eq_iff)

lemma stays_registry: "stays u w (w\<lparr>wsNode := (wsNode w)\<lparr>ndRegistry := r\<rparr>\<rparr>)"
  by (simp add: stays_def owner_def own_refl fun_eq_iff)

lemma stays_register_after: "stays u w w' \<Longrightarrow> stays u w (register cn w')"
proof -
  assume w: "stays u w w'"
  have "stays u w' (register cn w')"
    unfolding register_def Let_def
    by (rule stays_trans [OF _ stays_registry]) (auto intro: stays_close stays_refl split: option.splits)
  with w show ?thesis by (rule stays_trans)
qed

lemma stays_deliver: "fmUser m = u \<Longrightarrow> stays u w (deliver m w)"
proof -
  assume m: "fmUser m = u"
  have one: "stays u v (deliverTo m r v)" for r v
    using m by (auto simp: deliverTo_def owner_def intro: stays_refl stays_send split: option.splits)
  have "stays u w (fold (deliverTo m) rs w)" for rs
    by (induction rs arbitrary: w) (auto intro: stays_refl stays_trans [OF one])
  then show ?thesis by (simp add: deliver_def)
qed

lemma stays_published: "stays u w w' \<Longrightarrow> stays u w (w'\<lparr>wsPublished := ms\<rparr>)"
  by (simp add: stays_def)

lemma stays_publish: "\<forall>m \<in> set ms. fmUser m = u \<Longrightarrow> stays u w w' \<Longrightarrow> stays u w (fold publishFanout ms w')"
proof (induction ms arbitrary: w')
  case (Cons m ms)
  have "stays u w' (publishFanout m w')"
    using Cons.prems(1) by (auto simp: publishFanout_def Let_def intro: stays_deliver stays_published)
  with Cons show ?case by (auto intro: stays_trans)
qed simp

lemmas stays_rules' = stays_refl stays_send stays_close stays_send_after stays_close_after

lemma push_messages_user:
  "applyPush c u dev ms b = (Inr (ack, msgs), b') \<Longrightarrow> m \<in> set msgs \<Longrightarrow> fmUser m = u"
  by (auto simp: applyPush_def applyPushBatch_def publishPushFanout_def Let_def split: sum.splits prod.splits if_splits)

lemma own_step: "keeps u m \<Longrightarrow> m b = (r, b') \<Longrightarrow> own u b b'"
  unfolding keeps_def by (metis snd_conv)

lemma stays_hello:
  assumes "tbl_get cnWs (cnWs cn) (ndConns (wsNode w)) = Some cn"
  shows "stays (cnUser cn) w (onHello c cn e h w)"
proof -
  let ?u = "cnUser cn"
  have o: "owner (wsNode w) (cnWs cn) = Some ?u" using assms by (simp add: owner_def)
  let ?cn = "cn\<lparr>cnDevice := enDeviceId e\<rparr>"
  have s: "stays ?u w (setConn ?cn w)" by (rule stays_setConn) (use assms in simp_all)
  obtain r b where rep: "reportDeviceStep c ?u (enDeviceId e) (Some (heLastPulledAt h)) (cnAgent cn) (wsBackend (setConn ?cn w)) = (r, b)"
    by fastforce
  have b: "stays ?u w ((setConn ?cn w)\<lparr>wsBackend := b\<rparr>)"
    by (rule stays_backend_after [OF s own_step [OF keeps_report rep]])
  have deny: "stays ?u w (denyIfDeviceError c ?cn err ((setConn ?cn w)\<lparr>wsBackend := b\<rparr>))" for err
    using o b by (auto simp: denyIfDeviceError_def denyDevice_def intro!: stays_close_after stays_send_after split: apply_error.splits)
  show ?thesis
    unfolding onHello_def Let_def replyError_def rep
    using o by (auto intro!: stays_rules' deny stays_register_after b split: sum.splits)
qed

lemma stays_push:
  assumes "tbl_get cnWs (cnWs cn) (ndConns (wsNode w)) = Some cn"
  shows "stays (cnUser cn) w (onPush c cn e ms w)"
proof -
  let ?u = "cnUser cn"
  have o: "owner (wsNode w) (cnWs cn) = Some ?u" using assms by (simp add: owner_def)
  obtain r b where lim: "limited (enforcePushRateLimit ?u (caNow c)) (wsBackend w) = (r, b)" by fastforce
  obtain r1 b1 where rep: "reportDeviceStep c ?u (cnDevice cn) None (cnAgent cn) b = (r1, b1)" by fastforce
  obtain r2 b2 where app: "applyPush c ?u (cnDevice cn) ms b1 = (r2, b2)" by fastforce
  have b: "own ?u (wsBackend w) b" by (rule own_step [OF keeps_limited lim])
  have b1: "own ?u (wsBackend w) b1" by (rule own_trans [OF b own_step [OF keeps_report rep]])
  have b2: "own ?u (wsBackend w) b2" by (rule own_trans [OF b1 own_step [OF keeps_push app]])
  have deny: "stays ?u w (denyIfDeviceError c cn err (w\<lparr>wsBackend := b1\<rparr>))" for err
    using o b1 by (auto simp: denyIfDeviceError_def denyDevice_def intro!: stays_close_after stays_send_after stays_backend
        split: apply_error.splits)
  have fan: "stays ?u w (fold publishFanout msgs (w\<lparr>wsBackend := b2\<rparr>))" if "r2 = Inr (ack, msgs)" for ack msgs
    using push_messages_user app that by (intro stays_publish stays_backend b2) auto
  show ?thesis
    unfolding onPush_def replyError_def lim
    using o b b2 by (auto simp: rep app intro!: stays_send stays_send_after stays_backend deny fan split: sum.splits)
qed

lemma stays_payload:
  assumes "tbl_get cnWs (cnWs cn) (ndConns (wsNode w)) = Some cn"
  shows "stays (cnUser cn) w (handlePayload c cn e w)"
proof -
  have o: "owner (wsNode w) (cnWs cn) = Some (cnUser cn)" using assms by (simp add: owner_def)
  show ?thesis
    unfolding handlePayload_def Let_def
    using o assms by (auto intro: stays_rules' stays_hello stays_push stays_setConn split: payload.splits)
qed

lemma entitlement_step:
  assumes "hasSyncEntitlement c cn w = (r, w')" "owner (wsNode w) (cnWs cn) = Some (cnUser cn)"
  shows "stays (cnUser cn) w w'" "bkServer (wsBackend w') = bkServer (wsBackend w)"
    "r \<Longrightarrow> wsNode w' = wsNode w \<and> fst (assertPlan (caAccount c) (cnUser cn) PRO (bkAccounts (wsBackend w))) = None"
proof -
  obtain x b where p: "requirePro c (cnUser cn) (wsBackend w) = (x, b)" by fastforce
  have b: "own (cnUser cn) (wsBackend w) b" "bkServer b = bkServer (wsBackend w)"
    using p own_step [OF keeps_pro p] by (auto simp: requirePro_def split: prod.splits option.splits)
  show "stays (cnUser cn) w w'"
    using assms p b(1) by (auto simp: hasSyncEntitlement_def denyPlan_def intro!: stays_close_after stays_send_after stays_backend split: sum.splits)
  show "bkServer (wsBackend w') = bkServer (wsBackend w)"
    using assms(1) p b(2) by (auto simp: hasSyncEntitlement_def denyPlan_def closeSocket_def send_def split: sum.splits)
  show "wsNode w' = wsNode w \<and> fst (assertPlan (caAccount c) (cnUser cn) PRO (bkAccounts (wsBackend w))) = None" if r
    using assms(1) p that by (auto simp: hasSyncEntitlement_def requirePro_def split: sum.splits prod.splits option.splits)
qed

lemma ungated_server: "\<not> gated (enPayload e) \<Longrightarrow> wsBackend (handlePayload c cn e w) = wsBackend w"
  by (auto simp: gated_def handlePayload_def Let_def setConn_def send_def closeSocket_def split: payload.splits)

lemma fold_publish_server: "wsBackend (fold publishFanout ms w) = wsBackend w"
proof -
  have "wsBackend (fold (deliverTo m) rs w) = wsBackend w" for rs w m
    by (induction rs arbitrary: w) (auto simp: deliverTo_def send_def split: option.splits)
  then have "wsBackend (publishFanout m w) = wsBackend w" for m w
    by (simp add: publishFanout_def deliver_def Let_def)
  then show ?thesis by (induction ms arbitrary: w) simp_all
qed

lemma push_device_out:
  assumes "device_out (cnUser cn) (cnDevice cn) (srvDb (bkServer (wsBackend w)))"
  shows "bkServer (wsBackend (onPush c cn e ms w)) = bkServer (wsBackend w)"
proof -
  obtain r b where lim: "limited (enforcePushRateLimit (cnUser cn) (caNow c)) (wsBackend w) = (r, b)" by fastforce
  have b: "bkServer b = bkServer (wsBackend w)" using lim by (auto simp: limited_def split: prod.splits option.splits)
  obtain err where rep: "reportDeviceStep c (cnUser cn) (cnDevice cn) None (cnAgent cn) b = (Inl err, b)"
    using report_refuses [of "cnUser cn" "cnDevice cn" "srvDb (bkServer b)" None "cnAgent cn" "caNow c"] assms b
    by (auto simp: reportDeviceStep_def onDb_def unitDb_def)
  have deny: "wsBackend (denyIfDeviceError c cn x v) = wsBackend v" for x v
    by (auto simp: denyIfDeviceError_def denyDevice_def send_def closeSocket_def split: apply_error.splits)
  show ?thesis
    unfolding onPush_def lim by (auto simp: rep deny b replyError_def send_def split: sum.splits)
qed

section \<open>Properties\<close>

text \<open>
  C38. A message on a socket stays with the user the socket was authorised for: whatever it says,
  the storage stays well formed, no other user's topics, cards, counter or devices change, and
  every frame it makes this replica send, fanouts included, goes to sockets of that user. The
  sync tables change only while the session is live and the plan entitled, and a push from a device
  revoked meanwhile leaves them as they were.
\<close>

theorem socket_stays_with_its_user:
  assumes "service_ok (srvDb (bkServer (wsBackend w)))" "tbl_get cnWs (cnWs cn) (ndConns (wsNode w)) = Some cn"
    and "handleMessage c cn text w = w'"
  shows "service_ok (srvDb (bkServer (wsBackend w')))
    \<and> (\<forall>v. v \<noteq> cnUser cn \<longrightarrow> same_for v (srvDb (bkServer (wsBackend w))) (srvDb (bkServer (wsBackend w'))))
    \<and> (\<exists>fs. wsFrames w' = wsFrames w @ fs \<and> (\<forall>k e. Sent k e \<in> set fs \<longrightarrow> owner (wsNode w) k = Some (cnUser cn)))
    \<and> (bkServer (wsBackend w') \<noteq> bkServer (wsBackend w) \<longrightarrow>
         isSessionLive (caNow c) (cnSession cn) (cnUser cn) (bkAuth (wsBackend w))
         \<and> fst (assertPlan (caAccount c) (cnUser cn) PRO (bkAccounts (wsBackend w))) = None)
    \<and> (\<forall>e ms. decodeEnvelope (caHost c) (Inl text) = Some e \<and> enPayload e = PushBatch ms
         \<and> device_out (cnUser cn) (cnDevice cn) (srvDb (bkServer (wsBackend w)))
         \<longrightarrow> bkServer (wsBackend w') = bkServer (wsBackend w))"
proof (cases "decodeEnvelope (caHost c) (Inl text)")
  case None
  have o: "owner (wsNode w) (cnWs cn) = Some (cnUser cn)" using assms(2) by (simp add: owner_def)
  show ?thesis using assms(1,3) None o by (auto simp: handleMessage_def send_def)
next
  case (Some e)
  let ?u = "cnUser cn"
  have o: "owner (wsNode w) (cnWs cn) = Some ?u" using assms(2) by (simp add: owner_def)
  have all: ?thesis if "stays ?u w w'" "bkServer (wsBackend w') \<noteq> bkServer (wsBackend w) \<Longrightarrow>
         isSessionLive (caNow c) (cnSession cn) ?u (bkAuth (wsBackend w))
         \<and> fst (assertPlan (caAccount c) ?u PRO (bkAccounts (wsBackend w))) = None"
    "\<And>ms. enPayload e = PushBatch ms \<Longrightarrow> device_out ?u (cnDevice cn) (srvDb (bkServer (wsBackend w))) \<Longrightarrow>
       bkServer (wsBackend w') = bkServer (wsBackend w)"
    using that assms(1) Some unfolding stays_def own_def by auto
  show ?thesis
  proof (cases "gated (enPayload e)")
    case False
    then have "w' = handlePayload c cn e w" using assms(3) Some by (simp add: handleMessage_def)
    then show ?thesis using all stays_payload [OF assms(2)] ungated_server [OF False] by simp
  next
    case gate: True
    show ?thesis
    proof (cases "isSessionLive (caNow c) (cnSession cn) ?u (bkAuth (wsBackend w))")
      case False
      then have "w' = denySession c (cnWs cn) (cnDevice cn) w"
        using assms(3) Some gate by (simp add: handleMessage_def hasLiveSession_def)
      have "stays ?u w (denySession c (cnWs cn) (cnDevice cn) w)"
        unfolding denySession_def using o by (intro stays_close_after stays_send)
      moreover have "wsBackend (denySession c (cnWs cn) (cnDevice cn) w) = wsBackend w"
        by (simp add: denySession_def send_def closeSocket_def)
      ultimately show ?thesis using \<open>w' = _\<close> by (intro all) simp_all
    next
      case live: True
      obtain r w2 where ent: "hasSyncEntitlement c cn w = (r, w2)" by fastforce
      note es = entitlement_step [OF ent o]
      have w': "w' = (if r then handlePayload c cn e w2 else w2)"
        using assms(3) Some gate live ent by (auto simp: handleMessage_def hasLiveSession_def split: bool.splits)
      show ?thesis
      proof (cases r)
        case False
        then show ?thesis using w' es by (intro all) simp_all
      next
        case True
        then have node: "tbl_get cnWs (cnWs cn) (ndConns (wsNode w2)) = Some cn" using es(3) assms(2) by simp
        have "bkServer (wsBackend w') = bkServer (wsBackend w)" if "enPayload e = PushBatch ms"
          "device_out ?u (cnDevice cn) (srvDb (bkServer (wsBackend w)))" for ms
          using push_device_out [of cn w2] es(2) that w' True by (simp add: handlePayload_def Let_def)
        then show ?thesis
          using w' True live es stays_trans [OF es(1) stays_payload [OF node]] by (intro all) simp_all
      qed
    qed
  qed
qed

definition demo_socket :: ws where
  "demo_socket = \<lparr>wsNode = \<lparr>ndOpen = [1, 2], ndConns = [
       \<lparr>cnWs = 1, cnUser = ''u'', cnDevice = ''d'', cnSession = ''s'', cnAgent = None, cnLastPong = 0\<rparr>,
       \<lparr>cnWs = 2, cnUser = ''v'', cnDevice = ''d2'', cnSession = ''s2'', cnAgent = None, cnLastPong = 0\<rparr>],
       ndRegistry = [(''u:d'', 1), (''v:d2'', 2)]\<rparr>,
     wsBackend = demo_backend [revoked_device], wsFrames = [], wsPublished = []\<rparr>"

definition demo_push :: envelope where
  "demo_push = demo_pull\<lparr>enPayload := PushBatch []\<rparr>"

definition push_host :: host where
  "push_host = plain_host\<lparr>jsonParse := (\<lambda>s. Some (encEnvelope demo_push))\<rparr>"

lemma socket_stays_with_its_user_witness:
  "\<exists>w'. handleMessage (demo_call push_host 1) (hd (ndConns (wsNode demo_socket))) ''push'' demo_socket = w'
    \<and> bkServer (wsBackend w') = bkServer (demo_backend [revoked_device])
    \<and> (\<forall>k e. Sent k e \<in> set (wsFrames w') \<longrightarrow> k = 1)"
proof -
  let ?cn = "hd (ndConns (wsNode demo_socket))" and ?c = "demo_call push_host 1"
  let ?w = "handleMessage ?c ?cn ''push'' demo_socket"
  have ok: "service_ok (srvDb (bkServer (wsBackend demo_socket)))"
    by (auto simp: demo_socket_def demo_backend_def service_ok_def db_ok_def tables_ok_def seqs_ok_def fk_ok_def titles_ok_def
        allRows_def liveDevices_def revoked_device_def)
  have cn: "tbl_get cnWs (cnWs ?cn) (ndConns (wsNode demo_socket)) = Some ?cn" by (simp add: demo_socket_def)
  have e: "decodeEnvelope (caHost ?c) (Inl ''push'') = Some demo_push"
    by (simp add: decodeEnvelope_def demo_call_def push_host_def envelope_value_roundtrip wf_envelope_def demo_push_def
        demo_pull_def safeInt_def MAX_SAFE_INTEGER_def)
  have out: "device_out (cnUser ?cn) (cnDevice ?cn) (srvDb (bkServer (wsBackend demo_socket)))"
    by (simp add: device_out_def demo_socket_def demo_backend_def revoked_device_def)
  have own: "owner (wsNode demo_socket) k = Some ''u'' \<Longrightarrow> k = 1" for k
    by (auto simp: owner_def demo_socket_def split: if_splits)
  have "cnUser ?cn = ''u''" "wsFrames demo_socket = []" "wsBackend demo_socket = demo_backend [revoked_device]"
    by (simp_all add: demo_socket_def)
  with socket_stays_with_its_user [OF ok cn refl, of ?c "''push''"] e out own show ?thesis
    by (auto simp: demo_push_def)
qed

end
