(* ===== verification/Spec2Isabelle.thy ===== *)
theory Spec2Isabelle
  imports ServerDevices StudySchedule ClientQueue BillingProps SessionProps ClientServer SyncSocket
begin

text \<open>
  Root theory of the spaced repetition development.
\<close>

end
